theory Spec2Isabelle
  imports Complex_Main "HOL-Library.AList" "HOL-Library.Log_Nat"
begin

section \<open>Data model of the highlight overlay\<close>

text \<open>
  The embedding follows \<^verbatim>\<open>packages/playwright-core/src/server/injected/highlight.ts\<close>.
  Page elements (the targets) are opaque handles compared by reference; the elements the
  overlay creates live in a store indexed by their handle, so that the registry and the
  shadow root can refer to the same object. A JavaScript number is carried as the real it
  denotes: the numbers are the finite binary64 numbers (the platform never measures NaN or
  an infinite length), and every sum and difference of the source is rounded to binary64,
  see \<open>binary64\<close> below. The action point
  (\<^verbatim>\<open>showActionPoint\<close>, \<^verbatim>\<open>hideActionPoint\<close>), \<^verbatim>\<open>isInstalled\<close> and the
  \<^verbatim>\<open>appendChild\<close> escape hatch are left out: no statement below depends on them.
\<close>

type_synonym element = nat
type_synonym node_id = nat

text \<open>The read-only numbers of a \<^verbatim>\<open>DOMRect\<close>, as measured; no relation between
  them is assumed.\<close>

record DOMRect =
  rect_x :: real
  rect_y :: real
  rect_width :: real
  rect_height :: real
  rect_top :: real
  rect_right :: real
  rect_bottom :: real
  rect_left :: real

datatype style_prop =
    StylePosition | StyleTop | StyleRight | StyleBottom | StyleLeft | StyleZIndex
  | StylePointerEvents | StyleDisplay | StyleBackgroundColor | StyleWidth | StyleHeight

text \<open>A style value is a string literal, or a number followed by \<^verbatim>\<open>'px'\<close>;
  \<^verbatim>\<open>undefined + 'px'\<close> is the string \<^verbatim>\<open>'undefinedpx'\<close>.\<close>

datatype css_value = Str string | Px real | UndefinedPx

fun px :: "real option \<Rightarrow> css_value" where
  "px None = UndefinedPx"
| "px (Some r) = Px r"

record dom_node =
  tag :: string
  textContent :: string
  style :: "(style_prop \<times> css_value) list"
  hidden :: bool

record HighlightEntry =
  targetElement :: element
  highlightElement :: node_id
  tooltipElement :: "node_id option"
  box :: "DOMRect option"
  tooltipTop :: "real option"
  tooltipLeft :: "real option"
  tooltipText :: "string option"

record HighlightOptions =
  optTooltipText :: "string option"
  optColor :: "string option"

text \<open>The operations on the document that a call performs, in the order it performs them.\<close>

datatype dom_op =
    CreateElement node_id string
  | AppendChild node_id
  | SetHidden node_id bool
  | RemoveElement node_id
  | SetTextContent node_id string
  | SetStyle node_id style_prop css_value
  | GetBoundingClientRect element
  | GetOffsetWidth node_id
  | GetOffsetHeight node_id

fun is_read :: "dom_op \<Rightarrow> bool" where
  "is_read (GetBoundingClientRect e) = True"
| "is_read (GetOffsetWidth n) = True"
| "is_read (GetOffsetHeight n) = True"
| "is_read _ = False"

fun is_write :: "dom_op \<Rightarrow> bool" where
  "is_write op = (\<not> is_read op)"

fun is_style_write :: "dom_op \<Rightarrow> bool" where
  "is_style_write (SetStyle n p v) = True"
| "is_style_write _ = False"

fun is_create_or_append :: "dom_op \<Rightarrow> bool" where
  "is_create_or_append (CreateElement n t) = True"
| "is_create_or_append (AppendChild n) = True"
| "is_create_or_append _ = False"

text \<open>The record written to the console under test mode:
  \<^verbatim>\<open>{ x, y, width, height }\<close> of a painted box.\<close>

datatype console_msg = HighlightBoxForTest real real real real

text \<open>The fields of class \<^verbatim>\<open>Highlight\<close>, with the store of created elements,
  the children of the shadow root and of the document element, and the trace of
  document operations.\<close>

record Highlight =
  nodes :: "dom_node list"
  shadowChildren :: "node_id list"
  documentElementChildren :: "node_id list"
  glassPaneElement :: node_id
  actionPointElement :: node_id
  highlightEntries :: "HighlightEntry list"
  isUnderTest :: bool
  rafRequest :: "nat option"
  language :: string
  trace :: "dom_op list"
  console :: "console_msg list"

text \<open>What the platform measures during one call: bounding boxes of page elements and
  the offset sizes of the overlay's own elements.\<close>

record layout =
  boundingClientRect :: "element \<Rightarrow> DOMRect"
  offsetWidth :: "node_id \<Rightarrow> real"
  offsetHeight :: "node_id \<Rightarrow> real"

section \<open>Document primitives\<close>

text \<open>
  The platform operations the class uses, on the state: each records itself in the trace.
  A created element gets the next free handle. \<^verbatim>\<open>appendChild\<close> moves a node that is
  already a child to the end; \<^verbatim>\<open>remove\<close> detaches a node from its parent.
\<close>

definition emit :: "dom_op list \<Rightarrow> Highlight \<Rightarrow> Highlight" where
  "emit ops s = s\<lparr>trace := trace s @ ops\<rparr>"

definition createElement :: "string \<Rightarrow> Highlight \<Rightarrow> node_id \<times> Highlight" where
  "createElement tg s =
     (let n = length (nodes s) in
      (n, emit [CreateElement n tg]
            (s\<lparr>nodes := nodes s @ [\<lparr>tag = tg, textContent = [], style = [], hidden = False\<rparr>]\<rparr>)))"

definition shadowAppendChild :: "node_id \<Rightarrow> Highlight \<Rightarrow> Highlight" where
  "shadowAppendChild n s =
     emit [AppendChild n] (s\<lparr>shadowChildren := removeAll n (shadowChildren s) @ [n]\<rparr>)"

definition removeElement :: "node_id \<Rightarrow> Highlight \<Rightarrow> Highlight" where
  "removeElement n s =
     emit [RemoveElement n]
       (s\<lparr>shadowChildren := removeAll n (shadowChildren s),
          documentElementChildren := removeAll n (documentElementChildren s)\<rparr>)"

definition setTextContent :: "node_id \<Rightarrow> string \<Rightarrow> Highlight \<Rightarrow> Highlight" where
  "setTextContent n txt s =
     emit [SetTextContent n txt]
       (s\<lparr>nodes := (nodes s)[n := (nodes s ! n)\<lparr>textContent := txt\<rparr>]\<rparr>)"

definition setStyle :: "node_id \<Rightarrow> style_prop \<Rightarrow> css_value \<Rightarrow> Highlight \<Rightarrow> Highlight" where
  "setStyle n p v s =
     emit [SetStyle n p v]
       (s\<lparr>nodes := (nodes s)[n := (nodes s ! n)\<lparr>style := AList.update p v (style (nodes s ! n))\<rparr>]\<rparr>)"

definition setHidden :: "node_id \<Rightarrow> bool \<Rightarrow> Highlight \<Rightarrow> Highlight" where
  "setHidden n b s =
     emit [SetHidden n b] (s\<lparr>nodes := (nodes s)[n := (nodes s ! n)\<lparr>hidden := b\<rparr>]\<rparr>)"

definition getStyle :: "Highlight \<Rightarrow> node_id \<Rightarrow> style_prop \<Rightarrow> css_value option" where
  "getStyle s n p = (if n < length (nodes s) then map_of (style (nodes s ! n)) p else None)"


section \<open>The class \<^verbatim>\<open>Highlight\<close>\<close>

text \<open>JavaScript truthiness of a value of type \<^verbatim>\<open>string | undefined\<close>: the empty
  string and \<^verbatim>\<open>undefined\<close> are falsy.\<close>

fun truthy :: "string option \<Rightarrow> bool" where
  "truthy None = False"
| "truthy (Some t) = (t \<noteq> [])"

text \<open>The decimal numeral a template literal prints for a natural number.\<close>

fun decimal :: "nat \<Rightarrow> string" where
  "decimal n =
     (if n < 10 then [''0123456789'' ! n]
      else decimal (n div 10) @ [''0123456789'' ! (n mod 10)])"

declare decimal.simps [simp del]

definition blank :: "bool \<Rightarrow> Highlight" where
  "blank underTest =
     \<lparr>nodes = [], shadowChildren = [], documentElementChildren = [],
      glassPaneElement = 0, actionPointElement = 0, highlightEntries = [],
      isUnderTest = underTest, rafRequest = None, language = ''javascript'',
      trace = [], console = []\<rparr>"

text \<open>The constructor; the event listeners of the glass pane are not part of the state.\<close>

definition constructor :: "bool \<Rightarrow> string \<Rightarrow> Highlight" where
  "constructor underTest highlightCSS =
     (let (g, s1) = createElement ''x-pw-glass'' (blank underTest);
          s2 = s1\<lparr>glassPaneElement := g\<rparr>;
          s3 = setStyle g StylePosition (Str ''fixed'') s2;
          s4 = setStyle g StyleTop (Str ''0'') s3;
          s5 = setStyle g StyleRight (Str ''0'') s4;
          s6 = setStyle g StyleBottom (Str ''0'') s5;
          s7 = setStyle g StyleLeft (Str ''0'') s6;
          s8 = setStyle g StyleZIndex (Str ''2147483646'') s7;
          s9 = setStyle g StylePointerEvents (Str ''none'') s8;
          s10 = setStyle g StyleDisplay (Str ''flex'') s9;
          s11 = setStyle g StyleBackgroundColor (Str ''transparent'') s10;
          (a, s12) = createElement ''x-pw-action-point'' s11;
          s13 = setHidden a True (s12\<lparr>actionPointElement := a\<rparr>);
          s14 = shadowAppendChild a s13;
          (st, s15) = createElement ''style'' s14;
          s16 = setTextContent st highlightCSS s15
      in shadowAppendChild st s16)"

definition install :: "Highlight \<Rightarrow> Highlight" where
  "install s =
     emit [AppendChild (glassPaneElement s)]
       (s\<lparr>documentElementChildren :=
            removeAll (glassPaneElement s) (documentElementChildren s) @ [glassPaneElement s]\<rparr>)"

definition setLanguage :: "string \<Rightarrow> Highlight \<Rightarrow> Highlight" where
  "setLanguage lang s = s\<lparr>language := lang\<rparr>"

fun clearLoop :: "HighlightEntry list \<Rightarrow> Highlight \<Rightarrow> Highlight" where
  "clearLoop [] s = s"
| "clearLoop (entry # rest) s =
     clearLoop rest
       (case tooltipElement entry of
          None \<Rightarrow> removeElement (highlightElement entry) s
        | Some t \<Rightarrow> removeElement t (removeElement (highlightElement entry) s))"

definition clearHighlight :: "Highlight \<Rightarrow> Highlight" where
  "clearHighlight s = (clearLoop (highlightEntries s) s)\<lparr>highlightEntries := []\<rparr>"

definition createHighlightElement :: "Highlight \<Rightarrow> node_id \<times> Highlight" where
  "createHighlightElement s = createElement ''x-pw-highlight'' s"

text \<open>
  Arithmetic on JavaScript numbers. The result of \<^verbatim>\<open>a + b\<close> and of \<^verbatim>\<open>a - b\<close> is
  the binary64 number nearest to the exact result, a tie going to the one with an even
  significand. \<open>exponent x\<close> is the binary exponent of a nonzero \<open>x\<close>, the integer
  \<open>e\<close> with \<open>2 powi e \<le> \<bar>x\<bar>\<close> and \<open>\<bar>x\<bar> < 2 powi (e + 1)\<close>; \<open>ulp x\<close> is the
  distance between neighbouring binary64 numbers at \<open>x\<close>: 53 significant bits from the
  smallest normal exponent \<open>- 1022\<close> on, the fixed spacing \<open>2 powi (- 1074)\<close> below it.
  Overflow to an infinity is left out with the infinities themselves: an offset size is a
  32-bit integer, and the sum of a finite binary64 number and such an integer is finite
  (\<open>tooltipPosition_in_range\<close> below).
\<close>

definition roundTiesToEven :: "real \<Rightarrow> int" where
  "roundTiesToEven r =
     (let f = \<lfloor>r\<rfloor>; d = r - of_int f
      in if d < 1 / 2 then f else if 1 / 2 < d then f + 1 else if even f then f else f + 1)"

definition exponent :: "real \<Rightarrow> int" where
  "exponent x =
     (if 1 \<le> \<bar>x\<bar> then bitlen \<lfloor>\<bar>x\<bar>\<rfloor> - 1 else - bitlen (\<lceil>1 / \<bar>x\<bar>\<rceil> - 1))"

definition ulp :: "real \<Rightarrow> real" where
  "ulp x = 2 powi (max (exponent x) (- 1022) - 52)"

definition binary64 :: "real \<Rightarrow> real" where
  "binary64 x = (if x = 0 then 0 else of_int (roundTiesToEven (x / ulp x)) * ulp x)"

definition add64 :: "real \<Rightarrow> real \<Rightarrow> real" where
  "add64 a b = binary64 (a + b)"

definition sub64 :: "real \<Rightarrow> real \<Rightarrow> real" where
  "sub64 a b = binary64 (a - b)"

text \<open>The largest finite binary64 number, \<^verbatim>\<open>Number.MAX_VALUE\<close>.\<close>

definition maxFinite :: real where
  "maxFinite = (2 ^ 53 - 1) * 2 ^ 971"

record anchor =
  anchorLeft :: real
  anchorTop :: real

definition tooltipPosition ::
  "layout \<Rightarrow> DOMRect \<Rightarrow> node_id \<Rightarrow> Highlight \<Rightarrow> anchor \<times> Highlight" where
  "tooltipPosition L b tooltipElem s =
     (let tooltipWidth = offsetWidth L tooltipElem;
          tooltipHeight = offsetHeight L tooltipElem;
          totalWidth = offsetWidth L (glassPaneElement s);
          totalHeight = offsetHeight L (glassPaneElement s);
          s' = emit [GetOffsetWidth tooltipElem, GetOffsetHeight tooltipElem,
                     GetOffsetWidth (glassPaneElement s), GetOffsetHeight (glassPaneElement s)] s;
          anchorLeft0 = rect_left b;
          anchorLeft1 = (if add64 anchorLeft0 tooltipWidth > sub64 totalWidth 5
                         then sub64 (sub64 totalWidth tooltipWidth) 5 else anchorLeft0);
          anchorTop0 = add64 (rect_bottom b) 5;
          anchorTop1 = (if add64 anchorTop0 tooltipHeight > sub64 totalHeight 5
                        then (if rect_top b > add64 tooltipHeight 5
                              then sub64 (sub64 (rect_top b) tooltipHeight) 5
                              else sub64 (sub64 totalHeight 5) tooltipHeight)
                        else anchorTop0)
      in (\<lparr>anchorLeft = anchorLeft1, anchorTop = anchorTop1\<rparr>, s'))"

text \<open>The loop of \<^verbatim>\<open>_highlightIsUpToDate\<close> from position \<open>i\<close> on: the
  remaining elements and entries, the answer and the measurements read on the way.\<close>

fun upToDateLoop ::
  "layout \<Rightarrow> string option \<Rightarrow> element list \<Rightarrow> HighlightEntry list \<Rightarrow> bool \<times> dom_op list" where
  "upToDateLoop L t els [] = (True, [])"
| "upToDateLoop L t [] (entry # rest) = (False, [])"
| "upToDateLoop L t (el # els) (entry # rest) =
     (if t \<noteq> tooltipText entry then (False, [])
      else if el \<noteq> targetElement entry then (False, [])
      else case box entry of
        None \<Rightarrow> (False, [])
      | Some oldBox \<Rightarrow>
          (let b = boundingClientRect L el in
           if rect_top b \<noteq> rect_top oldBox \<or> rect_right b \<noteq> rect_right oldBox
              \<or> rect_bottom b \<noteq> rect_bottom oldBox \<or> rect_left b \<noteq> rect_left oldBox
           then (False, [GetBoundingClientRect el])
           else (let (ok, reads) = upToDateLoop L t els rest
                 in (ok, GetBoundingClientRect el # reads))))"

definition highlightIsUpToDate ::
  "layout \<Rightarrow> element list \<Rightarrow> string option \<Rightarrow> Highlight \<Rightarrow> bool \<times> Highlight" where
  "highlightIsUpToDate L elements t s =
     (if length elements \<noteq> length (highlightEntries s) then (False, s)
      else (let (ok, reads) = upToDateLoop L t elements (highlightEntries s)
            in (ok, emit reads s)))"

text \<open>The body of the first loop of \<^verbatim>\<open>_innerUpdateHighlight\<close>, at index \<open>i\<close> of
  \<open>n\<close> elements, and the loop.\<close>

definition buildEntry ::
  "HighlightOptions \<Rightarrow> nat \<Rightarrow> nat \<Rightarrow> element \<Rightarrow> Highlight \<Rightarrow> Highlight" where
  "buildEntry options n i el s =
     (let (h, s1) = createHighlightElement s;
          s2 = shadowAppendChild h s1;
          (tooltipElem, s3) =
            (case optTooltipText options of
               Some text \<Rightarrow>
                 if text \<noteq> [] then
                   (let (tt, a) = createElement ''x-pw-tooltip'' s2;
                        b = shadowAppendChild tt a;
                        suffix = (if n > 1
                                  then '' ['' @ decimal (i + 1) @ '' of '' @ decimal n @ '']''
                                  else []);
                        c = setTextContent tt (text @ suffix) b;
                        d = setStyle tt StyleTop (Str ''0'') c;
                        e = setStyle tt StyleLeft (Str ''0'') d
                    in (Some tt, setStyle tt StyleDisplay (Str ''flex'') e))
                 else (None, s2)
             | None \<Rightarrow> (None, s2))
      in s3\<lparr>highlightEntries := highlightEntries s3 @
              [\<lparr>targetElement = el, highlightElement = h, tooltipElement = tooltipElem,
                box = None, tooltipTop = None, tooltipLeft = None,
                tooltipText = optTooltipText options\<rparr>]\<rparr>)"

fun buildLoop ::
  "HighlightOptions \<Rightarrow> nat \<Rightarrow> nat \<Rightarrow> element list \<Rightarrow> Highlight \<Rightarrow> Highlight" where
  "buildLoop options n i [] s = s"
| "buildLoop options n i (el # els) s =
     buildLoop options n (Suc i) els (buildEntry options n i el s)"

text \<open>The body of the second loop: one bounding box read for the entry, and the placement
  of its tooltip; and the loop.\<close>

definition measureEntry ::
  "layout \<Rightarrow> HighlightEntry \<Rightarrow> Highlight \<Rightarrow> HighlightEntry \<times> Highlight" where
  "measureEntry L entry s =
     (let b = boundingClientRect L (targetElement entry);
          s1 = emit [GetBoundingClientRect (targetElement entry)] s;
          entry1 = entry\<lparr>box := Some b\<rparr>
      in case tooltipElement entry of
           None \<Rightarrow> (entry1, s1)
         | Some tt \<Rightarrow>
             (let (a, s2) = tooltipPosition L b tt s1
              in (entry1\<lparr>tooltipTop := Some (anchorTop a),
                         tooltipLeft := Some (anchorLeft a)\<rparr>, s2)))"

fun measureLoop ::
  "layout \<Rightarrow> HighlightEntry list \<Rightarrow> Highlight \<Rightarrow> HighlightEntry list \<times> Highlight" where
  "measureLoop L [] s = ([], s)"
| "measureLoop L (entry # rest) s =
     (let (entry', s1) = measureEntry L entry s;
          (rest', s2) = measureLoop L rest s1
      in (entry' # rest', s2))"

definition measure_entries :: "layout \<Rightarrow> Highlight \<Rightarrow> Highlight" where
  "measure_entries L s =
     (let (entries, s') = measureLoop L (highlightEntries s) s
      in s'\<lparr>highlightEntries := entries\<rparr>)"

datatype error = TypeError

text \<open>The body of the third loop, and the loop. \<^verbatim>\<open>entry.box!\<close> is unchecked:
  reading \<^verbatim>\<open>box.x\<close> of an absent box throws.\<close>

definition paintEntry :: "string \<Rightarrow> HighlightEntry \<Rightarrow> Highlight \<Rightarrow> error + Highlight" where
  "paintEntry color entry s =
     (let s1 = (case tooltipElement entry of
                  Some tt \<Rightarrow> setStyle tt StyleLeft (px (tooltipLeft entry))
                               (setStyle tt StyleTop (px (tooltipTop entry)) s)
                | None \<Rightarrow> s)
      in case box entry of
           None \<Rightarrow> Inl TypeError
         | Some b \<Rightarrow>
             (let h = highlightElement entry;
                  s2 = setStyle h StyleBackgroundColor (Str color) s1;
                  s3 = setStyle h StyleLeft (Px (rect_x b)) s2;
                  s4 = setStyle h StyleTop (Px (rect_y b)) s3;
                  s5 = setStyle h StyleWidth (Px (rect_width b)) s4;
                  s6 = setStyle h StyleHeight (Px (rect_height b)) s5;
                  s7 = setStyle h StyleDisplay (Str ''block'') s6
              in Inr (if isUnderTest s7
                      then s7\<lparr>console := console s7 @
                             [HighlightBoxForTest (rect_x b) (rect_y b) (rect_width b) (rect_height b)]\<rparr>
                      else s7)))"

fun paintLoop :: "string \<Rightarrow> HighlightEntry list \<Rightarrow> Highlight \<Rightarrow> error + Highlight" where
  "paintLoop color [] s = Inr s"
| "paintLoop color (entry # rest) s =
     (case paintEntry color entry s of
        Inl err \<Rightarrow> Inl err
      | Inr s' \<Rightarrow> paintLoop color rest s')"

definition resolveColor :: "element list \<Rightarrow> HighlightOptions \<Rightarrow> string" where
  "resolveColor elements options =
     (let fallback = (if length elements > 1 then ''#f6b26b7f'' else ''#6fa8dc7f'')
      in case optColor options of
           Some color \<Rightarrow> if color \<noteq> [] then color else fallback
         | None \<Rightarrow> fallback)"

definition innerUpdateHighlight ::
  "layout \<Rightarrow> element list \<Rightarrow> HighlightOptions \<Rightarrow> Highlight \<Rightarrow> error + Highlight" where
  "innerUpdateHighlight L elements options s =
     (let color = resolveColor elements options;
          (upToDate, s0) = highlightIsUpToDate L elements (optTooltipText options) s
      in if upToDate then Inr s0
         else (let s1 = clearHighlight s0;
                   s2 = buildLoop options (length elements) 0 elements s1;
                   s3 = measure_entries L s2
               in paintLoop color (highlightEntries s3) s3))"

definition updateHighlight ::
  "layout \<Rightarrow> element list \<Rightarrow> HighlightOptions \<Rightarrow> Highlight \<Rightarrow> error + Highlight" where
  "updateHighlight L elements options s = innerUpdateHighlight L elements options s"

definition maskElements ::
  "layout \<Rightarrow> element list \<Rightarrow> string option \<Rightarrow> Highlight \<Rightarrow> error + Highlight" where
  "maskElements L elements color s =
     innerUpdateHighlight L elements
       \<lparr>optTooltipText = None,
        optColor = Some (case color of
                           Some c \<Rightarrow> if c \<noteq> [] then c else ''#F0F''
                         | None \<Rightarrow> ''#F0F'')\<rparr> s"

definition firstBox :: "Highlight \<Rightarrow> DOMRect option" where
  "firstBox s = (case highlightEntries s of [] \<Rightarrow> None | entry # rest \<Rightarrow> box entry)"

section \<open>The per-frame loop\<close>

text \<open>
  What \<^verbatim>\<open>runHighlightOnRaf\<close> consumes from its collaborators at the moment it runs:
  the layout of the page, the matches of a selector in the current document
  (\<^verbatim>\<open>InjectedScript.querySelectorAll\<close>), and the two pure functions
  \<^verbatim>\<open>stringifySelector\<close> and \<^verbatim>\<open>asLocator\<close>. Their code is not part of this file, so
  they are parameters; \<open>'sel\<close> stands for \<^verbatim>\<open>ParsedSelector\<close>.
\<close>

record 'sel env =
  layoutNow :: layout
  querySelectorAll :: "'sel \<Rightarrow> element list"
  stringifySelector :: "'sel \<Rightarrow> string"
  asLocator :: "string \<Rightarrow> string \<Rightarrow> string"

text \<open>
  The platform's animation-frame callbacks. The only callback the overlay ever registers is
  \<^verbatim>\<open>() => this.runHighlightOnRaf(selector)\<close>, represented by its selector.
  \<^verbatim>\<open>requestAnimationFrame\<close> returns a new non-zero handle,
  \<^verbatim>\<open>cancelAnimationFrame\<close> drops the callback with the given handle, if any.
\<close>

record 'sel frames =
  callbacks :: "(nat \<times> 'sel) list"
  lastHandle :: nat

definition requestAnimationFrame :: "'sel \<Rightarrow> 'sel frames \<Rightarrow> nat \<times> 'sel frames" where
  "requestAnimationFrame selector f =
     (let h = Suc (lastHandle f)
      in (h, f\<lparr>callbacks := callbacks f @ [(h, selector)], lastHandle := h\<rparr>))"

definition cancelAnimationFrame :: "nat \<Rightarrow> 'sel frames \<Rightarrow> 'sel frames" where
  "cancelAnimationFrame h f = f\<lparr>callbacks := filter (\<lambda>(h', selector). h' \<noteq> h) (callbacks f)\<rparr>"

text \<open>\<^verbatim>\<open>if (this._rafRequest) cancelAnimationFrame(this._rafRequest)\<close>: the handle is
  a number or undefined, and \<open>0\<close> is falsy.\<close>

definition cancelPending :: "Highlight \<Rightarrow> 'sel frames \<Rightarrow> 'sel frames" where
  "cancelPending s f =
     (case rafRequest s of
        Some h \<Rightarrow> if h \<noteq> 0 then cancelAnimationFrame h f else f
      | None \<Rightarrow> f)"

definition runHighlightOnRaf ::
  "'sel env \<Rightarrow> 'sel \<Rightarrow> Highlight \<times> 'sel frames \<Rightarrow> error + Highlight \<times> 'sel frames" where
  "runHighlightOnRaf E selector w =
     (let s = fst w;
          f1 = cancelPending s (snd w)
      in case updateHighlight (layoutNow E) (querySelectorAll E selector)
                \<lparr>optTooltipText = Some (asLocator E (language s) (stringifySelector E selector)),
                 optColor = None\<rparr> s of
           Inl err \<Rightarrow> Inl err
         | Inr s1 \<Rightarrow>
             (let (h, f2) = requestAnimationFrame selector f1
              in Inr (s1\<lparr>rafRequest := Some h\<rparr>, f2)))"

definition uninstall :: "Highlight \<times> 'sel frames \<Rightarrow> Highlight \<times> 'sel frames" where
  "uninstall w =
     (let s = fst w;
          f1 = cancelPending s (snd w)
      in (removeElement (glassPaneElement s) s, f1))"

text \<open>An animation frame: the platform takes the handles registered so far and, for each
  that is still registered, removes its callback and runs it. Callbacks registered during
  the frame wait for the next one.\<close>

fun runCallbacks ::
  "'sel env \<Rightarrow> nat list \<Rightarrow> Highlight \<times> 'sel frames \<Rightarrow> error + Highlight \<times> 'sel frames" where
  "runCallbacks E [] w = Inr w"
| "runCallbacks E (h # hs) w =
     (case map_of (callbacks (snd w)) h of
        None \<Rightarrow> runCallbacks E hs w
      | Some selector \<Rightarrow>
          (case runHighlightOnRaf E selector (fst w, cancelAnimationFrame h (snd w)) of
             Inl err \<Rightarrow> Inl err
           | Inr w' \<Rightarrow> runCallbacks E hs w'))"

definition animationFrame ::
  "'sel env \<Rightarrow> Highlight \<times> 'sel frames \<Rightarrow> error + Highlight \<times> 'sel frames" where
  "animationFrame E w = runCallbacks E (map fst (callbacks (snd w))) w"

text \<open>What can happen to an overlay and its loop, in any order: a call of
  \<^verbatim>\<open>runHighlightOnRaf\<close>, an animation frame, a call of \<^verbatim>\<open>uninstall\<close>.\<close>

datatype 'sel event = Start "'sel env" 'sel | Frame "'sel env" | Uninstall

fun step :: "'sel event \<Rightarrow> Highlight \<times> 'sel frames \<Rightarrow> error + Highlight \<times> 'sel frames" where
  "step (Start E selector) w = runHighlightOnRaf E selector w"
| "step (Frame E) w = animationFrame E w"
| "step Uninstall w = Inr (uninstall w)"

fun run :: "'sel event list \<Rightarrow> Highlight \<times> 'sel frames \<Rightarrow> error + Highlight \<times> 'sel frames" where
  "run [] w = Inr w"
| "run (ev # evs) w = (case step ev w of Inl err \<Rightarrow> Inl err | Inr w' \<Rightarrow> run evs w')"

section \<open>Notions used to state the properties\<close>

text \<open>The elements an entry owns, and the removals \<^verbatim>\<open>clearHighlight\<close> performs for
  a registry.\<close>

definition owned_nodes :: "HighlightEntry \<Rightarrow> node_id list" where
  "owned_nodes entry =
     highlightElement entry # (case tooltipElement entry of None \<Rightarrow> [] | Some t \<Rightarrow> [t])"

definition without :: "node_id list \<Rightarrow> node_id list \<Rightarrow> node_id list" where
  "without ns xs = filter (\<lambda>n. n \<notin> set ns) xs"

definition clear_ops :: "HighlightEntry list \<Rightarrow> dom_op list" where
  "clear_ops entries = map RemoveElement (concat (map owned_nodes entries))"

text \<open>The up-to-date condition in the words of the specification: (a) the element count
  matches the registry length; (b) the requested tooltip text equals every entry's stored
  text; (c) each element is identical to the target at its position; (d) each entry has a
  recorded box; (e) each freshly measured box has the top, right, bottom and left of the
  recorded one.\<close>

definition sameEdges :: "DOMRect \<Rightarrow> DOMRect \<Rightarrow> bool" where
  "sameEdges b oldBox \<longleftrightarrow>
     rect_top b = rect_top oldBox \<and> rect_right b = rect_right oldBox \<and>
     rect_bottom b = rect_bottom oldBox \<and> rect_left b = rect_left oldBox"

definition upToDateSpec ::
  "layout \<Rightarrow> element list \<Rightarrow> string option \<Rightarrow> HighlightEntry list \<Rightarrow> bool" where
  "upToDateSpec L elements t entries \<longleftrightarrow>
     length elements = length entries \<and>
     list_all (\<lambda>entry. tooltipText entry = t) entries \<and>
     list_all2 (\<lambda>el entry. el = targetElement entry) elements entries \<and>
     list_all (\<lambda>entry. box entry \<noteq> None) entries \<and>
     list_all2 (\<lambda>el entry. case box entry of None \<Rightarrow> True
                  | Some oldBox \<Rightarrow> sameEdges (boundingClientRect L el) oldBox) elements entries"

text \<open>The reads of the measure pass and the writes of the paint pass, entry by entry.\<close>

fun is_box_read :: "dom_op \<Rightarrow> bool" where
  "is_box_read (GetBoundingClientRect e) = True"
| "is_box_read _ = False"

definition entry_reads :: "node_id \<Rightarrow> HighlightEntry \<Rightarrow> dom_op list" where
  "entry_reads g entry =
     GetBoundingClientRect (targetElement entry) #
     (case tooltipElement entry of
        None \<Rightarrow> []
      | Some tt \<Rightarrow> [GetOffsetWidth tt, GetOffsetHeight tt, GetOffsetWidth g, GetOffsetHeight g])"

definition measure_ops :: "node_id \<Rightarrow> HighlightEntry list \<Rightarrow> dom_op list" where
  "measure_ops g entries = concat (map (entry_reads g) entries)"

definition entry_paints :: "string \<Rightarrow> HighlightEntry \<Rightarrow> dom_op list" where
  "entry_paints color entry =
     (case tooltipElement entry of
        None \<Rightarrow> []
      | Some tt \<Rightarrow> [SetStyle tt StyleTop (px (tooltipTop entry)),
                    SetStyle tt StyleLeft (px (tooltipLeft entry))]) @
     (case box entry of
        None \<Rightarrow> []
      | Some b \<Rightarrow> [SetStyle (highlightElement entry) StyleBackgroundColor (Str color),
                   SetStyle (highlightElement entry) StyleLeft (Px (rect_x b)),
                   SetStyle (highlightElement entry) StyleTop (Px (rect_y b)),
                   SetStyle (highlightElement entry) StyleWidth (Px (rect_width b)),
                   SetStyle (highlightElement entry) StyleHeight (Px (rect_height b)),
                   SetStyle (highlightElement entry) StyleDisplay (Str ''block'')])"

definition paint_ops :: "string \<Rightarrow> HighlightEntry list \<Rightarrow> dom_op list" where
  "paint_ops color entries = concat (map (entry_paints color) entries)"

text \<open>What the build pass adds for one element: its nodes, its registry entry and its
  operations, when the store holds \<open>base\<close> nodes before.\<close>

definition tooltipSuffix :: "nat \<Rightarrow> nat \<Rightarrow> string" where
  "tooltipSuffix n i =
     (if n > 1 then '' ['' @ decimal (i + 1) @ '' of '' @ decimal n @ '']'' else [])"

definition built_nodes :: "HighlightOptions \<Rightarrow> nat \<Rightarrow> nat \<Rightarrow> dom_node list" where
  "built_nodes options n i =
     \<lparr>tag = ''x-pw-highlight'', textContent = [], style = [], hidden = False\<rparr> #
     (if truthy (optTooltipText options)
      then [\<lparr>tag = ''x-pw-tooltip'',
             textContent = the (optTooltipText options) @ tooltipSuffix n i,
             style = [(StyleTop, Str ''0''), (StyleLeft, Str ''0''), (StyleDisplay, Str ''flex'')],
             hidden = False\<rparr>]
      else [])"

definition built_entry :: "HighlightOptions \<Rightarrow> nat \<Rightarrow> element \<Rightarrow> HighlightEntry" where
  "built_entry options base el =
     \<lparr>targetElement = el, highlightElement = base,
      tooltipElement = (if truthy (optTooltipText options) then Some (Suc base) else None),
      box = None, tooltipTop = None, tooltipLeft = None,
      tooltipText = optTooltipText options\<rparr>"

definition built_ops :: "HighlightOptions \<Rightarrow> nat \<Rightarrow> nat \<Rightarrow> nat \<Rightarrow> dom_op list" where
  "built_ops options n i base =
     [CreateElement base ''x-pw-highlight'', AppendChild base] @
     (if truthy (optTooltipText options)
      then [CreateElement (Suc base) ''x-pw-tooltip'', AppendChild (Suc base),
            SetTextContent (Suc base) (the (optTooltipText options) @ tooltipSuffix n i),
            SetStyle (Suc base) StyleTop (Str ''0''), SetStyle (Suc base) StyleLeft (Str ''0''),
            SetStyle (Suc base) StyleDisplay (Str ''flex'')]
      else [])"

definition appended :: "node_id list \<Rightarrow> node_id list \<Rightarrow> node_id list" where
  "appended cs ns = foldl (\<lambda>cs k. removeAll k cs @ [k]) cs ns"

text \<open>What the whole build pass adds, for the elements from index \<open>i\<close> on.\<close>

definition entryWidth :: "HighlightOptions \<Rightarrow> nat" where
  "entryWidth options = (if truthy (optTooltipText options) then 2 else 1)"

fun build_nodes :: "HighlightOptions \<Rightarrow> nat \<Rightarrow> nat \<Rightarrow> element list \<Rightarrow> dom_node list" where
  "build_nodes options n i [] = []"
| "build_nodes options n i (el # els) = built_nodes options n i @ build_nodes options n (Suc i) els"

fun build_entries :: "HighlightOptions \<Rightarrow> nat \<Rightarrow> element list \<Rightarrow> HighlightEntry list" where
  "build_entries options base [] = []"
| "build_entries options base (el # els) =
     built_entry options base el # build_entries options (base + entryWidth options) els"

fun build_ids :: "HighlightOptions \<Rightarrow> nat \<Rightarrow> element list \<Rightarrow> node_id list" where
  "build_ids options base [] = []"
| "build_ids options base (el # els) =
     (base # (if truthy (optTooltipText options) then [Suc base] else [])) @
     build_ids options (base + entryWidth options) els"

fun build_ops :: "HighlightOptions \<Rightarrow> nat \<Rightarrow> nat \<Rightarrow> nat \<Rightarrow> element list \<Rightarrow> dom_op list" where
  "build_ops options n i base [] = []"
| "build_ops options n i base (el # els) =
     built_ops options n i base @ build_ops options n (Suc i) (base + entryWidth options) els"

text \<open>The reads of the up-to-date check, and the state a rebuild reaches before its paint
  pass.\<close>

definition check_reads :: "layout \<Rightarrow> element list \<Rightarrow> string option \<Rightarrow> Highlight \<Rightarrow> dom_op list" where
  "check_reads L elements t s =
     (if length elements \<noteq> length (highlightEntries s) then []
      else snd (upToDateLoop L t elements (highlightEntries s)))"

definition measured :: "layout \<Rightarrow> Highlight \<Rightarrow> HighlightEntry list \<Rightarrow> HighlightEntry list" where
  "measured L s entries = map (\<lambda>entry. fst (measureEntry L entry s)) entries"

definition rebuiltPre :: "layout \<Rightarrow> element list \<Rightarrow> HighlightOptions \<Rightarrow> Highlight \<Rightarrow> Highlight" where
  "rebuiltPre L elements options s =
     measure_entries L
       (buildLoop options (length elements) 0 elements
          (clearHighlight (snd (highlightIsUpToDate L elements (optTooltipText options) s))))"

text \<open>A call performs no mutation: it emitted reads only, and the store, the children of
  the shadow root and of the document element and the registry are what they were.\<close>

definition noMutation :: "Highlight \<Rightarrow> dom_op list \<Rightarrow> Highlight \<Rightarrow> bool" where
  "noMutation s ops s' \<longleftrightarrow>
     list_all is_read ops \<and> nodes s' = nodes s \<and> shadowChildren s' = shadowChildren s \<and>
     documentElementChildren s' = documentElementChildren s \<and>
     highlightEntries s' = highlightEntries s"

text \<open>A trace in three phases: operations satisfying \<open>P\<close>, then operations satisfying
  \<open>Q\<close>, then operations satisfying \<open>R\<close>.\<close>

definition threePhases ::
  "(dom_op \<Rightarrow> bool) \<Rightarrow> (dom_op \<Rightarrow> bool) \<Rightarrow> (dom_op \<Rightarrow> bool) \<Rightarrow> dom_op list \<Rightarrow> bool" where
  "threePhases P Q R ops \<longleftrightarrow>
     (\<exists>a b c. ops = a @ b @ c \<and> list_all P a \<and> list_all Q b \<and> list_all R c)"

text \<open>An operation that, if it paints a background colour, paints \<open>c\<close>.\<close>

fun paints_with :: "string \<Rightarrow> dom_op \<Rightarrow> bool" where
  "paints_with c (SetStyle n p v) = (p = StyleBackgroundColor \<longrightarrow> v = Str c)"
| "paints_with c _ = True"

text \<open>The tooltips of the registry are rendered: every entry whose stored tooltip text
  is a non-empty \<open>t\<close> has a tooltip element whose text is \<open>t\<close> followed by the
  multiplicity suffix of the entry's position. \<open>texts\<close> is the text content of the store.\<close>

definition rendered :: "string list \<Rightarrow> nat \<Rightarrow> nat \<Rightarrow> HighlightEntry \<Rightarrow> string \<Rightarrow> bool" where
  "rendered texts n j entry t \<longleftrightarrow>
     (case tooltipElement entry of
        None \<Rightarrow> False
      | Some tt \<Rightarrow> tt < length texts \<and> texts ! tt = t @ tooltipSuffix n j)"

fun renderedFrom :: "string list \<Rightarrow> nat \<Rightarrow> nat \<Rightarrow> HighlightEntry list \<Rightarrow> bool" where
  "renderedFrom texts n j [] = True"
| "renderedFrom texts n j (entry # rest) =
     ((case tooltipText entry of
         None \<Rightarrow> True
       | Some t \<Rightarrow> t \<noteq> [] \<longrightarrow> rendered texts n j entry t) \<and>
      renderedFrom texts n (Suc j) rest)"

definition tooltipsRendered :: "Highlight \<Rightarrow> bool" where
  "tooltipsRendered s \<longleftrightarrow>
     renderedFrom (map textContent (nodes s)) (length (highlightEntries s)) 0 (highlightEntries s)"

text \<open>At most one callback is scheduled, and the overlay holds its handle.\<close>

definition atMostOne :: "Highlight \<times> 'sel frames \<Rightarrow> bool" where
  "atMostOne w \<longleftrightarrow>
     (case callbacks (snd w) of
        [] \<Rightarrow> True
      | [(h, selector)] \<Rightarrow> rafRequest (fst w) = Some h \<and> h \<noteq> 0
      | _ \<Rightarrow> False)"

text \<open>Lengths on a grid of step \<open>1 / 2 ^ k\<close>, at most \<open>2 ^ 31\<close> in absolute value:
  whole pixels for \<open>k = 0\<close>, 64ths of a pixel for \<open>k = 6\<close>.\<close>

definition onGrid :: "nat \<Rightarrow> real \<Rightarrow> bool" where
  "onGrid k x \<longleftrightarrow> k \<le> 16 \<and> \<bar>x\<bar> \<le> 2 ^ 31 \<and> of_int \<lfloor>x * 2 ^ k\<rfloor> = x * 2 ^ k"

section \<open>Examples\<close>

text \<open>A concrete page for the examples: every element measures the same box, the glass
  pane (element 0) is 100 by 100 and every tooltip 10 by 5.\<close>

definition exampleBox :: DOMRect where
  "exampleBox =
     \<lparr>rect_x = 95, rect_y = 3, rect_width = 20, rect_height = 87,
      rect_top = 3, rect_right = 115, rect_bottom = 90, rect_left = 95\<rparr>"

definition exampleLayout :: layout where
  "exampleLayout =
     \<lparr>boundingClientRect = (\<lambda>e. exampleBox),
      offsetWidth = (\<lambda>n. if n = 0 then 100 else 10),
      offsetHeight = (\<lambda>n. if n = 0 then 100 else 5)\<rparr>"

text \<open>A page on which a sum of \<^verbatim>\<open>tooltipPosition\<close> is rounded: the box ends
  \<open>1 / 2 ^ 47\<close> below 54, the glass pane is 100 by 69 and every tooltip 10 by 5.\<close>

definition roundingBox :: DOMRect where
  "roundingBox =
     \<lparr>rect_x = 10, rect_y = 20, rect_width = 20, rect_height = 34 + 1 / 2 ^ 47,
      rect_top = 20, rect_right = 30, rect_bottom = 54 + 1 / 2 ^ 47, rect_left = 10\<rparr>"

definition roundingLayout :: layout where
  "roundingLayout =
     \<lparr>boundingClientRect = (\<lambda>e. roundingBox),
      offsetWidth = (\<lambda>n. if n = 0 then 100 else 10),
      offsetHeight = (\<lambda>n. if n = 0 then 69 else 5)\<rparr>"

definition exampleOptions :: HighlightOptions where
  "exampleOptions = \<lparr>optTooltipText = Some ''foo'', optColor = None\<rparr>"

text \<open>The example overlay: freshly constructed, and after it has shown elements 7 and 8
  with the tooltip \<^verbatim>\<open>foo\<close>.\<close>

definition exampleFresh :: Highlight where
  "exampleFresh = constructor False []"

definition exampleShown :: Highlight where
  "exampleShown = projr (updateHighlight exampleLayout [7, 8] exampleOptions exampleFresh)"

text \<open>Options that ask for another tooltip text, for another colour, for the empty string
  as colour, and for the empty string as tooltip text.\<close>

definition exampleBar :: HighlightOptions where
  "exampleBar = \<lparr>optTooltipText = Some ''bar'', optColor = None\<rparr>"

definition exampleRed :: HighlightOptions where
  "exampleRed = \<lparr>optTooltipText = Some ''foo'', optColor = Some ''red''\<rparr>"

definition exampleEmptyColor :: HighlightOptions where
  "exampleEmptyColor = \<lparr>optTooltipText = None, optColor = Some []\<rparr>"

definition exampleEmptyTooltip :: HighlightOptions where
  "exampleEmptyTooltip = \<lparr>optTooltipText = Some [], optColor = None\<rparr>"

text \<open>Collaborators that match elements 7 and 8 for every selector, and a new overlay
  with no frame callback scheduled.\<close>

definition exampleEnv :: "string env" where
  "exampleEnv =
     \<lparr>layoutNow = exampleLayout, querySelectorAll = (\<lambda>selector. [7, 8]),
      stringifySelector = (\<lambda>selector. selector),
      asLocator = (\<lambda>lang selector. ''locator('' @ selector @ '')'')\<rparr>"

definition exampleWorld :: "Highlight \<times> string frames" where
  "exampleWorld = (exampleFresh, \<lparr>callbacks = [], lastHandle = 0\<rparr>)"

section \<open>Properties\<close>

subsection \<open>Document primitives\<close>

text \<open>What each primitive does to each field of the state. The equations for the store
  are not simplification rules: they mention the old store three times.\<close>

lemma emit_simps [simp]:
  "shadowChildren (emit ops s) = shadowChildren s"
  "documentElementChildren (emit ops s) = documentElementChildren s"
  "glassPaneElement (emit ops s) = glassPaneElement s"
  "actionPointElement (emit ops s) = actionPointElement s"
  "highlightEntries (emit ops s) = highlightEntries s"
  "isUnderTest (emit ops s) = isUnderTest s"
  "rafRequest (emit ops s) = rafRequest s"
  "language (emit ops s) = language s"
  "trace (emit ops s) = trace s @ ops"
  "console (emit ops s) = console s"
  "nodes (emit ops s) = nodes s"
  by (simp_all add: emit_def)

lemma createElement_simps [simp]:
  "fst (createElement tg s) = length (nodes s)"
  "shadowChildren (snd (createElement tg s)) = shadowChildren s"
  "documentElementChildren (snd (createElement tg s)) = documentElementChildren s"
  "glassPaneElement (snd (createElement tg s)) = glassPaneElement s"
  "actionPointElement (snd (createElement tg s)) = actionPointElement s"
  "highlightEntries (snd (createElement tg s)) = highlightEntries s"
  "isUnderTest (snd (createElement tg s)) = isUnderTest s"
  "rafRequest (snd (createElement tg s)) = rafRequest s"
  "language (snd (createElement tg s)) = language s"
  "trace (snd (createElement tg s)) = trace s @ [CreateElement (length (nodes s)) tg]"
  "console (snd (createElement tg s)) = console s"
  "nodes (snd (createElement tg s)) = nodes s @ [\<lparr>tag = tg, textContent = [], style = [], hidden = False\<rparr>]"
  by (simp_all add: createElement_def Let_def)

lemma shadowAppendChild_simps [simp]:
  "shadowChildren (shadowAppendChild n s) = removeAll n (shadowChildren s) @ [n]"
  "documentElementChildren (shadowAppendChild n s) = documentElementChildren s"
  "glassPaneElement (shadowAppendChild n s) = glassPaneElement s"
  "actionPointElement (shadowAppendChild n s) = actionPointElement s"
  "highlightEntries (shadowAppendChild n s) = highlightEntries s"
  "isUnderTest (shadowAppendChild n s) = isUnderTest s"
  "rafRequest (shadowAppendChild n s) = rafRequest s"
  "language (shadowAppendChild n s) = language s"
  "trace (shadowAppendChild n s) = trace s @ [AppendChild n]"
  "console (shadowAppendChild n s) = console s"
  "nodes (shadowAppendChild n s) = nodes s"
  by (simp_all add: shadowAppendChild_def)

lemma removeElement_simps [simp]:
  "shadowChildren (removeElement n s) = removeAll n (shadowChildren s)"
  "documentElementChildren (removeElement n s) = removeAll n (documentElementChildren s)"
  "glassPaneElement (removeElement n s) = glassPaneElement s"
  "actionPointElement (removeElement n s) = actionPointElement s"
  "highlightEntries (removeElement n s) = highlightEntries s"
  "isUnderTest (removeElement n s) = isUnderTest s"
  "rafRequest (removeElement n s) = rafRequest s"
  "language (removeElement n s) = language s"
  "trace (removeElement n s) = trace s @ [RemoveElement n]"
  "console (removeElement n s) = console s"
  "nodes (removeElement n s) = nodes s"
  by (simp_all add: removeElement_def)

lemma setTextContent_simps [simp]:
  "shadowChildren (setTextContent n txt s) = shadowChildren s"
  "documentElementChildren (setTextContent n txt s) = documentElementChildren s"
  "glassPaneElement (setTextContent n txt s) = glassPaneElement s"
  "actionPointElement (setTextContent n txt s) = actionPointElement s"
  "highlightEntries (setTextContent n txt s) = highlightEntries s"
  "isUnderTest (setTextContent n txt s) = isUnderTest s"
  "rafRequest (setTextContent n txt s) = rafRequest s"
  "language (setTextContent n txt s) = language s"
  "trace (setTextContent n txt s) = trace s @ [SetTextContent n txt]"
  "console (setTextContent n txt s) = console s"
  "length (nodes (setTextContent n txt s)) = length (nodes s)"
  by (simp_all add: setTextContent_def)

lemma setStyle_simps [simp]:
  "shadowChildren (setStyle n p v s) = shadowChildren s"
  "documentElementChildren (setStyle n p v s) = documentElementChildren s"
  "glassPaneElement (setStyle n p v s) = glassPaneElement s"
  "actionPointElement (setStyle n p v s) = actionPointElement s"
  "highlightEntries (setStyle n p v s) = highlightEntries s"
  "isUnderTest (setStyle n p v s) = isUnderTest s"
  "rafRequest (setStyle n p v s) = rafRequest s"
  "language (setStyle n p v s) = language s"
  "trace (setStyle n p v s) = trace s @ [SetStyle n p v]"
  "console (setStyle n p v s) = console s"
  "length (nodes (setStyle n p v s)) = length (nodes s)"
  by (simp_all add: setStyle_def)

lemma setHidden_simps [simp]:
  "shadowChildren (setHidden n b s) = shadowChildren s"
  "documentElementChildren (setHidden n b s) = documentElementChildren s"
  "glassPaneElement (setHidden n b s) = glassPaneElement s"
  "actionPointElement (setHidden n b s) = actionPointElement s"
  "highlightEntries (setHidden n b s) = highlightEntries s"
  "isUnderTest (setHidden n b s) = isUnderTest s"
  "rafRequest (setHidden n b s) = rafRequest s"
  "language (setHidden n b s) = language s"
  "trace (setHidden n b s) = trace s @ [SetHidden n b]"
  "console (setHidden n b s) = console s"
  "length (nodes (setHidden n b s)) = length (nodes s)"
  by (simp_all add: setHidden_def)

lemma setTextContent_nodes:
  "nodes (setTextContent n txt s) = (nodes s)[n := (nodes s ! n)\<lparr>textContent := txt\<rparr>]"
  by (simp add: setTextContent_def)

lemma setStyle_nodes:
  "nodes (setStyle n p v s) = (nodes s)[n := (nodes s ! n)\<lparr>style := AList.update p v (style (nodes s ! n))\<rparr>]"
  by (simp add: setStyle_def)

lemma setHidden_nodes:
  "nodes (setHidden n b s) = (nodes s)[n := (nodes s ! n)\<lparr>hidden := b\<rparr>]"
  by (simp add: setHidden_def)

lemma createHighlightElement_eq [simp]:
  "createHighlightElement s = createElement ''x-pw-highlight'' s"
  by (simp add: createHighlightElement_def)

lemma constructor_simps:
  "highlightEntries (constructor u css) = []"
  "glassPaneElement (constructor u css) = 0"
  "rafRequest (constructor u css) = None"
  "isUnderTest (constructor u css) = u"
  "language (constructor u css) = ''javascript''"
  "length (nodes (constructor u css)) = 3"
  "shadowChildren (constructor u css) = [1, 2]"
  by (simp_all add: constructor_def blank_def split_beta Let_def)


subsection \<open>Teardown and the up-to-date check\<close>

lemmas prims = emit_def createElement_def shadowAppendChild_def removeElement_def
  setTextContent_def setStyle_def setHidden_def createHighlightElement_def

lemma without_Nil: "without [] xs = xs"
  by (simp add: without_def)

lemma without_removeAll: "without ns (removeAll a xs) = without (a # ns) xs"
  by (induction xs) (auto simp: without_def)

lemma without_append: "without ns (without ms xs) = without (ms @ ns) xs"
  by (induction xs) (auto simp: without_def)

lemma clearLoop_closed:
  "clearLoop ens s =
     s\<lparr>shadowChildren := without (concat (map owned_nodes ens)) (shadowChildren s),
       documentElementChildren := without (concat (map owned_nodes ens)) (documentElementChildren s),
       trace := trace s @ clear_ops ens\<rparr>"
proof (induction ens arbitrary: s)
  case Nil
  show ?case by (simp add: clear_ops_def without_Nil)
next
  case (Cons e ens)
  show ?case
    by (cases "tooltipElement e")
       (simp_all add: Cons.IH prims owned_nodes_def clear_ops_def without_removeAll)
qed

lemma clearHighlight_closed:
  "clearHighlight s =
     s\<lparr>shadowChildren := without (concat (map owned_nodes (highlightEntries s))) (shadowChildren s),
       documentElementChildren :=
         without (concat (map owned_nodes (highlightEntries s))) (documentElementChildren s),
       highlightEntries := [],
       trace := trace s @ clear_ops (highlightEntries s)\<rparr>"
  by (simp add: clearHighlight_def clearLoop_closed)

lemma upToDateLoop_reads: "list_all is_read (snd (upToDateLoop L t els ens))"
  by (induction L t els ens rule: upToDateLoop.induct)
     (auto simp: Let_def split_beta split: option.splits)

lemma upToDateLoop_step:
  "fst (upToDateLoop L t (el # els) (en # ens)) \<longleftrightarrow>
     t = tooltipText en \<and> el = targetElement en \<and>
     (\<exists>oldBox. box en = Some oldBox \<and> sameEdges (boundingClientRect L el) oldBox) \<and>
     fst (upToDateLoop L t els ens)"
  by (cases "box en") (auto simp: Let_def sameEdges_def split: prod.splits)

lemma upToDateLoop_spec:
  "length els = length ens \<Longrightarrow> fst (upToDateLoop L t els ens) = upToDateSpec L els t ens"
proof (induction els ens rule: list_induct2)
  case Nil
  show ?case by (simp add: upToDateSpec_def)
next
  case (Cons el els en ens)
  have "fst (upToDateLoop L t (el # els) (en # ens)) \<longleftrightarrow>
     t = tooltipText en \<and> el = targetElement en \<and>
     (\<exists>oldBox. box en = Some oldBox \<and> sameEdges (boundingClientRect L el) oldBox) \<and>
     upToDateSpec L els t ens"
    by (simp only: upToDateLoop_step Cons.IH)
  also have "\<dots> \<longleftrightarrow> upToDateSpec L (el # els) t (en # ens)"
    using Cons.hyps by (cases "box en") (auto simp: upToDateSpec_def)
  finally show ?case .
qed

lemma highlightIsUpToDate_spec:
  "fst (highlightIsUpToDate L els t s) = upToDateSpec L els t (highlightEntries s)"
proof (cases "length els = length (highlightEntries s)")
  case True
  then show ?thesis
    using upToDateLoop_spec [OF True, of L t]
    by (simp add: highlightIsUpToDate_def split_beta)
next
  case False
  then show ?thesis by (simp add: highlightIsUpToDate_def upToDateSpec_def)
qed

lemma highlightIsUpToDate_state:
  "\<exists>reads. snd (highlightIsUpToDate L els t s) = emit reads s \<and> list_all is_read reads"
proof (cases "length els = length (highlightEntries s)")
  case True
  then show ?thesis
    using upToDateLoop_reads [of L t els "highlightEntries s"]
    by (auto simp: highlightIsUpToDate_def split_beta)
next
  case False
  have "s = emit [] s" by (simp add: emit_def)
  with False show ?thesis by (auto simp: highlightIsUpToDate_def intro: exI [of _ "[]"])
qed

lemma upToDateLoop_fresh:
  "set els \<inter> targetElement ` set ens = {} \<Longrightarrow> snd (upToDateLoop L t els ens) = []"
  by (cases "(L, t, els, ens)" rule: upToDateLoop.cases) auto

subsection \<open>Rounding to binary64\<close>

lemma roundTiesToEven_of_int [simp]: "roundTiesToEven (of_int n) = n"
  by (simp add: roundTiesToEven_def)

lemma roundTiesToEven_mono: "x \<le> y \<Longrightarrow> roundTiesToEven x \<le> roundTiesToEven y"
proof -
  assume xy: "x \<le> y"
  then have f: "\<lfloor>x\<rfloor> \<le> \<lfloor>y\<rfloor>" by (rule floor_mono)
  show ?thesis
  proof (cases "\<lfloor>x\<rfloor> = \<lfloor>y\<rfloor>")
    case True
    with xy show ?thesis by (auto simp: roundTiesToEven_def Let_def)
  next
    case False
    with f have "\<lfloor>x\<rfloor> + 1 \<le> \<lfloor>y\<rfloor>" by simp
    moreover have "roundTiesToEven x \<le> \<lfloor>x\<rfloor> + 1" by (simp add: roundTiesToEven_def Let_def)
    moreover have "\<lfloor>y\<rfloor> \<le> roundTiesToEven y" by (simp add: roundTiesToEven_def Let_def)
    ultimately show ?thesis by linarith
  qed
qed

lemma roundTiesToEven_minus: "roundTiesToEven (- x) = - roundTiesToEven x"
proof (cases "x \<in> \<int>")
  case True
  then obtain n where "x = of_int n" by (auto elim: Ints_cases)
  then have "- x = of_int (- n)" by simp
  with \<open>x = of_int n\<close> show ?thesis by (simp only: roundTiesToEven_of_int)
next
  case False
  then have "x \<noteq> of_int \<lfloor>x\<rfloor>" by (metis Ints_of_int)
  then have f: "\<lfloor>- x\<rfloor> = - \<lfloor>x\<rfloor> - 1"
    by (simp add: floor_minus ceiling_altdef)
  show ?thesis
    unfolding roundTiesToEven_def Let_def f by auto
qed

lemma roundTiesToEven_half:
  "roundTiesToEven (of_int n + 1 / 2) = (if even n then n else n + 1)"
proof -
  have "\<lfloor>real_of_int n + 1 / 2\<rfloor> = n" by linarith
  then show ?thesis by (simp add: roundTiesToEven_def Let_def)
qed

lemma two_powi_less: "(2::real) powi m < 2 powi n \<Longrightarrow> m < n"
proof (rule ccontr)
  assume a: "(2::real) powi m < 2 powi n" and "\<not> m < n"
  then have "n \<le> m" by simp
  then have "(2::real) powi n \<le> 2 powi m" by (rule power_int_increasing) simp
  with a show False by simp
qed

text \<open>The definition of \<open>exponent\<close> computes the binary exponent.\<close>

lemma exponent_bounds:
  assumes "x \<noteq> 0"
  shows "2 powi exponent x \<le> \<bar>x\<bar>" and "\<bar>x\<bar> < 2 powi (exponent x + 1)"
proof -
  have "2 powi exponent x \<le> \<bar>x\<bar> \<and> \<bar>x\<bar> < 2 powi (exponent x + 1)"
  proof (cases "1 \<le> \<bar>x\<bar>")
    case True
    let ?n = "\<lfloor>\<bar>x\<bar>\<rfloor>"
    from True have n: "0 < ?n" by linarith
    from bitlen_bounds [OF n] have lo: "2 ^ nat (bitlen ?n - 1) \<le> ?n"
      and hi: "?n < 2 ^ nat (bitlen ?n)" by auto
    from n have b: "1 \<le> bitlen ?n" by (auto simp: bitlen_alt_def)
    have e: "exponent x = bitlen ?n - 1" using True by (simp add: exponent_def)
    from lo have "real_of_int (2 ^ nat (bitlen ?n - 1)) \<le> real_of_int ?n" by linarith
    also have "\<dots> \<le> \<bar>x\<bar>" by linarith
    finally have 1: "2 powi exponent x \<le> \<bar>x\<bar>"
      using b by (simp add: e power_int_nonneg_exp)
    from hi have "?n + 1 \<le> 2 ^ nat (bitlen ?n)" by linarith
    then have "real_of_int (?n + 1) \<le> real_of_int (2 ^ nat (bitlen ?n))" by linarith
    moreover have "\<bar>x\<bar> < real_of_int (?n + 1)" by linarith
    ultimately have "\<bar>x\<bar> < real_of_int (2 ^ nat (bitlen ?n))" by linarith
    then have 2: "\<bar>x\<bar> < 2 powi (exponent x + 1)"
      using b by (simp add: e power_int_nonneg_exp)
    from 1 2 show ?thesis by simp
  next
    case False
    let ?y = "1 / \<bar>x\<bar>"
    let ?m = "\<lceil>?y\<rceil> - 1"
    from False assms have x: "0 < \<bar>x\<bar>" "\<bar>x\<bar> < 1" by auto
    then have y: "1 < ?y" by simp
    then have m: "0 < ?m" by linarith
    from bitlen_bounds [OF m] have lo: "2 ^ nat (bitlen ?m - 1) \<le> ?m"
      and hi: "?m < 2 ^ nat (bitlen ?m)" by auto
    from m have b: "1 \<le> bitlen ?m" by (auto simp: bitlen_alt_def)
    have e: "exponent x = - bitlen ?m" using False by (simp add: exponent_def)
    from hi have "?m + 1 \<le> 2 ^ nat (bitlen ?m)" by linarith
    then have "real_of_int (?m + 1) \<le> real_of_int (2 ^ nat (bitlen ?m))" by linarith
    moreover have "?y \<le> real_of_int (?m + 1)" by linarith
    ultimately have "?y \<le> real_of_int (2 ^ nat (bitlen ?m))" by linarith
    then have "?y \<le> 2 ^ nat (bitlen ?m)" by simp
    with x have "1 \<le> 2 ^ nat (bitlen ?m) * \<bar>x\<bar>" by (simp add: field_simps)
    then have "1 / 2 ^ nat (bitlen ?m) \<le> \<bar>x\<bar>" by (simp add: field_simps)
    then have 1: "2 powi exponent x \<le> \<bar>x\<bar>"
      using b by (simp add: e power_int_minus_divide power_int_nonneg_exp)
    from lo have "real_of_int (2 ^ nat (bitlen ?m - 1)) \<le> real_of_int ?m" by linarith
    moreover have "real_of_int ?m < ?y" by linarith
    ultimately have "real_of_int (2 ^ nat (bitlen ?m - 1)) < ?y" by linarith
    then have "2 ^ nat (bitlen ?m - 1) < ?y" by simp
    with x have "2 ^ nat (bitlen ?m - 1) * \<bar>x\<bar> < 1" by (simp add: field_simps)
    then have "\<bar>x\<bar> < 1 / 2 ^ nat (bitlen ?m - 1)" by (simp add: field_simps)
    moreover have "exponent x + 1 = - (bitlen ?m - 1)" by (simp add: e)
    ultimately have 2: "\<bar>x\<bar> < 2 powi (exponent x + 1)"
      using b by (simp only: power_int_minus_divide) (simp add: power_int_nonneg_exp)
    from 1 2 show ?thesis by simp
  qed
  then show "2 powi exponent x \<le> \<bar>x\<bar>" and "\<bar>x\<bar> < 2 powi (exponent x + 1)" by simp_all
qed

lemma exponent_unique:
  assumes "2 powi e \<le> \<bar>x\<bar>" and "\<bar>x\<bar> < 2 powi (e + 1)"
  shows "exponent x = e"
proof -
  have "0 < (2::real) powi e" by simp
  with assms(1) have "0 < \<bar>x\<bar>" by linarith
  then have nz: "x \<noteq> 0" by simp
  note b = exponent_bounds [OF nz]
  have "(2::real) powi e < 2 powi (exponent x + 1)" using assms(1) b(2) by linarith
  then have 1: "e < exponent x + 1" by (rule two_powi_less)
  have "(2::real) powi exponent x < 2 powi (e + 1)" using assms(2) b(1) by linarith
  then have 2: "exponent x < e + 1" by (rule two_powi_less)
  from 1 2 show ?thesis by simp
qed

lemma exponent_minus [simp]: "exponent (- x) = exponent x"
  by (simp add: exponent_def)

lemma ulp_minus [simp]: "ulp (- x) = ulp x"
  by (simp add: ulp_def)

lemma ulp_pos [simp]: "0 < ulp x"
  by (simp add: ulp_def)

lemma ulp_nonneg [simp]: "0 \<le> ulp x"
  by (simp add: ulp_def)

lemma ulp_nonzero [simp]: "ulp x \<noteq> 0"
  by (simp add: ulp_def)

lemma binary64_minus: "binary64 (- x) = - binary64 x"
  by (simp add: binary64_def roundTiesToEven_minus)

lemma binary64_0 [simp]: "binary64 0 = 0"
  by (simp add: binary64_def)

lemma binary64_nonneg: "0 \<le> x \<Longrightarrow> 0 \<le> binary64 x"
proof -
  assume "0 \<le> x"
  then have "0 \<le> x / ulp x" by simp
  from roundTiesToEven_mono [OF this] have "0 \<le> roundTiesToEven (x / ulp x)"
    by (simp add: roundTiesToEven_def)
  then show ?thesis by (simp add: binary64_def)
qed

lemma binary64_le_power:
  assumes "0 < x" and "x \<le> 2 powi p" and "max (exponent x) (- 1022) - 52 \<le> p"
  shows "binary64 x \<le> 2 powi p"
proof -
  let ?k = "max (exponent x) (- 1022) - 52"
  have u: "ulp x = 2 powi ?k" by (simp add: ulp_def)
  have "(2::real) powi p = 2 powi (p - ?k) * 2 powi ?k"
    by (simp flip: power_int_add)
  also have "(2::real) powi (p - ?k) = of_int (2 ^ nat (p - ?k))"
    using assms(3) by (simp add: power_int_nonneg_exp)
  finally have p: "2 powi p = of_int (2 ^ nat (p - ?k)) * ulp x" by (simp add: u)
  from assms(2) have "x / ulp x \<le> 2 powi p / ulp x" by (simp add: divide_right_mono)
  also have "\<dots> = of_int (2 ^ nat (p - ?k))" by (simp add: p)
  finally have "roundTiesToEven (x / ulp x) \<le> 2 ^ nat (p - ?k)"
    using roundTiesToEven_mono roundTiesToEven_of_int by metis
  then have "real_of_int (roundTiesToEven (x / ulp x)) \<le> real_of_int (2 ^ nat (p - ?k))"
    by linarith
  then have "real_of_int (roundTiesToEven (x / ulp x)) * ulp x \<le> real_of_int (2 ^ nat (p - ?k)) * ulp x"
    by (simp add: mult_right_mono)
  with assms(1) p show ?thesis by (simp add: binary64_def)
qed

lemma binary64_ge_power:
  assumes "0 < x" and "2 powi p \<le> x" and "max (exponent x) (- 1022) - 52 \<le> p"
  shows "2 powi p \<le> binary64 x"
proof -
  let ?k = "max (exponent x) (- 1022) - 52"
  have u: "ulp x = 2 powi ?k" by (simp add: ulp_def)
  have "(2::real) powi p = 2 powi (p - ?k) * 2 powi ?k"
    by (simp flip: power_int_add)
  also have "(2::real) powi (p - ?k) = of_int (2 ^ nat (p - ?k))"
    using assms(3) by (simp add: power_int_nonneg_exp)
  finally have p: "2 powi p = of_int (2 ^ nat (p - ?k)) * ulp x" by (simp add: u)
  from assms(2) have "2 powi p / ulp x \<le> x / ulp x" by (simp add: divide_right_mono)
  moreover have "2 powi p / ulp x = of_int (2 ^ nat (p - ?k))" by (simp add: p)
  ultimately have "of_int (2 ^ nat (p - ?k)) \<le> x / ulp x" by simp
  then have "2 ^ nat (p - ?k) \<le> roundTiesToEven (x / ulp x)"
    using roundTiesToEven_mono roundTiesToEven_of_int by metis
  then have "real_of_int (2 ^ nat (p - ?k)) \<le> real_of_int (roundTiesToEven (x / ulp x))"
    by linarith
  then have "real_of_int (2 ^ nat (p - ?k)) * ulp x \<le> real_of_int (roundTiesToEven (x / ulp x)) * ulp x"
    by (simp add: mult_right_mono)
  with assms(1) p show ?thesis by (simp add: binary64_def)
qed

lemma binary64_mono_pos:
  assumes "0 < x" and "x \<le> y"
  shows "binary64 x \<le> binary64 y"
proof -
  from assms have y: "0 < y" by simp
  let ?ex = "max (exponent x) (- 1022)" and ?ey = "max (exponent y) (- 1022)"
  have exy: "exponent x \<le> exponent y"
  proof (rule ccontr)
    assume "\<not> exponent x \<le> exponent y"
    then have "exponent y + 1 \<le> exponent x" by simp
    then have "(2::real) powi (exponent y + 1) \<le> 2 powi exponent x"
      by (simp add: power_int_increasing)
    with exponent_bounds [of x] exponent_bounds [of y] assms y show False by simp
  qed
  show ?thesis
  proof (cases "?ex = ?ey")
    case True
    then have u: "ulp x = ulp y" by (simp add: ulp_def)
    from assms(2) have "x / ulp y \<le> y / ulp y" by (simp add: divide_right_mono)
    from roundTiesToEven_mono [OF this]
    have "real_of_int (roundTiesToEven (x / ulp y)) * ulp y \<le>
          real_of_int (roundTiesToEven (y / ulp y)) * ulp y"
      by (simp add: mult_right_mono)
    with assms(1) y u show ?thesis by (simp add: binary64_def)
  next
    case False
    with exy have lt: "?ex < exponent y" and ey: "- 1022 < exponent y" by auto
    let ?p = "exponent y"
    have "x < 2 powi (exponent x + 1)" using exponent_bounds(2) [of x] assms(1) by simp
    also have "\<dots> \<le> 2 powi ?p" using lt by (simp add: power_int_increasing)
    finally have xp: "x \<le> 2 powi ?p" by simp
    have py: "2 powi ?p \<le> y" using exponent_bounds(1) [of y] y by simp
    have "binary64 x \<le> 2 powi ?p"
      by (rule binary64_le_power [OF assms(1) xp]) (use lt in linarith)
    also have "\<dots> \<le> binary64 y"
      by (rule binary64_ge_power [OF y py]) (use ey in linarith)
    finally show ?thesis .
  qed
qed

text \<open>Rounding is monotone, so a number does not round past a binary64 number.\<close>

lemma binary64_mono: "x \<le> y \<Longrightarrow> binary64 x \<le> binary64 y"
proof -
  assume xy: "x \<le> y"
  consider "0 < x" | "x \<le> 0" "0 \<le> y" | "y < 0" by linarith
  then show ?thesis
  proof cases
    case 1
    then show ?thesis using xy by (rule binary64_mono_pos)
  next
    case 2
    from 2(1) have "0 \<le> binary64 (- x)" by (simp add: binary64_nonneg)
    then have "binary64 x \<le> 0" by (simp add: binary64_minus)
    also have "0 \<le> binary64 y" using 2(2) by (rule binary64_nonneg)
    finally show ?thesis .
  next
    case 3
    with xy have "0 < - y" "- y \<le> - x" by simp_all
    from binary64_mono_pos [OF this] show ?thesis by (simp add: binary64_minus)
  qed
qed

lemma binary64_le_self: "binary64 W = W \<Longrightarrow> x \<le> W \<Longrightarrow> binary64 x \<le> W"
  using binary64_mono [of x W] by simp

text \<open>A sum of a finite binary64 number and a 32-bit integer, or of a few of them, stays
  in the finite range: it rounds to at most \<open>maxFinite\<close>.\<close>

lemma binary64_top: "binary64 (maxFinite + 2 ^ 33) = maxFinite"
proof -
  define x :: real where "x = maxFinite + 2 ^ 33"
  have e: "exponent x = 1023"
    by (rule exponent_unique) (simp_all add: x_def maxFinite_def)
  have u: "ulp x = 2 ^ 971" unfolding ulp_def e by simp
  have f: "\<lfloor>x / ulp x\<rfloor> = 2 ^ 53 - 1"
    unfolding u by (rule floor_unique) (simp_all add: x_def maxFinite_def field_simps)
  have d: "x / ulp x - of_int (2 ^ 53 - 1) < 1 / 2"
    unfolding u by (simp add: x_def maxFinite_def field_simps)
  have "roundTiesToEven (x / ulp x) = 2 ^ 53 - 1"
    using d by (simp add: roundTiesToEven_def Let_def f)
  moreover have "x \<noteq> 0" by (simp add: x_def maxFinite_def)
  ultimately have "binary64 x = maxFinite" by (simp add: binary64_def u maxFinite_def)
  then show ?thesis by (simp only: x_def)
qed

lemma binary64_finite:
  assumes "\<bar>x\<bar> \<le> maxFinite + 2 ^ 33"
  shows "\<bar>binary64 x\<bar> \<le> maxFinite"
proof -
  from assms have "x \<le> maxFinite + 2 ^ 33" and "- x \<le> maxFinite + 2 ^ 33" by simp_all
  from binary64_mono [OF this(1)] binary64_mono [OF this(2)]
  have "binary64 x \<le> maxFinite" and "binary64 (- x) \<le> maxFinite"
    by (simp_all only: binary64_top)
  then show ?thesis by (simp add: binary64_minus abs_le_iff)
qed

lemma add64_finite:
  "\<bar>x\<bar> \<le> maxFinite \<Longrightarrow> \<bar>y\<bar> \<le> 2 ^ 33 \<Longrightarrow> \<bar>add64 x y\<bar> \<le> maxFinite"
  unfolding add64_def by (rule binary64_finite) linarith

lemma sub64_finite:
  "\<bar>x\<bar> \<le> maxFinite \<Longrightarrow> \<bar>y\<bar> \<le> 2 ^ 33 \<Longrightarrow> \<bar>sub64 x y\<bar> \<le> maxFinite"
  unfolding sub64_def by (rule binary64_finite) linarith

text \<open>The arithmetic agrees with JavaScript on its well-known cases: \<^verbatim>\<open>0.1\<close> is
  \<open>3602879701896397 / 2 ^ 55\<close>, \<^verbatim>\<open>0.1 + 0.2\<close> is \<^verbatim>\<open>0.30000000000000004\<close> and not
  \<^verbatim>\<open>0.3\<close>, and above \<open>2 ^ 53\<close> odd integers round to even ones.\<close>

lemma binary64_examples:
  "binary64 (1 / 10) = 3602879701896397 / 2 ^ 55 \<and>
   add64 (binary64 (1 / 10)) (binary64 (2 / 10)) = 5404319552844596 / 2 ^ 54 \<and>
   add64 (binary64 (1 / 10)) (binary64 (2 / 10)) \<noteq> binary64 (3 / 10) \<and>
   add64 (2 ^ 53) 1 = 2 ^ 53 \<and> add64 (2 ^ 53) 3 = 2 ^ 53 + 4"
  by code_simp

text \<open>A dyadic number with at most 53 significant bits is a binary64 number.\<close>

lemma binary64_dyadic:
  assumes "\<bar>n\<bar> < 2 ^ 53" and "k \<le> 1074"
  shows "binary64 (of_int n / 2 ^ k) = of_int n / 2 ^ k"
proof (cases "n = 0")
  case True
  then show ?thesis by simp
next
  case False
  let ?x = "real_of_int n / 2 ^ k"
  let ?e = "max (exponent ?x) (- 1022)"
  from False have nz: "?x \<noteq> 0" by simp
  have "\<bar>?x\<bar> = real_of_int \<bar>n\<bar> / 2 ^ k" by (simp add: abs_divide)
  also have "\<dots> < 2 ^ 53 / 2 ^ k"
    using assms(1) by (simp add: divide_strict_right_mono)
  also have "\<dots> = 2 powi (53 - int k)"
    by (simp add: power_int_diff)
  finally have "\<bar>?x\<bar> < 2 powi (53 - int k)" .
  with exponent_bounds(1) [OF nz] have "(2::real) powi exponent ?x < 2 powi (53 - int k)"
    by linarith
  then have e: "exponent ?x < 53 - int k" by (rule two_powi_less)
  let ?j = "52 - ?e - int k"
  from e assms(2) have j: "0 \<le> ?j" by auto
  have u: "ulp ?x = 2 powi (?e - 52)" by (simp add: ulp_def)
  have "?x / ulp ?x = real_of_int n * (2 powi (- int k) / 2 powi (?e - 52))"
    by (simp add: u power_int_minus_divide)
  also have "2 powi (- int k) / 2 powi (?e - 52) = (2::real) powi ?j"
    by (simp flip: power_int_diff) (simp add: algebra_simps)
  also have "\<dots> = real_of_int (2 ^ nat ?j)"
    using j by (simp add: power_int_nonneg_exp)
  finally have q: "?x / ulp ?x = real_of_int (n * 2 ^ nat ?j)" by simp
  have "binary64 ?x = real_of_int (roundTiesToEven (?x / ulp ?x)) * ulp ?x"
    using nz by (simp add: binary64_def)
  also have "\<dots> = (?x / ulp ?x) * ulp ?x"
    by (simp only: q roundTiesToEven_of_int)
  also have "\<dots> = ?x" by simp
  finally show ?thesis .
qed

lemma binary64_of_int: "\<bar>n\<bar> < 2 ^ 53 \<Longrightarrow> binary64 (of_int n) = of_int n"
  using binary64_dyadic [of n 0] by simp

lemma binary64_numeral [simp]:
  "numeral k < (2::int) ^ 53 \<Longrightarrow> binary64 (numeral k) = numeral k"
  using binary64_of_int [of "numeral k"] by simp

lemma binary64_neg_numeral [simp]:
  "numeral k < (2::int) ^ 53 \<Longrightarrow> binary64 (- numeral k) = - numeral k"
  using binary64_of_int [of "- numeral k"] by simp

lemma binary64_1 [simp]: "binary64 1 = 1"
  using binary64_of_int [of 1] by simp

text \<open>On a grid of step \<open>1 / 2 ^ k\<close> the sums of lengths are exact.\<close>

lemma binary64_grid:
  assumes "k \<le> 16" and "x * 2 ^ k \<in> \<int>" and "\<bar>x\<bar> \<le> 2 ^ 33"
  shows "binary64 x = x"
proof -
  from assms(2) obtain n where n: "x * 2 ^ k = of_int n" by (auto elim: Ints_cases)
  then have x: "x = of_int n / 2 ^ k" by (simp add: field_simps)
  have "real_of_int \<bar>n\<bar> = \<bar>x * 2 ^ k\<bar>" by (simp add: n)
  also have "\<dots> = \<bar>x\<bar> * 2 ^ k" by (simp add: abs_mult)
  also have "\<dots> \<le> 2 ^ 33 * 2 ^ k" using assms(3) by (simp add: mult_right_mono)
  also have "\<dots> \<le> 2 ^ 33 * (2::real) ^ 16"
    using power_increasing [OF assms(1), of "2::real"] by simp
  also have "\<dots> < real_of_int (2 ^ 53)" by simp
  finally have "\<bar>n\<bar> < 2 ^ 53" by linarith
  from binary64_dyadic [OF this, of k] assms(1) show ?thesis by (simp add: x)
qed

lemma onGrid_D:
  assumes "onGrid k x"
  shows "k \<le> 16" and "x * 2 ^ k \<in> \<int>" and "\<bar>x\<bar> \<le> 2147483648"
proof -
  from assms show "k \<le> 16" and "\<bar>x\<bar> \<le> 2147483648" by (simp_all add: onGrid_def)
  from assms have "of_int \<lfloor>x * 2 ^ k\<rfloor> = x * 2 ^ k" unfolding onGrid_def by blast
  then show "x * 2 ^ k \<in> \<int>" by (metis Ints_of_int)
qed

lemma add64_grid:
  assumes "k \<le> 16" and "x * 2 ^ k \<in> \<int>" and "y * 2 ^ k \<in> \<int>" and "\<bar>x + y\<bar> \<le> 8589934592"
  shows "add64 x y = x + y"
proof -
  have "(x + y) * 2 ^ k = x * 2 ^ k + y * 2 ^ k" by (simp add: algebra_simps)
  with assms(2,3) have "(x + y) * 2 ^ k \<in> \<int>" by simp
  from binary64_grid [OF assms(1) this] assms(4) show ?thesis by (simp add: add64_def)
qed

lemma sub64_grid:
  assumes "k \<le> 16" and "x * 2 ^ k \<in> \<int>" and "y * 2 ^ k \<in> \<int>" and "\<bar>x - y\<bar> \<le> 8589934592"
  shows "sub64 x y = x - y"
proof -
  have "(x - y) * 2 ^ k = x * 2 ^ k - y * 2 ^ k" by (simp add: algebra_simps)
  with assms(2,3) have "(x - y) * 2 ^ k \<in> \<int>" by simp
  from binary64_grid [OF assms(1) this] assms(4) show ?thesis by (simp add: sub64_def)
qed

lemma grid_add: "x * 2 ^ k \<in> \<int> \<Longrightarrow> y * 2 ^ k \<in> \<int> \<Longrightarrow> (x + y) * (2::real) ^ k \<in> \<int>"
  by (simp add: distrib_right)

lemma grid_diff: "x * 2 ^ k \<in> \<int> \<Longrightarrow> y * 2 ^ k \<in> \<int> \<Longrightarrow> (x - y) * (2::real) ^ k \<in> \<int>"
  by (simp add: left_diff_distrib)

lemma grid_5: "5 * (2::real) ^ k \<in> \<int>"
  by simp

lemma tooltipPosition_cong:
  "glassPaneElement s = glassPaneElement s' \<Longrightarrow>
     fst (tooltipPosition L b tt s) = fst (tooltipPosition L b tt s')"
  by (simp add: tooltipPosition_def Let_def)

text \<open>No sum of \<^verbatim>\<open>tooltipPosition\<close> leaves the finite range when the edges of the box
  are finite binary64 numbers and the offset sizes are 32-bit integers.\<close>

lemma tooltipPosition_in_range:
  assumes "\<bar>rect_left B\<bar> \<le> maxFinite" and "\<bar>rect_bottom B\<bar> \<le> maxFinite"
    and "\<bar>rect_top B\<bar> \<le> maxFinite"
    and "\<bar>w\<bar> \<le> 2 ^ 31" and "\<bar>h\<bar> \<le> 2 ^ 31" and "\<bar>W\<bar> \<le> 2 ^ 31" and "\<bar>H\<bar> \<le> 2 ^ 31"
  shows "\<bar>add64 (rect_left B) w\<bar> \<le> maxFinite"
    and "\<bar>sub64 W 5\<bar> \<le> maxFinite"
    and "\<bar>sub64 W w\<bar> \<le> maxFinite"
    and "\<bar>sub64 (sub64 W w) 5\<bar> \<le> maxFinite"
    and "\<bar>add64 (rect_bottom B) 5\<bar> \<le> maxFinite"
    and "\<bar>add64 (add64 (rect_bottom B) 5) h\<bar> \<le> maxFinite"
    and "\<bar>sub64 H 5\<bar> \<le> maxFinite"
    and "\<bar>add64 h 5\<bar> \<le> maxFinite"
    and "\<bar>sub64 (rect_top B) h\<bar> \<le> maxFinite"
    and "\<bar>sub64 (sub64 (rect_top B) h) 5\<bar> \<le> maxFinite"
    and "\<bar>sub64 (sub64 H 5) h\<bar> \<le> maxFinite"
proof -
  have m: "2 ^ 31 \<le> maxFinite" by (simp add: maxFinite_def)
  have five: "\<bar>5 :: real\<bar> \<le> 2 ^ 33" by simp
  from assms(4-7) have o: "\<bar>w\<bar> \<le> 2 ^ 33" "\<bar>h\<bar> \<le> 2 ^ 33" "\<bar>W\<bar> \<le> 2 ^ 33" "\<bar>H\<bar> \<le> 2 ^ 33"
    by simp_all
  from assms(4-7) m have f: "\<bar>w\<bar> \<le> maxFinite" "\<bar>h\<bar> \<le> maxFinite"
      "\<bar>W\<bar> \<le> maxFinite" "\<bar>H\<bar> \<le> maxFinite"
    by linarith+
  show "\<bar>add64 (rect_left B) w\<bar> \<le> maxFinite" by (rule add64_finite [OF assms(1) o(1)])
  show "\<bar>sub64 W 5\<bar> \<le> maxFinite" by (rule sub64_finite [OF f(3) five])
  show a: "\<bar>sub64 W w\<bar> \<le> maxFinite" by (rule sub64_finite [OF f(3) o(1)])
  show "\<bar>sub64 (sub64 W w) 5\<bar> \<le> maxFinite" by (rule sub64_finite [OF a five])
  show b: "\<bar>add64 (rect_bottom B) 5\<bar> \<le> maxFinite" by (rule add64_finite [OF assms(2) five])
  show "\<bar>add64 (add64 (rect_bottom B) 5) h\<bar> \<le> maxFinite" by (rule add64_finite [OF b o(2)])
  show c: "\<bar>sub64 H 5\<bar> \<le> maxFinite" by (rule sub64_finite [OF f(4) five])
  show "\<bar>add64 h 5\<bar> \<le> maxFinite" by (rule add64_finite [OF f(2) five])
  show d: "\<bar>sub64 (rect_top B) h\<bar> \<le> maxFinite" by (rule sub64_finite [OF assms(3) o(2)])
  show "\<bar>sub64 (sub64 (rect_top B) h) 5\<bar> \<le> maxFinite" by (rule sub64_finite [OF d five])
  show "\<bar>sub64 (sub64 H 5) h\<bar> \<le> maxFinite" by (rule sub64_finite [OF c o(2)])
qed

section \<open>Tooltip placement\<close>

text \<open>
  Claim C2, as stated, reads the sums and differences as exact. The code computes them in
  binary64 and compares the rounded sums. Take a box with bottom \<open>54 + 1 / 2 ^ 47\<close> and top
  20 (both binary64 numbers), a tooltip 10 by 5 and a surface 100 by 69. Exactly,
  \<open>(B.bottom + 5) + h\<close> is \<open>64 + 1 / 2 ^ 47\<close>, more than \<open>H - 5 = 64\<close>, and
  \<open>B.top > h + 5\<close>, so the claim places the tooltip above the box, at
  \<open>B.top - h - 5 = 10\<close>. In the code \<open>B.bottom + 5\<close> is \<open>59 + 1 / 2 ^ 47\<close>, and adding
  the height gives a sum half way between two binary64 numbers, which rounds to 64: the test
  \<^verbatim>\<open>anchorTop + tooltipHeight > totalHeight - 5\<close> fails and the tooltip stays below
  the box, at \<open>59 + 1 / 2 ^ 47\<close>.
\<close>

theorem tooltipPosition_rounding_counterexample:
  "binary64 (rect_bottom roundingBox) = rect_bottom roundingBox \<and>
   binary64 (rect_top roundingBox) = rect_top roundingBox \<and>
   (rect_bottom roundingBox + 5) + offsetHeight roundingLayout 4
     > offsetHeight roundingLayout (glassPaneElement exampleFresh) - 5 \<and>
   rect_top roundingBox > offsetHeight roundingLayout 4 + 5 \<and>
   rect_top roundingBox - offsetHeight roundingLayout 4 - 5 = 10 \<and>
   anchorTop (fst (tooltipPosition roundingLayout roundingBox 4 exampleFresh)) = 59 + 1 / 2 ^ 47"
proof -
  have g: "glassPaneElement exampleFresh = 0"
    by (simp add: exampleFresh_def constructor_simps)
  have "fst (tooltipPosition roundingLayout roundingBox 4 exampleFresh) =
        fst (tooltipPosition roundingLayout roundingBox 4 (blank False))"
    by (rule tooltipPosition_cong) (simp add: g blank_def)
  moreover have "anchorTop (fst (tooltipPosition roundingLayout roundingBox 4 (blank False))) =
        59 + 1 / 2 ^ 47"
    by code_simp
  moreover have "binary64 (rect_bottom roundingBox) = rect_bottom roundingBox"
    by code_simp
  moreover have "binary64 (rect_top roundingBox) = rect_top roundingBox"
    by code_simp
  ultimately show ?thesis
    by (simp add: g roundingBox_def roundingLayout_def)
qed

text \<open>
  Claim C2, amended. Write \<open>a \<oplus> b\<close> and \<open>a \<ominus> b\<close> for the binary64 sum and difference
  (\<open>add64\<close>, \<open>sub64\<close>): the exact result rounded to the nearest binary64 number, ties to
  even. For a target box \<open>B\<close>, a tooltip of size \<open>(w, h)\<close> and a surface of size
  \<open>(W, H)\<close>, \<^verbatim>\<open>tooltipPosition\<close> returns \<open>anchorLeft = B.left\<close> if
  \<open>B.left \<oplus> w \<le> W \<ominus> 5\<close> and \<open>(W \<ominus> w) \<ominus> 5\<close> otherwise; it returns
  \<open>anchorTop = B.bottom \<oplus> 5\<close> if \<open>(B.bottom \<oplus> 5) \<oplus> h \<le> H \<ominus> 5\<close>, otherwise
  \<open>(B.top \<ominus> h) \<ominus> 5\<close> when \<open>B.top > h \<oplus> 5\<close> and \<open>(H \<ominus> 5) \<ominus> h\<close> when
  \<open>B.top \<le> h \<oplus> 5\<close>. In particular \<open>anchorLeft = (W \<ominus> w) \<ominus> 5\<close> when \<open>B.left \<oplus> w\<close>
  exceeds the binary64 number \<open>W\<close>, and \<open>anchorTop = (H \<ominus> 5) \<ominus> h\<close> when the tooltip
  fits neither below nor above. When the edges and the sizes lie on a grid of step
  \<open>1 / 2 ^ k\<close> with \<open>k \<le> 16\<close> and are at most \<open>2 ^ 31\<close> in absolute value (whole
  pixels are the grid \<open>k = 0\<close>), no sum is rounded and the placement is the one of the
  claim as stated, with exact sums and differences. The sizes are the offset sizes of the
  tooltip element and of the glass pane.
\<close>

theorem tooltipPosition_placement:
  assumes "w = offsetWidth L tt" and "h = offsetHeight L tt"
    and "W = offsetWidth L (glassPaneElement s)" and "H = offsetHeight L (glassPaneElement s)"
    and "a = fst (tooltipPosition L B tt s)"
  shows "anchorLeft a =
           (if add64 (rect_left B) w \<le> sub64 W 5 then rect_left B else sub64 (sub64 W w) 5) \<and>
         anchorTop a =
           (if add64 (add64 (rect_bottom B) 5) h \<le> sub64 H 5 then add64 (rect_bottom B) 5
            else if rect_top B > add64 h 5 then sub64 (sub64 (rect_top B) h) 5
            else sub64 (sub64 H 5) h) \<and>
         (binary64 W = W \<and> add64 (rect_left B) w > W \<longrightarrow>
            anchorLeft a = sub64 (sub64 W w) 5) \<and>
         (add64 (add64 (rect_bottom B) 5) h > sub64 H 5 \<and> rect_top B \<le> add64 h 5 \<longrightarrow>
            anchorTop a = sub64 (sub64 H 5) h) \<and>
         (onGrid k (rect_left B) \<and> onGrid k (rect_bottom B) \<and> onGrid k (rect_top B) \<and>
          onGrid k w \<and> onGrid k h \<and> onGrid k W \<and> onGrid k H \<longrightarrow>
            anchorLeft a = (if rect_left B + w \<le> W - 5 then rect_left B else W - w - 5) \<and>
            anchorTop a =
              (if (rect_bottom B + 5) + h \<le> H - 5 then rect_bottom B + 5
               else if rect_top B > h + 5 then rect_top B - h - 5 else H - 5 - h) \<and>
            (rect_left B + w > W \<longrightarrow> anchorLeft a = W - w - 5) \<and>
            ((rect_bottom B + 5) + h > H - 5 \<and> rect_top B \<le> h + 5 \<longrightarrow>
               anchorTop a = H - 5 - h))"
proof -
  have left: "anchorLeft a =
      (if add64 (rect_left B) w \<le> sub64 W 5 then rect_left B else sub64 (sub64 W w) 5)"
    using assms by (simp add: tooltipPosition_def Let_def not_le)
  have top: "anchorTop a =
      (if add64 (add64 (rect_bottom B) 5) h \<le> sub64 H 5 then add64 (rect_bottom B) 5
       else if rect_top B > add64 h 5 then sub64 (sub64 (rect_top B) h) 5
       else sub64 (sub64 H 5) h)"
    using assms by (simp add: tooltipPosition_def Let_def not_le)
  have over: "anchorLeft a = sub64 (sub64 W w) 5"
    if "binary64 W = W \<and> add64 (rect_left B) w > W"
  proof -
    from that have "sub64 W 5 \<le> W"
      unfolding sub64_def by (intro binary64_le_self) simp_all
    with that left show ?thesis by simp
  qed
  have neither: "anchorTop a = sub64 (sub64 H 5) h"
    if "add64 (add64 (rect_bottom B) 5) h > sub64 H 5 \<and> rect_top B \<le> add64 h 5"
    using that top by simp
  have exact: "anchorLeft a = (if rect_left B + w \<le> W - 5 then rect_left B else W - w - 5) \<and>
      anchorTop a =
        (if (rect_bottom B + 5) + h \<le> H - 5 then rect_bottom B + 5
         else if rect_top B > h + 5 then rect_top B - h - 5 else H - 5 - h) \<and>
      (rect_left B + w > W \<longrightarrow> anchorLeft a = W - w - 5) \<and>
      ((rect_bottom B + 5) + h > H - 5 \<and> rect_top B \<le> h + 5 \<longrightarrow> anchorTop a = H - 5 - h)"
    if g: "onGrid k (rect_left B) \<and> onGrid k (rect_bottom B) \<and> onGrid k (rect_top B) \<and>
          onGrid k w \<and> onGrid k h \<and> onGrid k W \<and> onGrid k H"
  proof -
    from g have k: "k \<le> 16" by (blast dest: onGrid_D(1))
    from g have i: "rect_left B * 2 ^ k \<in> \<int>" "rect_bottom B * 2 ^ k \<in> \<int>"
        "rect_top B * 2 ^ k \<in> \<int>" "w * 2 ^ k \<in> \<int>" "h * 2 ^ k \<in> \<int>"
        "W * 2 ^ k \<in> \<int>" "H * 2 ^ k \<in> \<int>"
      by (blast dest: onGrid_D(2))+
    from g have b: "\<bar>rect_left B\<bar> \<le> 2147483648" "\<bar>rect_bottom B\<bar> \<le> 2147483648"
        "\<bar>rect_top B\<bar> \<le> 2147483648" "\<bar>w\<bar> \<le> 2147483648" "\<bar>h\<bar> \<le> 2147483648"
        "\<bar>W\<bar> \<le> 2147483648" "\<bar>H\<bar> \<le> 2147483648"
      by (blast dest: onGrid_D(3))+
    note five = grid_5 [of k]
    have e1: "add64 (rect_left B) w = rect_left B + w"
      by (rule add64_grid [OF k i(1) i(4)]) (use b in linarith)
    have e2: "sub64 W 5 = W - 5"
      by (rule sub64_grid [OF k i(6) five]) (use b in linarith)
    have e3: "sub64 W w = W - w"
      by (rule sub64_grid [OF k i(6) i(4)]) (use b in linarith)
    have e4: "sub64 (W - w) 5 = W - w - 5"
      by (rule sub64_grid [OF k grid_diff [OF i(6) i(4)] five]) (use b in linarith)
    have e5: "add64 (rect_bottom B) 5 = rect_bottom B + 5"
      by (rule add64_grid [OF k i(2) five]) (use b in linarith)
    have e6: "add64 (rect_bottom B + 5) h = rect_bottom B + 5 + h"
      by (rule add64_grid [OF k grid_add [OF i(2) five] i(5)]) (use b in linarith)
    have e7: "sub64 H 5 = H - 5"
      by (rule sub64_grid [OF k i(7) five]) (use b in linarith)
    have e8: "add64 h 5 = h + 5"
      by (rule add64_grid [OF k i(5) five]) (use b in linarith)
    have e9: "sub64 (rect_top B) h = rect_top B - h"
      by (rule sub64_grid [OF k i(3) i(5)]) (use b in linarith)
    have e10: "sub64 (rect_top B - h) 5 = rect_top B - h - 5"
      by (rule sub64_grid [OF k grid_diff [OF i(3) i(5)] five]) (use b in linarith)
    have e11: "sub64 (H - 5) h = H - 5 - h"
      by (rule sub64_grid [OF k grid_diff [OF i(7) five] i(5)]) (use b in linarith)
    from left have l: "anchorLeft a =
        (if rect_left B + w \<le> W - 5 then rect_left B else W - w - 5)"
      by (simp only: e1 e2 e3 e4)
    from top have t: "anchorTop a =
        (if (rect_bottom B + 5) + h \<le> H - 5 then rect_bottom B + 5
         else if rect_top B > h + 5 then rect_top B - h - 5 else H - 5 - h)"
      by (simp only: e5 e6 e7 e8 e9 e10 e11)
    from l t show ?thesis by simp
  qed
  from left top over neither exact show ?thesis by blast
qed

theorem tooltipPosition_placement_witness:
  "binary64 (offsetWidth exampleLayout (glassPaneElement exampleFresh)) =
     offsetWidth exampleLayout (glassPaneElement exampleFresh) \<and>
   add64 (rect_left exampleBox) (offsetWidth exampleLayout 4)
     > offsetWidth exampleLayout (glassPaneElement exampleFresh) \<and>
   add64 (add64 (rect_bottom exampleBox) 5) (offsetHeight exampleLayout 4)
     > sub64 (offsetHeight exampleLayout (glassPaneElement exampleFresh)) 5 \<and>
   rect_top exampleBox \<le> add64 (offsetHeight exampleLayout 4) 5 \<and>
   onGrid 0 (rect_left exampleBox) \<and> onGrid 0 (rect_bottom exampleBox) \<and>
   onGrid 0 (rect_top exampleBox) \<and> onGrid 0 (offsetWidth exampleLayout 4) \<and>
   onGrid 0 (offsetHeight exampleLayout 4) \<and>
   onGrid 0 (offsetWidth exampleLayout (glassPaneElement exampleFresh)) \<and>
   onGrid 0 (offsetHeight exampleLayout (glassPaneElement exampleFresh)) \<and>
   rect_left exampleBox + offsetWidth exampleLayout 4
     > offsetWidth exampleLayout (glassPaneElement exampleFresh) \<and>
   (rect_bottom exampleBox + 5) + offsetHeight exampleLayout 4
     > offsetHeight exampleLayout (glassPaneElement exampleFresh) - 5 \<and>
   rect_top exampleBox \<le> offsetHeight exampleLayout 4 + 5 \<and>
   anchorLeft (fst (tooltipPosition exampleLayout exampleBox 4 exampleFresh)) = 85 \<and>
   anchorTop (fst (tooltipPosition exampleLayout exampleBox 4 exampleFresh)) = 90"
proof -
  have g: "glassPaneElement exampleFresh = 0"
    by (simp add: exampleFresh_def constructor_simps)
  have v: "rect_left exampleBox = 95" "rect_bottom exampleBox = 90" "rect_top exampleBox = 3"
      "offsetWidth exampleLayout 4 = 10" "offsetHeight exampleLayout 4 = 5"
      "offsetWidth exampleLayout 0 = 100" "offsetHeight exampleLayout 0 = 100"
    by (simp_all add: exampleBox_def exampleLayout_def)
  have grid: "onGrid 0 95" "onGrid 0 90" "onGrid 0 3" "onGrid 0 10" "onGrid 0 5" "onGrid 0 100"
    by (simp_all add: onGrid_def)
  have r: "binary64 100 = 100" "add64 95 10 = 105" "add64 90 5 = 95" "add64 95 5 = 100"
      "sub64 100 5 = 95" "add64 5 5 = 10"
    by (simp_all add: add64_def sub64_def)
  from tooltipPosition_placement [where L = exampleLayout and tt = 4
      and s = exampleFresh and B = exampleBox and k = 0, OF refl refl refl refl refl]
  show ?thesis
    by (simp only: g v grid r) simp
qed

subsection \<open>The measure pass\<close>

lemma emit_Nil [simp]: "emit [] s = s"
  by (simp add: emit_def)

lemma emit_emit [simp]: "emit b (emit a s) = emit (a @ b) s"
  by (simp add: emit_def)

lemma tooltipPosition_state:
  "snd (tooltipPosition L b tt s) =
     emit [GetOffsetWidth tt, GetOffsetHeight tt,
           GetOffsetWidth (glassPaneElement s), GetOffsetHeight (glassPaneElement s)] s"
  by (simp add: tooltipPosition_def Let_def)

lemma measureEntry_state:
  "snd (measureEntry L entry s) = emit (entry_reads (glassPaneElement s) entry) s"
  by (cases "tooltipElement entry")
     (simp_all add: measureEntry_def entry_reads_def Let_def split_beta tooltipPosition_state)

lemma measureEntry_entry:
  "targetElement (fst (measureEntry L entry s)) = targetElement entry \<and>
   highlightElement (fst (measureEntry L entry s)) = highlightElement entry \<and>
   tooltipElement (fst (measureEntry L entry s)) = tooltipElement entry \<and>
   tooltipText (fst (measureEntry L entry s)) = tooltipText entry \<and>
   box (fst (measureEntry L entry s)) = Some (boundingClientRect L (targetElement entry))"
  by (cases "tooltipElement entry") (simp_all add: measureEntry_def Let_def split_beta)

lemma measureLoop_state:
  "snd (measureLoop L ens s) = emit (measure_ops (glassPaneElement s) ens) s"
  by (induction ens arbitrary: s) (simp_all add: measure_ops_def split_beta measureEntry_state)

lemma measureLoop_entries:
  "map targetElement (fst (measureLoop L ens s)) = map targetElement ens \<and>
   map highlightElement (fst (measureLoop L ens s)) = map highlightElement ens \<and>
   map tooltipElement (fst (measureLoop L ens s)) = map tooltipElement ens \<and>
   map tooltipText (fst (measureLoop L ens s)) = map tooltipText ens \<and>
   map box (fst (measureLoop L ens s)) =
     map (\<lambda>entry. Some (boundingClientRect L (targetElement entry))) ens"
  by (induction ens arbitrary: s) (simp_all add: split_beta measureEntry_entry)

lemma measure_ops_reads: "list_all is_read (measure_ops g ens)"
  by (induction ens) (auto simp: measure_ops_def entry_reads_def split: option.splits)

lemma measure_ops_box_reads:
  "filter is_box_read (measure_ops g ens) =
     map (\<lambda>entry. GetBoundingClientRect (targetElement entry)) ens"
  by (induction ens) (auto simp: measure_ops_def entry_reads_def split: option.splits)

lemma measure_entries_closed:
  "measure_entries L s =
     (emit (measure_ops (glassPaneElement s) (highlightEntries s)) s)
       \<lparr>highlightEntries := fst (measureLoop L (highlightEntries s) s)\<rparr>"
  by (simp add: measure_entries_def split_beta measureLoop_state)

subsection \<open>The paint pass\<close>

lemma getStyle_setStyle:
  "getStyle (setStyle n p v s) m q =
     (if m = n \<and> n < length (nodes s) \<and> p = q then Some v else getStyle s m q)"
  by (cases "m = n") (auto simp: getStyle_def setStyle_nodes update_conv')

lemma getStyle_console [simp]: "getStyle (s\<lparr>console := c\<rparr>) m q = getStyle s m q"
  by (simp add: getStyle_def)

lemma getStyle_emit [simp]: "getStyle (emit ops s) m q = getStyle s m q"
  by (simp add: getStyle_def)

lemma setStyle_text [simp]:
  "map textContent (nodes (setStyle n p v s)) = map textContent (nodes s)"
proof (cases "n < length (nodes s)")
  case True
  then have "(map textContent (nodes s))[n := textContent (nodes s ! n)] = map textContent (nodes s)"
    by (simp add: list_update_same_conv)
  then show ?thesis by (simp add: setStyle_nodes map_update)
next
  case False
  then show ?thesis by (simp add: setStyle_nodes list_update_beyond)
qed

lemma paintEntry_None: "box entry = None \<Longrightarrow> paintEntry c entry s = Inl TypeError"
  by (simp add: paintEntry_def)

lemma paintEntry_Some: "box entry = Some b \<Longrightarrow> \<exists>s'. paintEntry c entry s = Inr s'"
  by (simp add: paintEntry_def Let_def)

lemma paintEntry_frame:
  assumes "paintEntry c entry s = Inr s'"
  shows "highlightEntries s' = highlightEntries s \<and> shadowChildren s' = shadowChildren s \<and>
     documentElementChildren s' = documentElementChildren s \<and>
     glassPaneElement s' = glassPaneElement s \<and> actionPointElement s' = actionPointElement s \<and>
     isUnderTest s' = isUnderTest s \<and> rafRequest s' = rafRequest s \<and> language s' = language s \<and>
     length (nodes s') = length (nodes s) \<and>
     map textContent (nodes s') = map textContent (nodes s) \<and>
     trace s' = trace s @ entry_paints c entry"
proof -
  from assms obtain b where b: "box entry = Some b"
    by (cases "box entry") (simp_all add: paintEntry_def)
  show ?thesis
    using assms b
    by (cases "tooltipElement entry") (auto simp: paintEntry_def entry_paints_def Let_def split: if_splits)
qed

lemma paintEntry_keeps_color:
  assumes "paintEntry c entry s = Inr s'"
    and "getStyle s h StyleBackgroundColor = Some (Str c)"
  shows "getStyle s' h StyleBackgroundColor = Some (Str c)"
proof -
  from assms(1) obtain b where b: "box entry = Some b"
    by (cases "box entry") (simp_all add: paintEntry_def)
  show ?thesis
    using assms b
    by (cases "tooltipElement entry") (auto simp: paintEntry_def Let_def getStyle_setStyle split: if_splits)
qed

lemma paintEntry_color:
  assumes "paintEntry c entry s = Inr s'"
    and "highlightElement entry < length (nodes s)"
  shows "getStyle s' (highlightElement entry) StyleBackgroundColor = Some (Str c)"
proof -
  from assms(1) obtain b where b: "box entry = Some b"
    by (cases "box entry") (simp_all add: paintEntry_def)
  show ?thesis
    using assms b
    by (cases "tooltipElement entry") (auto simp: paintEntry_def Let_def getStyle_setStyle split: if_splits)
qed

lemma paintLoop_total:
  "list_all (\<lambda>entry. box entry \<noteq> None) ens \<Longrightarrow> \<exists>s'. paintLoop c ens s = Inr s'"
proof (induction ens arbitrary: s)
  case Nil
  show ?case by simp
next
  case (Cons e ens)
  then obtain b where "box e = Some b" by auto
  from paintEntry_Some [OF this] obtain s1 where "paintEntry c e s = Inr s1" by blast
  with Cons show ?case by simp
qed

lemma paintLoop_frame:
  "paintLoop c ens s = Inr s' \<Longrightarrow>
     highlightEntries s' = highlightEntries s \<and> shadowChildren s' = shadowChildren s \<and>
     documentElementChildren s' = documentElementChildren s \<and>
     glassPaneElement s' = glassPaneElement s \<and> actionPointElement s' = actionPointElement s \<and>
     isUnderTest s' = isUnderTest s \<and> rafRequest s' = rafRequest s \<and> language s' = language s \<and>
     length (nodes s') = length (nodes s) \<and>
     map textContent (nodes s') = map textContent (nodes s) \<and>
     trace s' = trace s @ paint_ops c ens"
proof (induction ens arbitrary: s)
  case Nil
  then show ?case by (simp add: paint_ops_def)
next
  case (Cons e ens)
  from Cons.prems obtain s1 where s1: "paintEntry c e s = Inr s1" and r: "paintLoop c ens s1 = Inr s'"
    by (cases "paintEntry c e s") simp_all
  from paintEntry_frame [OF s1] Cons.IH [OF r] show ?case
    by (simp add: paint_ops_def)
qed

lemma paintLoop_keeps_color:
  "paintLoop c ens s = Inr s' \<Longrightarrow> getStyle s h StyleBackgroundColor = Some (Str c) \<Longrightarrow>
     getStyle s' h StyleBackgroundColor = Some (Str c)"
proof (induction ens arbitrary: s)
  case Nil
  then show ?case by simp
next
  case (Cons e ens)
  from Cons.prems(1) obtain s1 where s1: "paintEntry c e s = Inr s1" and r: "paintLoop c ens s1 = Inr s'"
    by (cases "paintEntry c e s") simp_all
  from Cons.IH [OF r paintEntry_keeps_color [OF s1 Cons.prems(2)]] show ?case .
qed

lemma paintLoop_color:
  "paintLoop c ens s = Inr s' \<Longrightarrow> entry \<in> set ens \<Longrightarrow>
     highlightElement entry < length (nodes s) \<Longrightarrow>
     getStyle s' (highlightElement entry) StyleBackgroundColor = Some (Str c)"
proof (induction ens arbitrary: s)
  case Nil
  then show ?case by simp
next
  case (Cons e ens)
  from Cons.prems(1) obtain s1 where s1: "paintEntry c e s = Inr s1" and r: "paintLoop c ens s1 = Inr s'"
    by (cases "paintEntry c e s") simp_all
  show ?case
  proof (cases "entry = e")
    case True
    with paintEntry_color [OF s1] Cons.prems(3)
    have "getStyle s1 (highlightElement entry) StyleBackgroundColor = Some (Str c)" by simp
    from paintLoop_keeps_color [OF r this] show ?thesis .
  next
    case False
    with Cons.prems(2) have "entry \<in> set ens" by simp
    moreover from paintEntry_frame [OF s1] Cons.prems(3)
    have "highlightElement entry < length (nodes s1)" by simp
    ultimately show ?thesis using Cons.IH [OF r] by blast
  qed
qed

lemma paint_ops_style: "list_all is_style_write (paint_ops c ens)"
  by (induction ens) (auto simp: paint_ops_def entry_paints_def split: option.splits)

subsection \<open>The build pass\<close>

lemma buildEntry_closed:
  "buildEntry options n i el s =
     s\<lparr>nodes := nodes s @ built_nodes options n i,
       shadowChildren := appended (shadowChildren s)
          (length (nodes s) # (if truthy (optTooltipText options) then [Suc (length (nodes s))] else [])),
       highlightEntries := highlightEntries s @ [built_entry options (length (nodes s)) el],
       trace := trace s @ built_ops options n i (length (nodes s))\<rparr>"
proof (cases "optTooltipText options")
  case None
  then show ?thesis
    by (simp add: buildEntry_def built_nodes_def built_entry_def built_ops_def appended_def
        createElement_def shadowAppendChild_def emit_def Let_def)
next
  case (Some tx)
  show ?thesis
  proof (cases "tx = []")
    case True
    with Some show ?thesis
      by (simp add: buildEntry_def built_nodes_def built_entry_def built_ops_def appended_def
          createElement_def shadowAppendChild_def emit_def Let_def)
  next
    case False
    with Some show ?thesis
      by (simp add: buildEntry_def built_nodes_def built_entry_def built_ops_def appended_def
          tooltipSuffix_def createElement_def shadowAppendChild_def setStyle_def
          setTextContent_def emit_def Let_def nth_append list_update_append)
  qed
qed

lemma length_built_nodes [simp]: "length (built_nodes options n i) = entryWidth options"
  by (simp add: built_nodes_def entryWidth_def)

lemma appended_append: "appended (appended cs a) b = appended cs (a @ b)"
  by (simp add: appended_def)

lemma appended_Nil [simp]: "appended cs [] = cs"
  by (simp add: appended_def)

lemma buildLoop_closed:
  "buildLoop options n i els s =
     s\<lparr>nodes := nodes s @ build_nodes options n i els,
       shadowChildren := appended (shadowChildren s) (build_ids options (length (nodes s)) els),
       highlightEntries := highlightEntries s @ build_entries options (length (nodes s)) els,
       trace := trace s @ build_ops options n i (length (nodes s)) els\<rparr>"
proof (induction els arbitrary: i s)
  case Nil
  show ?case by simp
next
  case (Cons el els)
  show ?case
    by (simp add: Cons.IH buildEntry_closed appended_append)
qed

lemma build_entries_targets [simp]: "map targetElement (build_entries options base els) = els"
  by (induction els arbitrary: base) (simp_all add: built_entry_def)

lemma length_build_entries [simp]: "length (build_entries options base els) = length els"
  by (induction els arbitrary: base) simp_all

lemma length_build_nodes [simp]:
  "length (build_nodes options n i els) = entryWidth options * length els"
  by (induction els arbitrary: i) simp_all

lemma build_entries_fields:
  "entry \<in> set (build_entries options base els) \<Longrightarrow>
     tooltipText entry = optTooltipText options \<and> box entry = None \<and>
     base \<le> highlightElement entry \<and>
     highlightElement entry < base + entryWidth options * length els \<and>
     (truthy (optTooltipText options) \<longleftrightarrow> tooltipElement entry \<noteq> None)"
proof (induction els arbitrary: base)
  case Nil
  then show ?case by simp
next
  case (Cons el els)
  from Cons.prems have "entry = built_entry options base el \<or>
      entry \<in> set (build_entries options (base + entryWidth options) els)" by simp
  then show ?case
  proof
    assume "entry = built_entry options base el"
    then show ?thesis by (simp add: built_entry_def entryWidth_def)
  next
    assume "entry \<in> set (build_entries options (base + entryWidth options) els)"
    from Cons.IH [OF this] show ?thesis by (auto simp: entryWidth_def)
  qed
qed

lemma build_ops_writes: "list_all is_write (build_ops options n i base els)"
  by (induction els arbitrary: i base) (simp_all add: built_ops_def)

lemma build_ops_nonempty: "els \<noteq> [] \<Longrightarrow> build_ops options n i base els \<noteq> []"
  by (cases els) (simp_all add: built_ops_def)

lemma clear_ops_writes: "list_all is_write (clear_ops ens)"
  by (simp add: clear_ops_def list_all_iff)

lemma clear_ops_nonempty: "ens \<noteq> [] \<Longrightarrow> clear_ops ens \<noteq> []"
  by (cases ens) (simp_all add: clear_ops_def owned_nodes_def)

subsection \<open>The two paths of an update\<close>

lemma highlightIsUpToDate_snd:
  "snd (highlightIsUpToDate L els t s) = emit (check_reads L els t s) s"
  by (simp add: highlightIsUpToDate_def check_reads_def split_beta)

lemma check_reads_reads: "list_all is_read (check_reads L els t s)"
  by (simp add: check_reads_def upToDateLoop_reads)

lemma check_reads_fresh:
  "set els \<inter> targetElement ` set (highlightEntries s) = {} \<Longrightarrow> check_reads L els t s = []"
  by (simp add: check_reads_def upToDateLoop_fresh)

lemma fst_measureEntry_cong:
  "glassPaneElement s = glassPaneElement s' \<Longrightarrow>
     fst (measureEntry L entry s) = fst (measureEntry L entry s')"
  by (cases "tooltipElement entry")
     (simp_all add: measureEntry_def tooltipPosition_def Let_def split_beta)

lemma measureLoop_measured:
  "fst (measureLoop L ens s) = measured L s ens"
proof (induction ens arbitrary: s)
  case Nil
  show ?case by (simp add: measured_def)
next
  case (Cons e ens)
  have "glassPaneElement (snd (measureEntry L e s)) = glassPaneElement s"
    by (simp add: measureEntry_state)
  from fst_measureEntry_cong [OF this]
  have "measured L (snd (measureEntry L e s)) ens = measured L s ens"
    by (simp add: measured_def)
  then have "measured L (snd (measureEntry L e s)) ens = measured L s ens" .
  moreover have "fst (measureLoop L (e # ens) s) =
      fst (measureEntry L e s) # fst (measureLoop L ens (snd (measureEntry L e s)))"
    by (simp add: split_beta)
  ultimately show ?case by (simp only: Cons.IH) (simp add: measured_def)
qed

lemma measured_cong:
  "glassPaneElement s = glassPaneElement s' \<Longrightarrow> measured L s ens = measured L s' ens"
  using fst_measureEntry_cong [of s s'] by (simp add: measured_def)

lemma measured_fields:
  shows "map targetElement (measured L s ens) = map targetElement ens"
    and "map highlightElement (measured L s ens) = map highlightElement ens"
    and "map tooltipElement (measured L s ens) = map tooltipElement ens"
    and "map tooltipText (measured L s ens) = map tooltipText ens"
    and "map box (measured L s ens) =
           map (\<lambda>entry. Some (boundingClientRect L (targetElement entry))) ens"
  using measureLoop_entries [of L ens s] by (simp_all add: measureLoop_measured)

lemma measure_ops_cong:
  "map targetElement ens = map targetElement ens' \<Longrightarrow>
   map tooltipElement ens = map tooltipElement ens' \<Longrightarrow> measure_ops g ens = measure_ops g ens'"
proof (induction ens arbitrary: ens')
  case Nil
  then show ?case by simp
next
  case (Cons e ens)
  then obtain e' r where "ens' = e' # r" by (cases ens') auto
  with Cons show ?case by (simp add: measure_ops_def entry_reads_def)
qed

lemma rebuiltPre_closed:
  "rebuiltPre L els options s =
     s\<lparr>nodes := nodes s @ build_nodes options (length els) 0 els,
       shadowChildren :=
         appended (without (concat (map owned_nodes (highlightEntries s))) (shadowChildren s))
           (build_ids options (length (nodes s)) els),
       documentElementChildren :=
         without (concat (map owned_nodes (highlightEntries s))) (documentElementChildren s),
       highlightEntries := measured L s (build_entries options (length (nodes s)) els),
       trace := trace s @ check_reads L els (optTooltipText options) s @
                clear_ops (highlightEntries s) @
                build_ops options (length els) 0 (length (nodes s)) els @
                measure_ops (glassPaneElement s) (build_entries options (length (nodes s)) els)\<rparr>"
proof -
  define s0 where "s0 = snd (highlightIsUpToDate L els (optTooltipText options) s)"
  define s1 where "s1 = clearHighlight s0"
  define s2 where "s2 = buildLoop options (length els) 0 els s1"
  have s0: "s0 = emit (check_reads L els (optTooltipText options) s) s"
    by (simp add: s0_def highlightIsUpToDate_snd)
  have s1: "s1 = s\<lparr>shadowChildren :=
                   without (concat (map owned_nodes (highlightEntries s))) (shadowChildren s),
                 documentElementChildren :=
                   without (concat (map owned_nodes (highlightEntries s))) (documentElementChildren s),
                 highlightEntries := [],
                 trace := trace s @ check_reads L els (optTooltipText options) s @
                          clear_ops (highlightEntries s)\<rparr>"
    by (simp add: s1_def s0 clearHighlight_closed emit_def)
  have s2: "s2 = s\<lparr>nodes := nodes s @ build_nodes options (length els) 0 els,
                 shadowChildren :=
                   appended (without (concat (map owned_nodes (highlightEntries s))) (shadowChildren s))
                     (build_ids options (length (nodes s)) els),
                 documentElementChildren :=
                   without (concat (map owned_nodes (highlightEntries s))) (documentElementChildren s),
                 highlightEntries := build_entries options (length (nodes s)) els,
                 trace := trace s @ check_reads L els (optTooltipText options) s @
                          clear_ops (highlightEntries s) @
                          build_ops options (length els) 0 (length (nodes s)) els\<rparr>"
    by (simp add: s2_def buildLoop_closed s1)
  have g: "glassPaneElement s2 = glassPaneElement s"
    by (simp add: s2)
  have m: "measured L s2 (highlightEntries s2) =
           measured L s (build_entries options (length (nodes s)) els)"
    using measured_cong [OF g] by (simp add: s2)
  have "rebuiltPre L els options s = measure_entries L s2"
    by (simp add: rebuiltPre_def s2_def s1_def s0_def)
  also have "\<dots> = (emit (measure_ops (glassPaneElement s2) (highlightEntries s2)) s2)
       \<lparr>highlightEntries := measured L s2 (highlightEntries s2)\<rparr>"
    by (simp only: measure_entries_closed measureLoop_measured)
  also have "\<dots> = (emit (measure_ops (glassPaneElement s) (build_entries options (length (nodes s)) els)) s2)
       \<lparr>highlightEntries := measured L s (build_entries options (length (nodes s)) els)\<rparr>"
    by (simp only: m g) (simp add: s2)
  finally show ?thesis
    by (simp add: s2 emit_def)
qed

lemma innerUpdate_upToDate:
  "upToDateSpec L els (optTooltipText options) (highlightEntries s) \<Longrightarrow>
     innerUpdateHighlight L els options s =
       Inr (emit (check_reads L els (optTooltipText options) s) s)"
  using highlightIsUpToDate_spec [of L els "optTooltipText options" s]
    highlightIsUpToDate_snd [of L els "optTooltipText options" s]
  by (simp add: innerUpdateHighlight_def split_beta Let_def)

lemma innerUpdate_rebuild:
  "\<not> upToDateSpec L els (optTooltipText options) (highlightEntries s) \<Longrightarrow>
     innerUpdateHighlight L els options s =
       paintLoop (resolveColor els options) (highlightEntries (rebuiltPre L els options s))
         (rebuiltPre L els options s)"
  using highlightIsUpToDate_spec [of L els "optTooltipText options" s]
  by (simp add: innerUpdateHighlight_def rebuiltPre_def split_beta Let_def)

lemma measured_boxes: "list_all (\<lambda>entry. box entry \<noteq> None) (measured L s ens)"
proof -
  have "list_all (\<lambda>b. b \<noteq> None) (map box (measured L s ens))"
    by (simp add: measured_fields list_all_iff)
  then show ?thesis by (simp add: list_all_iff)
qed

lemma rebuild_total:
  "\<exists>s'. paintLoop c (highlightEntries (rebuiltPre L els options s)) (rebuiltPre L els options s) = Inr s'"
  using measured_boxes [of L s "build_entries options (length (nodes s)) els"]
  by (intro paintLoop_total) (simp add: rebuiltPre_closed)

lemma innerUpdate_total: "\<exists>s'. innerUpdateHighlight L els options s = Inr s'"
proof (cases "upToDateSpec L els (optTooltipText options) (highlightEntries s)")
  case True
  then show ?thesis by (simp add: innerUpdate_upToDate)
next
  case False
  then show ?thesis by (simp add: innerUpdate_rebuild rebuild_total)
qed

lemma rebuild_facts:
  assumes "\<not> upToDateSpec L els (optTooltipText options) (highlightEntries s)"
    and "innerUpdateHighlight L els options s = Inr s'"
  shows "highlightEntries s' = measured L s (build_entries options (length (nodes s)) els)"
    and "trace s' = trace s @ check_reads L els (optTooltipText options) s @
                clear_ops (highlightEntries s) @
                build_ops options (length els) 0 (length (nodes s)) els @
                measure_ops (glassPaneElement s) (build_entries options (length (nodes s)) els) @
                paint_ops (resolveColor els options) (highlightEntries s')"
    and "length (nodes s') = length (nodes s) + entryWidth options * length els"
    and "map textContent (nodes s') =
           map textContent (nodes s) @ map textContent (build_nodes options (length els) 0 els)"
    and "glassPaneElement s' = glassPaneElement s \<and> actionPointElement s' = actionPointElement s \<and>
         isUnderTest s' = isUnderTest s \<and> rafRequest s' = rafRequest s \<and> language s' = language s"
    and "shadowChildren s' =
           appended (without (concat (map owned_nodes (highlightEntries s))) (shadowChildren s))
             (build_ids options (length (nodes s)) els)"
proof -
  from assms have p: "paintLoop (resolveColor els options)
      (highlightEntries (rebuiltPre L els options s)) (rebuiltPre L els options s) = Inr s'"
    by (simp add: innerUpdate_rebuild)
  note f = paintLoop_frame [OF p]
  show "highlightEntries s' = measured L s (build_entries options (length (nodes s)) els)"
    using f by (simp add: rebuiltPre_closed)
  then show "trace s' = trace s @ check_reads L els (optTooltipText options) s @
                clear_ops (highlightEntries s) @
                build_ops options (length els) 0 (length (nodes s)) els @
                measure_ops (glassPaneElement s) (build_entries options (length (nodes s)) els) @
                paint_ops (resolveColor els options) (highlightEntries s')"
    using f by (simp add: rebuiltPre_closed)
  show "length (nodes s') = length (nodes s) + entryWidth options * length els"
    using f by (simp add: rebuiltPre_closed)
  show "map textContent (nodes s') =
           map textContent (nodes s) @ map textContent (build_nodes options (length els) 0 els)"
    using f by (simp add: rebuiltPre_closed)
  show "glassPaneElement s' = glassPaneElement s \<and> actionPointElement s' = actionPointElement s \<and>
         isUnderTest s' = isUnderTest s \<and> rafRequest s' = rafRequest s \<and> language s' = language s"
    using f by (simp add: rebuiltPre_closed)
  show "shadowChildren s' =
           appended (without (concat (map owned_nodes (highlightEntries s))) (shadowChildren s))
             (build_ids options (length (nodes s)) els)"
    using f by (simp add: rebuiltPre_closed)
qed

lemma rebuild_color:
  assumes "\<not> upToDateSpec L els (optTooltipText options) (highlightEntries s)"
    and "innerUpdateHighlight L els options s = Inr s'"
    and "entry \<in> set (highlightEntries s')"
  shows "getStyle s' (highlightElement entry) StyleBackgroundColor =
           Some (Str (resolveColor els options))"
proof -
  from assms have p: "paintLoop (resolveColor els options)
      (highlightEntries (rebuiltPre L els options s)) (rebuiltPre L els options s) = Inr s'"
    by (simp add: innerUpdate_rebuild)
  from paintLoop_frame [OF p] assms(3)
  have mem: "entry \<in> set (highlightEntries (rebuiltPre L els options s))" by simp
  then have "highlightElement entry \<in>
      highlightElement ` set (measured L s (build_entries options (length (nodes s)) els))"
    by (simp add: rebuiltPre_closed)
  also have "\<dots> = set (map highlightElement (build_entries options (length (nodes s)) els))"
    using arg_cong [OF measured_fields(2) [of L s "build_entries options (length (nodes s)) els"],
        of set] by simp
  finally obtain e0 where e0: "e0 \<in> set (build_entries options (length (nodes s)) els)"
      "highlightElement entry = highlightElement e0" by auto
  from build_entries_fields [OF e0(1)] e0(2)
  have "highlightElement entry < length (nodes (rebuiltPre L els options s))"
    by (simp add: rebuiltPre_closed)
  from paintLoop_color [OF p mem this] show ?thesis .
qed

lemma upToDateLoop_all_reads:
  "length els = length ens \<Longrightarrow> fst (upToDateLoop L t els ens) \<Longrightarrow>
     snd (upToDateLoop L t els ens) = map GetBoundingClientRect els"
proof (induction els ens rule: list_induct2)
  case Nil
  show ?case by simp
next
  case (Cons el els en ens)
  from Cons.prems(1) have "fst (upToDateLoop L t els ens)"
    unfolding upToDateLoop_step by blast
  with Cons.prems Cons.IH show ?case
    by (auto simp: Let_def split_beta split: option.splits if_splits)
qed

lemma check_reads_upToDate:
  "upToDateSpec L els t (highlightEntries s) \<Longrightarrow>
     check_reads L els t s = map GetBoundingClientRect els"
proof -
  assume u: "upToDateSpec L els t (highlightEntries s)"
  then have len: "length els = length (highlightEntries s)"
    by (simp add: upToDateSpec_def)
  from u upToDateLoop_spec [OF len] have "fst (upToDateLoop L t els (highlightEntries s))"
    by simp
  from upToDateLoop_all_reads [OF len this] len show ?thesis
    by (simp add: check_reads_def)
qed

subsection \<open>Facts about the registry after an update\<close>

lemma upToDateSpec_targets:
  "upToDateSpec L els t ens \<Longrightarrow> map targetElement ens = els"
proof -
  assume "upToDateSpec L els t ens"
  then have "list_all2 (\<lambda>el entry. el = targetElement entry) els ens"
    by (simp add: upToDateSpec_def)
  then show ?thesis
    by (induction els ens rule: list_all2_induct) simp_all
qed

lemma update_targets:
  assumes "innerUpdateHighlight L els options s = Inr s'"
  shows "map targetElement (highlightEntries s') = els"
proof (cases "upToDateSpec L els (optTooltipText options) (highlightEntries s)")
  case True
  with assms have "s' = emit (check_reads L els (optTooltipText options) s) s"
    by (simp add: innerUpdate_upToDate)
  with upToDateSpec_targets [OF True] show ?thesis by simp
next
  case False
  from rebuild_facts(1) [OF False assms] show ?thesis
    by (simp add: measured_fields)
qed

lemma update_boxes:
  assumes "innerUpdateHighlight L els options s = Inr s'"
  shows "list_all (\<lambda>entry. box entry \<noteq> None) (highlightEntries s')"
proof (cases "upToDateSpec L els (optTooltipText options) (highlightEntries s)")
  case True
  with assms have "s' = emit (check_reads L els (optTooltipText options) s) s"
    by (simp add: innerUpdate_upToDate)
  with True show ?thesis by (simp add: upToDateSpec_def)
next
  case False
  from rebuild_facts(1) [OF False assms] measured_boxes show ?thesis
    by simp
qed

lemma exampleShown_eq:
  "updateHighlight exampleLayout [7, 8] exampleOptions exampleFresh = Inr exampleShown"
  using innerUpdate_total [of exampleLayout "[7, 8]" exampleOptions exampleFresh]
  by (auto simp: exampleShown_def updateHighlight_def)

lemma exampleShown_targets: "map targetElement (highlightEntries exampleShown) = [7, 8]"
  using update_targets [OF exampleShown_eq [unfolded updateHighlight_def]] .

section \<open>The registry mirrors the last update\<close>

text \<open>
  Claim C6. After every completed \<^verbatim>\<open>updateHighlight(elements, options)\<close> the registry
  has as many entries as there are elements and its \<open>i\<close>-th entry targets
  \<open>elements[i]\<close>; no entry is left whose target was not in this call. The statement
  has no case distinction: it holds on the up-to-date short-circuit and on the
  teardown-and-rebuild path alike, and the call always completes.
\<close>

theorem registry_mirrors_elements:
  "\<exists>s'. updateHighlight L els options s = Inr s' \<and>
     length (highlightEntries s') = length els \<and>
     (\<forall>i < length els. targetElement (highlightEntries s' ! i) = els ! i) \<and>
     targetElement ` set (highlightEntries s') \<subseteq> set els"
proof -
  from innerUpdate_total obtain s' where s': "innerUpdateHighlight L els options s = Inr s'"
    by blast
  note m = update_targets [OF s']
  from m have len: "length (highlightEntries s') = length els"
    using length_map [of targetElement "highlightEntries s'"] by simp
  have nth: "targetElement (highlightEntries s' ! i) = els ! i" if "i < length els" for i
    using that len nth_map [of i "highlightEntries s'" targetElement] m by simp
  have "targetElement ` set (highlightEntries s') = set els"
    using m set_map [of targetElement "highlightEntries s'"] by simp
  with s' len nth show ?thesis
    by (auto simp: updateHighlight_def)
qed

theorem registry_mirrors_elements_witness:
  "\<exists>s'. updateHighlight exampleLayout [7, 8] exampleOptions exampleShown = Inr s' \<and>
     length (highlightEntries s') = 2 \<and>
     targetElement (highlightEntries s' ! 0) = 7 \<and>
     targetElement (highlightEntries s' ! 1) = 8 \<and>
     targetElement ` set (highlightEntries s') \<subseteq> {7, 8}"
proof -
  from registry_mirrors_elements [of exampleLayout "[7, 8]" exampleOptions exampleShown]
  obtain s' where s': "updateHighlight exampleLayout [7, 8] exampleOptions exampleShown = Inr s'"
    "length (highlightEntries s') = 2"
    "\<forall>i < 2. targetElement (highlightEntries s' ! i) = [7, 8] ! i"
    "targetElement ` set (highlightEntries s') \<subseteq> {7, 8}"
    by auto
  from s'(3) have "targetElement (highlightEntries s' ! 0) = 7"
    "targetElement (highlightEntries s' ! 1) = 8" by auto
  with s' show ?thesis by blast
qed

section \<open>Clearing\<close>

text \<open>
  Claim C8. \<^verbatim>\<open>clearHighlight\<close> removes every visual-box and tooltip element the
  registry owns (one removal per owned element, after which none of them is a child of the
  shadow root) and leaves the registry empty; clearing twice is the same as clearing once;
  and on an empty registry it changes nothing. It is a total function: it cannot fail.
\<close>

theorem clearHighlight_clears:
  "highlightEntries (clearHighlight s) = [] \<and>
   trace (clearHighlight s) = trace s @ clear_ops (highlightEntries s) \<and>
   (\<forall>entry \<in> set (highlightEntries s). \<forall>n \<in> set (owned_nodes entry).
      n \<notin> set (shadowChildren (clearHighlight s))) \<and>
   clearHighlight (clearHighlight s) = clearHighlight s \<and>
   (highlightEntries s = [] \<longrightarrow> clearHighlight s = s)"
  by (auto simp: clearHighlight_closed without_def clear_ops_def)

theorem clearHighlight_clears_witness:
  "highlightEntries exampleShown \<noteq> [] \<and>
   highlightEntries (clearHighlight exampleShown) = [] \<and>
   highlightElement (hd (highlightEntries exampleShown))
     \<notin> set (shadowChildren (clearHighlight exampleShown)) \<and>
   clearHighlight (clearHighlight exampleShown) = clearHighlight exampleShown \<and>
   highlightEntries exampleFresh = [] \<and> clearHighlight exampleFresh = exampleFresh"
proof -
  have ne: "highlightEntries exampleShown \<noteq> []"
    using exampleShown_targets by auto
  then have "hd (highlightEntries exampleShown) \<in> set (highlightEntries exampleShown)"
    by simp
  moreover have "highlightElement (hd (highlightEntries exampleShown))
      \<in> set (owned_nodes (hd (highlightEntries exampleShown)))"
    by (simp add: owned_nodes_def)
  moreover have "highlightEntries exampleFresh = []"
    by (simp add: exampleFresh_def constructor_simps)
  ultimately show ?thesis
    using ne clearHighlight_clears [of exampleShown] clearHighlight_clears [of exampleFresh]
    by blast
qed

section \<open>The first box\<close>

text \<open>
  Claim C9. \<^verbatim>\<open>firstBox\<close> returns the recorded box of the first registry entry when
  the registry is non-empty and that entry has one, and nothing when the registry is empty
  or its first entry is unmeasured. After every completed update every registry entry has a
  recorded box; the update always completes, so its paint pass, which fails with
  \<^verbatim>\<open>TypeError\<close> on an absent box, never reads one.
\<close>

theorem firstBox_recorded:
  "(highlightEntries s = [] \<longrightarrow> firstBox s = None) \<and>
   (\<forall>entry rest. highlightEntries s = entry # rest \<longrightarrow> firstBox s = box entry) \<and>
   (\<exists>s'. updateHighlight L els options s = Inr s' \<and>
      list_all (\<lambda>entry. box entry \<noteq> None) (highlightEntries s') \<and>
      (els \<noteq> [] \<longrightarrow> firstBox s' \<noteq> None))"
proof -
  from innerUpdate_total obtain s' where s': "innerUpdateHighlight L els options s = Inr s'"
    by blast
  note b = update_boxes [OF s']
  have "firstBox s' \<noteq> None" if "els \<noteq> []"
  proof -
    from that update_targets [OF s'] obtain entry rest
      where e: "highlightEntries s' = entry # rest"
      by (cases "highlightEntries s'") auto
    with b show ?thesis by (simp add: firstBox_def)
  qed
  with s' b show ?thesis
    by (auto simp: firstBox_def updateHighlight_def)
qed

theorem firstBox_recorded_witness:
  "highlightEntries exampleFresh = [] \<and> firstBox exampleFresh = None \<and>
   (\<exists>entry rest. highlightEntries exampleShown = entry # rest \<and>
      firstBox exampleShown = box entry) \<and>
   (\<exists>s'. updateHighlight exampleLayout [7, 8] exampleOptions exampleFresh = Inr s' \<and>
      list_all (\<lambda>entry. box entry \<noteq> None) (highlightEntries s') \<and> firstBox s' \<noteq> None)"
proof -
  have e: "highlightEntries exampleFresh = []"
    by (simp add: exampleFresh_def constructor_simps)
  obtain entry rest where s: "highlightEntries exampleShown = entry # rest"
    using exampleShown_targets by (cases "highlightEntries exampleShown") auto
  have n: "[7, 8] \<noteq> ([] :: element list)" by simp
  from e s n firstBox_recorded [of exampleFresh exampleLayout "[7, 8]" exampleOptions]
    firstBox_recorded [of exampleShown exampleLayout "[7, 8]" exampleOptions]
  show ?thesis by blast
qed

subsection \<open>The up-to-date condition after an update\<close>

lemma upToDateSpec_iff:
  "upToDateSpec L els t ens \<longleftrightarrow>
     map targetElement ens = els \<and>
     (\<forall>entry \<in> set ens. tooltipText entry = t \<and>
        (\<exists>b. box entry = Some b \<and> sameEdges (boundingClientRect L (targetElement entry)) b))"
proof (induction ens arbitrary: els)
  case Nil
  show ?case by (auto simp: upToDateSpec_def)
next
  case (Cons e ens)
  show ?case
  proof (cases els)
    case Nil
    then show ?thesis by (auto simp: upToDateSpec_def)
  next
    case (Cons el els')
    have "upToDateSpec L (el # els') t (e # ens) \<longleftrightarrow>
        tooltipText e = t \<and> el = targetElement e \<and>
        (\<exists>b. box e = Some b \<and> sameEdges (boundingClientRect L el) b) \<and>
        upToDateSpec L els' t ens"
      by (cases "box e") (auto simp: upToDateSpec_def)
    with Cons.IH [of els'] Cons show ?thesis by auto
  qed
qed

lemma sameEdges_refl [simp]: "sameEdges b b"
  by (simp add: sameEdges_def)

lemma sameEdges_trans: "sameEdges a b \<Longrightarrow> sameEdges b c \<Longrightarrow> sameEdges a c"
  by (simp add: sameEdges_def)

lemma sameEdges_sym: "sameEdges a b \<Longrightarrow> sameEdges b a"
  by (simp add: sameEdges_def)

lemma rebuilt_upToDate:
  "upToDateSpec L els (optTooltipText options)
     (measured L s (build_entries options base els))"
proof -
  let ?ens = "measured L s (build_entries options base els)"
  have t: "map targetElement ?ens = els" by (simp add: measured_fields)
  have "tooltipText entry = optTooltipText options \<and>
        box entry = Some (boundingClientRect L (targetElement entry))"
    if "entry \<in> set ?ens" for entry
  proof -
    from that obtain e0 where e0: "e0 \<in> set (build_entries options base els)"
        "entry = fst (measureEntry L e0 s)"
      by (auto simp: measured_def)
    from measureEntry_entry [of L e0 s] build_entries_fields [OF e0(1)] e0(2)
    show ?thesis by simp
  qed
  with t show ?thesis by (auto simp: upToDateSpec_iff)
qed

lemma update_establishes:
  assumes "innerUpdateHighlight L els options s = Inr s'"
  shows "upToDateSpec L els (optTooltipText options) (highlightEntries s')"
proof (cases "upToDateSpec L els (optTooltipText options) (highlightEntries s)")
  case True
  with assms have "s' = emit (check_reads L els (optTooltipText options) s) s"
    by (simp add: innerUpdate_upToDate)
  with True show ?thesis by simp
next
  case False
  from rebuild_facts(1) [OF False assms] rebuilt_upToDate show ?thesis by simp
qed

lemma upToDateSpec_geometry:
  assumes "upToDateSpec L els t ens"
    and "\<forall>el \<in> set els. sameEdges (boundingClientRect L2 el) (boundingClientRect L el)"
  shows "upToDateSpec L2 els t ens"
proof -
  from assms(1) have m: "map targetElement ens = els" by (simp add: upToDateSpec_iff)
  have "\<exists>b. box entry = Some b \<and> sameEdges (boundingClientRect L2 (targetElement entry)) b"
    if "entry \<in> set ens" for entry
  proof -
    from that m have "targetElement entry \<in> set els" by auto
    with assms(2) have "sameEdges (boundingClientRect L2 (targetElement entry))
        (boundingClientRect L (targetElement entry))" by blast
    moreover from assms(1) that obtain b where "box entry = Some b"
        "sameEdges (boundingClientRect L (targetElement entry)) b"
      by (auto simp: upToDateSpec_iff)
    ultimately show ?thesis by (auto intro: sameEdges_trans)
  qed
  with assms(1) show ?thesis by (auto simp: upToDateSpec_iff)
qed

lemma upToDateSpec_changed:
  assumes "upToDateSpec L els t ens"
  shows "length els2 \<noteq> length els \<Longrightarrow> \<not> upToDateSpec L2 els2 t2 ens"
    and "els2 \<noteq> els \<Longrightarrow> \<not> upToDateSpec L2 els2 t2 ens"
    and "els \<noteq> [] \<Longrightarrow> t2 \<noteq> t \<Longrightarrow> \<not> upToDateSpec L2 els2 t2 ens"
    and "el \<in> set els \<Longrightarrow> \<not> sameEdges (boundingClientRect L2 el) (boundingClientRect L el)
           \<Longrightarrow> \<not> upToDateSpec L2 els2 t2 ens"
proof -
  from assms have m: "map targetElement ens = els" by (simp add: upToDateSpec_iff)
  show "length els2 \<noteq> length els \<Longrightarrow> \<not> upToDateSpec L2 els2 t2 ens"
    using m by (auto simp: upToDateSpec_iff)
  show "els2 \<noteq> els \<Longrightarrow> \<not> upToDateSpec L2 els2 t2 ens"
    using m by (auto simp: upToDateSpec_iff)
  show "els \<noteq> [] \<Longrightarrow> t2 \<noteq> t \<Longrightarrow> \<not> upToDateSpec L2 els2 t2 ens"
  proof
    assume ne: "els \<noteq> []" and d: "t2 \<noteq> t" and u: "upToDateSpec L2 els2 t2 ens"
    from ne m obtain entry where e: "entry \<in> set ens" by (cases ens) auto
    with assms have "tooltipText entry = t" by (simp add: upToDateSpec_iff)
    moreover from e u have "tooltipText entry = t2" by (simp add: upToDateSpec_iff)
    ultimately show False using d by simp
  qed
  show "el \<in> set els \<Longrightarrow> \<not> sameEdges (boundingClientRect L2 el) (boundingClientRect L el)
           \<Longrightarrow> \<not> upToDateSpec L2 els2 t2 ens"
  proof
    assume el: "el \<in> set els"
      and d: "\<not> sameEdges (boundingClientRect L2 el) (boundingClientRect L el)"
      and u: "upToDateSpec L2 els2 t2 ens"
    from el m obtain entry where e: "entry \<in> set ens" "targetElement entry = el" by auto
    from e assms obtain b where b: "box entry = Some b" "sameEdges (boundingClientRect L el) b"
      by (auto simp: upToDateSpec_iff)
    from e u obtain b' where "box entry = Some b'" "sameEdges (boundingClientRect L2 el) b'"
      by (auto simp: upToDateSpec_iff)
    with b have "sameEdges (boundingClientRect L2 el) (boundingClientRect L el)"
      by (auto intro: sameEdges_trans sameEdges_sym)
    with d show False by simp
  qed
qed

lemma writes_not_reads:
  "list_all is_write xs \<Longrightarrow> xs \<noteq> [] \<Longrightarrow> \<not> list_all is_read (a @ xs @ b)"
  by (cases xs) auto

lemma rebuild_writes:
  assumes "\<not> upToDateSpec L els t (highlightEntries s)"
  shows "\<not> list_all is_read
           (a @ clear_ops (highlightEntries s) @ build_ops options n i base els @ b)"
proof (cases "highlightEntries s = []")
  case False
  from writes_not_reads [OF clear_ops_writes clear_ops_nonempty [OF False]]
  show ?thesis by simp
next
  case True
  with assms have "els \<noteq> []" by (auto simp: upToDateSpec_def)
  from writes_not_reads [OF build_ops_writes build_ops_nonempty [OF this],
      where a = "a @ clear_ops (highlightEntries s)" and b = b]
  show ?thesis by simp
qed

lemma noMutation_emit: "list_all is_read ops \<Longrightarrow> noMutation s ops (emit ops s)"
  by (simp add: noMutation_def)

lemma exampleFresh_stale:
  "\<not> upToDateSpec exampleLayout [7, 8] (Some ''foo'') (highlightEntries exampleFresh)"
  by (simp add: upToDateSpec_def exampleFresh_def constructor_simps)

lemma exampleShown_upToDate:
  "upToDateSpec exampleLayout [7, 8] (Some ''foo'') (highlightEntries exampleShown)"
  using update_establishes [OF exampleShown_eq [unfolded updateHighlight_def]]
  by (simp add: exampleOptions_def)

section \<open>When an update changes nothing\<close>

text \<open>
  Claim C1, as stated: changing the tooltip text between two calls always triggers a full
  teardown and rebuild. The loop of \<^verbatim>\<open>_highlightIsUpToDate\<close> compares the requested
  text with the text stored in each entry, so with an empty registry and no element it
  compares nothing and answers true: an update of no element with the tooltip
  \<^verbatim>\<open>foo\<close> followed by an update of no element with the tooltip \<^verbatim>\<open>bar\<close> tears
  nothing down, builds nothing and returns the overlay as it was, the trace included.
\<close>

theorem tooltip_change_without_elements_counterexample:
  "optTooltipText exampleBar \<noteq> optTooltipText exampleOptions \<and>
   (\<exists>s1. updateHighlight exampleLayout [] exampleOptions exampleFresh = Inr s1 \<and>
      highlightEntries s1 = [] \<and>
      updateHighlight exampleLayout [] exampleBar s1 = Inr s1)"
proof -
  have u: "upToDateSpec exampleLayout [] t (highlightEntries exampleFresh)" for t
    by (simp add: upToDateSpec_def exampleFresh_def constructor_simps)
  have same: "updateHighlight exampleLayout [] options exampleFresh = Inr exampleFresh"
    for options :: HighlightOptions
    using innerUpdate_upToDate [OF u [of "optTooltipText options"]]
      check_reads_upToDate [OF u [of "optTooltipText options"]]
    by (simp add: updateHighlight_def)
  have "optTooltipText exampleBar \<noteq> optTooltipText exampleOptions"
    by (simp add: exampleBar_def exampleOptions_def)
  moreover have "highlightEntries exampleFresh = []"
    by (simp add: exampleFresh_def constructor_simps)
  ultimately show ?thesis using same by blast
qed

text \<open>
  Claim C1, amended. The check \<^verbatim>\<open>_highlightIsUpToDate\<close> computes the specification's
  condition \<open>upToDateSpec\<close> (count, tooltip text, positional identity, recorded boxes,
  equal top, right, bottom and left). An update performs no mutation and leaves the registry
  unchanged if and only if that condition holds. When it does not hold, the call tears down
  and rebuilds: after the reads of the check it removes every element the old registry owns
  and creates the elements of the new one, and the registry consists of new, measured
  entries. Consequently a second update with the same elements and options and unchanged
  edges mutates nothing, and a second call with another element count, another element at
  some position or a changed edge of an element is not up to date, hence rebuilds. So does
  a second call with another tooltip text when at least one element is shown; with no
  element before and after, a changed tooltip text changes nothing: there is nothing to
  tear down or to build, and the call leaves the state as it is.
\<close>

theorem update_noop_iff_upToDate:
  "fst (highlightIsUpToDate L els (optTooltipText options) s) =
     upToDateSpec L els (optTooltipText options) (highlightEntries s) \<and>
   (\<exists>s' ops. updateHighlight L els options s = Inr s' \<and> trace s' = trace s @ ops \<and>
      (noMutation s ops s' \<longleftrightarrow>
         upToDateSpec L els (optTooltipText options) (highlightEntries s)) \<and>
      (\<not> upToDateSpec L els (optTooltipText options) (highlightEntries s) \<longrightarrow>
         (\<exists>reads rest. list_all is_read reads \<and>
            ops = reads @ clear_ops (highlightEntries s) @
                  build_ops options (length els) 0 (length (nodes s)) els @ rest) \<and>
         highlightEntries s' = measured L s (build_entries options (length (nodes s)) els)) \<and>
      (\<forall>L2 :: layout. (\<forall>el \<in> set els. sameEdges (boundingClientRect L2 el) (boundingClientRect L el)) \<longrightarrow>
         (\<exists>s2 ops2. updateHighlight L2 els options s' = Inr s2 \<and>
            trace s2 = trace s' @ ops2 \<and> noMutation s' ops2 s2)) \<and>
      (\<forall>(L2 :: layout) els2 (options2 :: HighlightOptions).
         length els2 \<noteq> length els \<or> els2 \<noteq> els \<or>
         (els \<noteq> [] \<and> optTooltipText options2 \<noteq> optTooltipText options) \<or>
         (\<exists>el \<in> set els. \<not> sameEdges (boundingClientRect L2 el) (boundingClientRect L el))
         \<longrightarrow> \<not> upToDateSpec L2 els2 (optTooltipText options2) (highlightEntries s')) \<and>
      (els = [] \<longrightarrow>
         (\<forall>(L2 :: layout) (options2 :: HighlightOptions).
            updateHighlight L2 [] options2 s' = Inr s')))"
proof -
  let ?t = "optTooltipText options"
  from innerUpdate_total obtain s' where s': "innerUpdateHighlight L els options s = Inr s'"
    by blast
  note est = update_establishes [OF s']
  have nothing: "els = [] \<longrightarrow>
         (\<forall>(L2 :: layout) (options2 :: HighlightOptions).
            updateHighlight L2 [] options2 s' = Inr s')"
  proof (intro impI allI)
    fix L2 :: layout and options2 :: HighlightOptions
    assume "els = []"
    with update_targets [OF s'] have e: "highlightEntries s' = []" by simp
    then have u: "upToDateSpec L2 [] (optTooltipText options2) (highlightEntries s')"
      by (simp add: upToDateSpec_def)
    from innerUpdate_upToDate [OF u] check_reads_upToDate [OF u]
    show "updateHighlight L2 [] options2 s' = Inr s'"
      by (simp add: updateHighlight_def)
  qed
  have second: "\<forall>L2 :: layout. (\<forall>el \<in> set els. sameEdges (boundingClientRect L2 el) (boundingClientRect L el)) \<longrightarrow>
         (\<exists>s2 ops2. updateHighlight L2 els options s' = Inr s2 \<and>
            trace s2 = trace s' @ ops2 \<and> noMutation s' ops2 s2)"
  proof (intro allI impI)
    fix L2 :: layout
    assume "\<forall>el \<in> set els. sameEdges (boundingClientRect L2 el) (boundingClientRect L el)"
    from upToDateSpec_geometry [OF est this]
    have "updateHighlight L2 els options s' = Inr (emit (check_reads L2 els ?t s') s')"
      by (simp add: updateHighlight_def innerUpdate_upToDate)
    moreover have "noMutation s' (check_reads L2 els ?t s') (emit (check_reads L2 els ?t s') s')"
      by (rule noMutation_emit) (rule check_reads_reads)
    ultimately show "\<exists>s2 ops2. updateHighlight L2 els options s' = Inr s2 \<and>
            trace s2 = trace s' @ ops2 \<and> noMutation s' ops2 s2"
      by (intro exI [of _ "emit (check_reads L2 els ?t s') s'"]
          exI [of _ "check_reads L2 els ?t s'"]) simp
  qed
  have changed: "\<forall>(L2 :: layout) els2 (options2 :: HighlightOptions).
         length els2 \<noteq> length els \<or> els2 \<noteq> els \<or>
         (els \<noteq> [] \<and> optTooltipText options2 \<noteq> optTooltipText options) \<or>
         (\<exists>el \<in> set els. \<not> sameEdges (boundingClientRect L2 el) (boundingClientRect L el))
         \<longrightarrow> \<not> upToDateSpec L2 els2 (optTooltipText options2) (highlightEntries s')"
    using upToDateSpec_changed [OF est] by blast
  have upd: "updateHighlight L els options s = Inr s'"
    using s' by (simp add: updateHighlight_def)
  have main: "\<exists>ops. trace s' = trace s @ ops \<and>
      (noMutation s ops s' \<longleftrightarrow> upToDateSpec L els ?t (highlightEntries s)) \<and>
      (\<not> upToDateSpec L els ?t (highlightEntries s) \<longrightarrow>
         (\<exists>reads rest. list_all is_read reads \<and>
            ops = reads @ clear_ops (highlightEntries s) @
                  build_ops options (length els) 0 (length (nodes s)) els @ rest) \<and>
         highlightEntries s' = measured L s (build_entries options (length (nodes s)) els))"
  proof (cases "upToDateSpec L els ?t (highlightEntries s)")
    case True
    with s' have eq: "s' = emit (check_reads L els ?t s) s"
      by (simp add: innerUpdate_upToDate)
    have "noMutation s (check_reads L els ?t s) s'"
      unfolding eq by (rule noMutation_emit) (rule check_reads_reads)
    with True eq show ?thesis
      by (intro exI [of _ "check_reads L els ?t s"]) simp
  next
    case False
    let ?rest = "measure_ops (glassPaneElement s) (build_entries options (length (nodes s)) els) @
                paint_ops (resolveColor els options) (highlightEntries s')"
    let ?ops = "check_reads L els ?t s @ clear_ops (highlightEntries s) @
                build_ops options (length els) 0 (length (nodes s)) els @ ?rest"
    note f = rebuild_facts [OF False s']
    have tr: "trace s' = trace s @ ?ops" using f(2) by simp
    have "\<not> list_all is_read ?ops"
      by (rule rebuild_writes [OF False])
    then have nm: "\<not> noMutation s ?ops s'" unfolding noMutation_def by blast
    have shape: "\<exists>reads rest. list_all is_read reads \<and>
            ?ops = reads @ clear_ops (highlightEntries s) @
                  build_ops options (length els) 0 (length (nodes s)) els @ rest"
      using check_reads_reads by blast
    from False tr nm shape f(1) show ?thesis
      by (intro exI [of _ ?ops]) blast
  qed
  from main obtain ops where ops: "trace s' = trace s @ ops"
      "noMutation s ops s' \<longleftrightarrow> upToDateSpec L els ?t (highlightEntries s)"
      "\<not> upToDateSpec L els ?t (highlightEntries s) \<longrightarrow>
         (\<exists>reads rest. list_all is_read reads \<and>
            ops = reads @ clear_ops (highlightEntries s) @
                  build_ops options (length els) 0 (length (nodes s)) els @ rest) \<and>
         highlightEntries s' = measured L s (build_entries options (length (nodes s)) els)"
    by blast
  show ?thesis
    apply (rule conjI)
     apply (rule highlightIsUpToDate_spec)
    apply (rule exI [of _ s'])
    apply (rule exI [of _ ops])
    apply (intro conjI)
          apply (fact upd)
         apply (fact ops(1))
        apply (fact ops(2))
       apply (fact ops(3))
      apply (fact second)
     apply (fact changed)
    apply (fact nothing)
    done
qed

theorem update_noop_iff_upToDate_witness:
  "\<not> upToDateSpec exampleLayout [7, 8] (Some ''foo'') (highlightEntries exampleFresh) \<and>
   (\<exists>s' ops. updateHighlight exampleLayout [7, 8] exampleOptions exampleFresh = Inr s' \<and>
      trace s' = trace exampleFresh @ ops \<and> \<not> noMutation exampleFresh ops s' \<and>
      (\<exists>s2 ops2. updateHighlight exampleLayout [7, 8] exampleOptions s' = Inr s2 \<and>
            trace s2 = trace s' @ ops2 \<and> noMutation s' ops2 s2) \<and>
      \<not> upToDateSpec exampleLayout [7] (Some ''foo'') (highlightEntries s')) \<and>
   upToDateSpec exampleLayout [7, 8] (Some ''foo'') (highlightEntries exampleShown) \<and>
   (\<exists>s' ops. updateHighlight exampleLayout [7, 8] exampleOptions exampleShown = Inr s' \<and>
      trace s' = trace exampleShown @ ops \<and> noMutation exampleShown ops s')"
proof -
  let ?t = "optTooltipText exampleOptions"
  have o: "?t = Some ''foo''" by (simp add: exampleOptions_def)
  have stale: "\<not> upToDateSpec exampleLayout [7, 8] ?t (highlightEntries exampleFresh)"
    using exampleFresh_stale o by simp
  have shown: "upToDateSpec exampleLayout [7, 8] ?t (highlightEntries exampleShown)"
    using exampleShown_upToDate o by simp
  have g: "\<forall>el \<in> set [7, 8 :: element].
      sameEdges (boundingClientRect exampleLayout el) (boundingClientRect exampleLayout el)"
    by simp
  have l: "length [7 :: element] \<noteq> length [7, 8 :: element]" by simp
  from update_noop_iff_upToDate [of exampleLayout "[7, 8]" exampleOptions exampleFresh]
  obtain s' ops where a: "updateHighlight exampleLayout [7, 8] exampleOptions exampleFresh = Inr s'"
      "trace s' = trace exampleFresh @ ops"
      "noMutation exampleFresh ops s' \<longleftrightarrow>
         upToDateSpec exampleLayout [7, 8] ?t (highlightEntries exampleFresh)"
      "\<forall>L2 :: layout. (\<forall>el \<in> set [7, 8]. sameEdges (boundingClientRect L2 el) (boundingClientRect exampleLayout el)) \<longrightarrow>
         (\<exists>s2 ops2. updateHighlight L2 [7, 8] exampleOptions s' = Inr s2 \<and>
            trace s2 = trace s' @ ops2 \<and> noMutation s' ops2 s2)"
      "\<forall>(L2 :: layout) els2 (options2 :: HighlightOptions).
         length els2 \<noteq> length [7, 8 :: element] \<or> els2 \<noteq> [7, 8] \<or>
         ([7, 8] \<noteq> ([] :: element list) \<and> optTooltipText options2 \<noteq> ?t) \<or>
         (\<exists>el \<in> set [7, 8]. \<not> sameEdges (boundingClientRect L2 el) (boundingClientRect exampleLayout el))
         \<longrightarrow> \<not> upToDateSpec L2 els2 (optTooltipText options2) (highlightEntries s')"
    by (elim conjE exE) (rule that)
  from a(3) stale have nm: "\<not> noMutation exampleFresh ops s'" by simp
  from a(4) g have b: "\<exists>s2 ops2. updateHighlight exampleLayout [7, 8] exampleOptions s' = Inr s2 \<and>
            trace s2 = trace s' @ ops2 \<and> noMutation s' ops2 s2" by blast
  from a(5) [rule_format, of "[7]" exampleOptions exampleLayout] l o
  have c: "\<not> upToDateSpec exampleLayout [7] (Some ''foo'') (highlightEntries s')" by simp
  from update_noop_iff_upToDate [of exampleLayout "[7, 8]" exampleOptions exampleShown]
  obtain s3 ops3 where d: "updateHighlight exampleLayout [7, 8] exampleOptions exampleShown = Inr s3"
      "trace s3 = trace exampleShown @ ops3"
      "noMutation exampleShown ops3 s3 \<longleftrightarrow>
         upToDateSpec exampleLayout [7, 8] ?t (highlightEntries exampleShown)"
    by (elim conjE exE) (rule that)
  from d(3) shown have "noMutation exampleShown ops3 s3" by simp
  with exampleFresh_stale exampleShown_upToDate a(1,2) nm b c d(1,2) show ?thesis by blast
qed

section \<open>A change of colour alone\<close>

text \<open>
  Claim C10. Take two consecutive updates with the same elements and tooltip text and with
  unchanged top, right, bottom and left of every element. Whatever colour the second call
  asks for, it only reads the bounding boxes: it tears nothing down, rebuilds nothing and
  mutates nothing, so the registry, the store and every style stay as the first call left
  them. In particular, when the first call painted, the visual boxes keep the first call's
  colour.
\<close>

theorem color_change_is_noop:
  assumes "updateHighlight L els options s = Inr s1"
    and "optTooltipText options2 = optTooltipText options"
    and "\<forall>el \<in> set els. sameEdges (boundingClientRect L2 el) (boundingClientRect L el)"
  shows "\<exists>s2. updateHighlight L2 els options2 s1 = Inr s2 \<and>
           s2 = emit (map GetBoundingClientRect els) s1 \<and>
           noMutation s1 (map GetBoundingClientRect els) s2 \<and>
           (\<forall>n p. getStyle s2 n p = getStyle s1 n p) \<and>
           (\<not> upToDateSpec L els (optTooltipText options) (highlightEntries s) \<longrightarrow>
              (\<forall>entry \<in> set (highlightEntries s2).
                 getStyle s2 (highlightElement entry) StyleBackgroundColor =
                   Some (Str (resolveColor els options))))"
proof -
  let ?t = "optTooltipText options"
  from assms(1) have s1: "innerUpdateHighlight L els options s = Inr s1"
    by (simp add: updateHighlight_def)
  from upToDateSpec_geometry [OF update_establishes [OF s1] assms(3)]
  have u: "upToDateSpec L2 els (optTooltipText options2) (highlightEntries s1)"
    by (simp add: assms(2))
  let ?s2 = "emit (map GetBoundingClientRect els) s1"
  from u have "updateHighlight L2 els options2 s1 = Inr ?s2"
    by (simp add: updateHighlight_def innerUpdate_upToDate check_reads_upToDate)
  moreover have "noMutation s1 (map GetBoundingClientRect els) ?s2"
    by (rule noMutation_emit) (simp add: list_all_iff)
  moreover have "\<forall>n p. getStyle ?s2 n p = getStyle s1 n p" by simp
  moreover have "\<forall>entry \<in> set (highlightEntries ?s2).
                 getStyle ?s2 (highlightElement entry) StyleBackgroundColor =
                   Some (Str (resolveColor els options))"
    if "\<not> upToDateSpec L els ?t (highlightEntries s)"
    using rebuild_color [OF that s1] by simp
  ultimately show ?thesis by blast
qed

theorem color_change_is_noop_witness:
  "resolveColor [7, 8] exampleRed = ''red'' \<and>
   (\<exists>s2. updateHighlight exampleLayout [7, 8] exampleRed exampleShown = Inr s2 \<and>
      noMutation exampleShown (map GetBoundingClientRect [7, 8]) s2 \<and>
      highlightEntries s2 \<noteq> [] \<and>
      getStyle s2 (highlightElement (hd (highlightEntries s2))) StyleBackgroundColor =
        Some (Str ''#f6b26b7f''))"
proof -
  have t: "optTooltipText exampleRed = optTooltipText exampleOptions"
    by (simp add: exampleRed_def exampleOptions_def)
  have g: "\<forall>el \<in> set [7, 8 :: element].
      sameEdges (boundingClientRect exampleLayout el) (boundingClientRect exampleLayout el)"
    by simp
  have stale: "\<not> upToDateSpec exampleLayout [7, 8] (optTooltipText exampleOptions)
      (highlightEntries exampleFresh)"
    using exampleFresh_stale by (simp add: exampleOptions_def)
  have c: "resolveColor [7, 8] exampleOptions = ''#f6b26b7f''"
    by (simp add: resolveColor_def exampleOptions_def)
  have r: "resolveColor [7, 8] exampleRed = ''red''"
    by (simp add: resolveColor_def exampleRed_def)
  from color_change_is_noop [OF exampleShown_eq t g] stale c
  obtain s2 where s2: "updateHighlight exampleLayout [7, 8] exampleRed exampleShown = Inr s2"
      "s2 = emit (map GetBoundingClientRect [7, 8]) exampleShown"
      "noMutation exampleShown (map GetBoundingClientRect [7, 8]) s2"
      "\<forall>entry \<in> set (highlightEntries s2).
         getStyle s2 (highlightElement entry) StyleBackgroundColor = Some (Str ''#f6b26b7f'')"
    by auto
  from s2(2) exampleShown_targets have ne: "highlightEntries s2 \<noteq> []" by auto
  then have "hd (highlightEntries s2) \<in> set (highlightEntries s2)" by simp
  with s2(4) have "getStyle s2 (highlightElement (hd (highlightEntries s2))) StyleBackgroundColor =
        Some (Str ''#f6b26b7f'')" by blast
  with r s2(1,3) ne show ?thesis by blast
qed

subsection \<open>Phases of a trace\<close>

lemma phase_skips:
  assumes "list_all P a" and "\<not> P w" and "a @ rest = pre @ w # tail"
  shows "\<exists>us. rest = us @ w # tail"
proof -
  from assms(3) consider us where "a = pre @ us" "us @ rest = w # tail"
    | us where "a @ us = pre" "rest = us @ w # tail"
    by (auto simp: append_eq_append_conv2)
  then show ?thesis
  proof cases
    case 1
    show ?thesis
    proof (cases us)
      case Nil
      with 1 show ?thesis by auto
    next
      case (Cons u us')
      with 1 have "w \<in> set a" by auto
      with assms(1,2) show ?thesis by (auto simp: list_all_iff)
    qed
  next
    case 2
    then show ?thesis by blast
  qed
qed

lemma not_threePhases:
  assumes "ops = pre @ w # tail" and "r \<in> set tail"
    and "\<not> P w" and "\<not> Q w" and "\<not> R r"
  shows "\<not> threePhases P Q R ops"
proof
  assume "threePhases P Q R ops"
  then obtain a b c where abc: "ops = a @ b @ c" "list_all P a" "list_all Q b" "list_all R c"
    by (auto simp: threePhases_def)
  from abc(1) assms(1) have "a @ (b @ c) = pre @ w # tail" by simp
  from phase_skips [OF abc(2) assms(3) this] obtain us where "b @ c = us @ w # tail" by blast
  from phase_skips [OF abc(3) assms(4) this] obtain us' where "c = us' @ w # tail" by blast
  with assms(2) have "r \<in> set c" by simp
  with abc(4) assms(5) show False by (auto simp: list_all_iff)
qed

lemma no_box_reads_in_writes: "list_all is_write xs \<Longrightarrow> filter is_box_read xs = []"
proof (induction xs)
  case Nil
  show ?case by simp
next
  case (Cons x xs)
  then show ?case by (cases x) simp_all
qed

lemma style_writes_are_writes: "list_all is_style_write xs \<Longrightarrow> list_all is_write xs"
proof (induction xs)
  case Nil
  show ?case by simp
next
  case (Cons x xs)
  then show ?case by (cases x) simp_all
qed

lemma measure_ops_built:
  "filter is_box_read (measure_ops g (build_entries options base els)) =
     map GetBoundingClientRect els"
proof -
  have "map (\<lambda>entry. GetBoundingClientRect (targetElement entry)) ens =
        map GetBoundingClientRect (map targetElement ens)" for ens
    by simp
  from this [of "build_entries options base els"] show ?thesis
    by (simp only: measure_ops_box_reads build_entries_targets)
qed

lemma fresh_upToDate:
  assumes "set els \<inter> targetElement ` set ens = {}" and "upToDateSpec L els t ens"
  shows "els = [] \<and> ens = []"
proof -
  from assms(2) have m: "map targetElement ens = els" by (rule upToDateSpec_targets)
  then have "set els = targetElement ` set ens" by auto
  with assms(1) have "set els = {}" by auto
  with m show ?thesis by simp
qed

lemma fresh_update_trace:
  assumes "set els \<inter> targetElement ` set (highlightEntries s) = {}"
    and "innerUpdateHighlight L els options s = Inr s'"
  shows "trace s' = trace s @
           (clear_ops (highlightEntries s) @
            build_ops options (length els) 0 (length (nodes s)) els) @
           measure_ops (glassPaneElement s) (build_entries options (length (nodes s)) els) @
           paint_ops (resolveColor els options) (highlightEntries s')"
proof (cases "upToDateSpec L els (optTooltipText options) (highlightEntries s)")
  case True
  from fresh_upToDate [OF assms(1) True] have e: "els = []" "highlightEntries s = []" by simp_all
  from True assms(2) have "s' = emit (check_reads L els (optTooltipText options) s) s"
    by (simp add: innerUpdate_upToDate)
  with e check_reads_fresh [OF assms(1)] show ?thesis
    by (simp add: clear_ops_def measure_ops_def paint_ops_def)
next
  case False
  from rebuild_facts(2) [OF False assms(2)] check_reads_fresh [OF assms(1)]
  show ?thesis by simp
qed

lemma build_ops_plain:
  "\<not> truthy (optTooltipText options) \<Longrightarrow>
     list_all is_create_or_append (build_ops options n i base els)"
  by (induction els arbitrary: i base) (simp_all add: built_ops_def)

lemma exampleFresh_entries: "highlightEntries exampleFresh = []"
  by (simp add: exampleFresh_def constructor_simps)

lemma exampleShown_trace:
  "trace exampleShown = trace exampleFresh @
     (clear_ops (highlightEntries exampleFresh) @
      build_ops exampleOptions (length [7, 8 :: element]) 0 (length (nodes exampleFresh)) [7, 8]) @
     measure_ops (glassPaneElement exampleFresh)
       (build_entries exampleOptions (length (nodes exampleFresh)) [7, 8]) @
     paint_ops (resolveColor [7, 8] exampleOptions) (highlightEntries exampleShown)"
  by (rule fresh_update_trace [OF _ exampleShown_eq [unfolded updateHighlight_def]])
     (simp add: exampleFresh_entries)

section \<open>The phases of a rebuild\<close>

text \<open>
  Claim C3, as stated: when no target of the call is in the registry, every bounding box is
  read once and the trace consists of the element-creation and append writes, then all
  geometry reads, then all style writes. The code does not do that when a tooltip is
  requested: the build pass also writes the tooltip's text and its initial
  \<^verbatim>\<open>top\<close>, \<^verbatim>\<open>left\<close> and \<^verbatim>\<open>display\<close> styles, before anything is read. For the
  example call (elements 7 and 8, tooltip \<^verbatim>\<open>foo\<close>, fresh overlay) the emitted trace is
  in three such phases neither when the first phase is creation and append only, nor when
  it may hold any write that is not a style write.
\<close>

theorem build_pass_writes_styles_counterexample:
  "\<not> threePhases is_create_or_append is_read is_style_write
       (drop (length (trace exampleFresh)) (trace exampleShown)) \<and>
   \<not> threePhases (\<lambda>op. is_write op \<and> \<not> is_style_write op) is_read is_style_write
       (drop (length (trace exampleFresh)) (trace exampleShown))"
proof -
  let ?b = "length (nodes exampleFresh)"
  let ?ops = "drop (length (trace exampleFresh)) (trace exampleShown)"
  let ?w = "SetStyle (Suc ?b) StyleTop (Str ''0'')"
  let ?r = "GetBoundingClientRect 7"
  define pre where "pre = [CreateElement ?b ''x-pw-highlight'', AppendChild ?b,
      CreateElement (Suc ?b) ''x-pw-tooltip'', AppendChild (Suc ?b),
      SetTextContent (Suc ?b) (''foo'' @ tooltipSuffix (Suc (Suc 0)) 0)]"
  define tail where "tail = [SetStyle (Suc ?b) StyleLeft (Str ''0''),
      SetStyle (Suc ?b) StyleDisplay (Str ''flex'')] @
      build_ops exampleOptions (Suc (Suc 0)) (Suc 0) (?b + entryWidth exampleOptions) [8] @
      measure_ops (glassPaneElement exampleFresh) (build_entries exampleOptions ?b [7, 8]) @
      paint_ops (resolveColor [7, 8] exampleOptions) (highlightEntries exampleShown)"
  have ops: "?ops = pre @ ?w # tail"
    by (simp add: exampleShown_trace exampleFresh_entries clear_ops_def built_ops_def
        exampleOptions_def pre_def tail_def)
  have r: "?r \<in> set tail"
    by (simp add: tail_def measure_ops_def entry_reads_def built_entry_def)
  have "\<not> threePhases is_create_or_append is_read is_style_write ?ops"
    by (rule not_threePhases [OF ops r]) simp_all
  moreover have "\<not> threePhases (\<lambda>op. is_write op \<and> \<not> is_style_write op) is_read is_style_write ?ops"
    by (rule not_threePhases [OF ops r]) simp_all
  ultimately show ?thesis by blast
qed

text \<open>
  Claim C3, amended. When no target of the call is in the registry, the call emits a block
  of writes (the removals of the old registry, then for each target the creation and append
  of its elements and, for a tooltip, its text and initial styles), then all geometry reads,
  then style writes only; no write lies between two reads, and the bounding boxes read are
  exactly those of the targets, one each, in order. When nothing is torn down and no tooltip
  is requested, the first block consists of creations and appends only.
\<close>

theorem fresh_update_phases:
  assumes "set els \<inter> targetElement ` set (highlightEntries s) = {}"
  shows "\<exists>s' ws1 rs ws2. updateHighlight L els options s = Inr s' \<and>
     trace s' = trace s @ ws1 @ rs @ ws2 \<and>
     ws1 = clear_ops (highlightEntries s) @
           build_ops options (length els) 0 (length (nodes s)) els \<and>
     list_all is_write ws1 \<and> list_all is_read rs \<and> list_all is_style_write ws2 \<and>
     filter is_box_read (ws1 @ rs @ ws2) = map GetBoundingClientRect els \<and>
     (highlightEntries s = [] \<and> \<not> truthy (optTooltipText options)
        \<longrightarrow> list_all is_create_or_append ws1)"
proof -
  from innerUpdate_total obtain s' where s': "innerUpdateHighlight L els options s = Inr s'"
    by blast
  let ?ws1 = "clear_ops (highlightEntries s) @
              build_ops options (length els) 0 (length (nodes s)) els"
  let ?rs = "measure_ops (glassPaneElement s) (build_entries options (length (nodes s)) els)"
  let ?ws2 = "paint_ops (resolveColor els options) (highlightEntries s')"
  have tr: "trace s' = trace s @ ?ws1 @ ?rs @ ?ws2"
    using fresh_update_trace [OF assms s'] by simp
  have w1: "list_all is_write ?ws1"
    using clear_ops_writes [of "highlightEntries s"]
      build_ops_writes [of options "length els" 0 "length (nodes s)" els]
    by simp
  have w2: "list_all is_style_write ?ws2" by (rule paint_ops_style)
  have rd: "list_all is_read ?rs" by (rule measure_ops_reads)
  have "filter is_box_read (?ws1 @ ?rs @ ?ws2) = map GetBoundingClientRect els"
    using no_box_reads_in_writes [OF w1]
      no_box_reads_in_writes [OF style_writes_are_writes [OF w2]]
    by (simp add: measure_ops_built)
  moreover have "list_all is_create_or_append ?ws1"
    if "highlightEntries s = []" "\<not> truthy (optTooltipText options)"
    using that build_ops_plain [of options "length els" 0 "length (nodes s)" els]
    by (simp add: clear_ops_def)
  ultimately show ?thesis
    using s' tr w1 w2 rd
    by (intro exI [of _ s'] exI [of _ ?ws1] exI [of _ ?rs] exI [of _ ?ws2])
       (simp add: updateHighlight_def)
qed

theorem fresh_update_phases_witness:
  "set [7, 8] \<inter> targetElement ` set (highlightEntries exampleFresh) = {} \<and>
   (\<exists>s' ws1 rs ws2. updateHighlight exampleLayout [7, 8] exampleOptions exampleFresh = Inr s' \<and>
     trace s' = trace exampleFresh @ ws1 @ rs @ ws2 \<and>
     list_all is_write ws1 \<and> list_all is_read rs \<and> list_all is_style_write ws2 \<and>
     filter is_box_read (ws1 @ rs @ ws2) = [GetBoundingClientRect 7, GetBoundingClientRect 8])"
proof -
  have f: "set [7, 8] \<inter> targetElement ` set (highlightEntries exampleFresh) = {}"
    by (simp add: exampleFresh_entries)
  from fresh_update_phases [OF f, of exampleLayout exampleOptions]
  obtain s' ws1 rs ws2 where
      "updateHighlight exampleLayout [7, 8] exampleOptions exampleFresh = Inr s'"
      "trace s' = trace exampleFresh @ ws1 @ rs @ ws2"
      "list_all is_write ws1" "list_all is_read rs" "list_all is_style_write ws2"
      "filter is_box_read (ws1 @ rs @ ws2) = map GetBoundingClientRect [7, 8]"
    by blast
  moreover have "map GetBoundingClientRect [7, 8] = [GetBoundingClientRect 7, GetBoundingClientRect 8]"
    by simp
  ultimately show ?thesis using f by metis
qed

subsection \<open>Background colours written by an update\<close>

lemma reads_paint_nothing: "list_all is_read xs \<Longrightarrow> list_all (paints_with c) xs"
proof (induction xs)
  case Nil
  show ?case by simp
next
  case (Cons x xs)
  then show ?case by (cases x) simp_all
qed

lemma clear_ops_paint_nothing: "list_all (paints_with c) (clear_ops ens)"
  by (simp add: clear_ops_def list_all_iff)

lemma build_ops_paint_nothing: "list_all (paints_with c) (build_ops options n i base els)"
  by (induction els arbitrary: i base) (simp_all add: built_ops_def)

lemma paint_ops_paint: "list_all (paints_with c) (paint_ops c ens)"
  by (induction ens) (auto simp: paint_ops_def entry_paints_def split: option.splits)

lemma update_paints:
  assumes "innerUpdateHighlight L els options s = Inr s'"
  shows "\<exists>ops. trace s' = trace s @ ops \<and> list_all (paints_with (resolveColor els options)) ops"
proof (cases "upToDateSpec L els (optTooltipText options) (highlightEntries s)")
  case True
  with assms have "s' = emit (check_reads L els (optTooltipText options) s) s"
    by (simp add: innerUpdate_upToDate)
  with reads_paint_nothing [OF check_reads_reads] show ?thesis by simp
next
  case False
  let ?c = "resolveColor els options"
  let ?ops = "check_reads L els (optTooltipText options) s @
                clear_ops (highlightEntries s) @
                build_ops options (length els) 0 (length (nodes s)) els @
                measure_ops (glassPaneElement s) (build_entries options (length (nodes s)) els) @
                paint_ops ?c (highlightEntries s')"
  have "list_all (paints_with ?c) ?ops"
    using reads_paint_nothing [OF check_reads_reads, of ?c L els "optTooltipText options" s]
      reads_paint_nothing [OF measure_ops_reads, of ?c "glassPaneElement s"
        "build_entries options (length (nodes s)) els"]
      clear_ops_paint_nothing [of ?c "highlightEntries s"]
      build_ops_paint_nothing [of ?c options "length els" 0 "length (nodes s)" els]
      paint_ops_paint [of ?c "highlightEntries s'"]
    by simp
  with rebuild_facts(2) [OF False assms] show ?thesis by blast
qed

lemma upToDate_second_call:
  assumes "innerUpdateHighlight L els options s = Inr s1"
    and "optTooltipText options2 = optTooltipText options"
    and "\<forall>el \<in> set els. sameEdges (boundingClientRect L2 el) (boundingClientRect L el)"
  shows "innerUpdateHighlight L2 els options2 s1 =
           Inr (emit (map GetBoundingClientRect els) s1)"
proof -
  from upToDateSpec_geometry [OF update_establishes [OF assms(1)] assms(3)]
  have u: "upToDateSpec L2 els (optTooltipText options2) (highlightEntries s1)"
    by (simp add: assms(2))
  from innerUpdate_upToDate [OF u] check_reads_upToDate [OF u]
  show ?thesis by simp
qed

section \<open>The colour of the visual boxes\<close>

text \<open>
  Claim C5, as stated: every update paints \<^verbatim>\<open>options.color\<close> on every visual box
  whenever that option is supplied, and \<^verbatim>\<open>maskElements\<close> paints the supplied colour or
  \<^verbatim>\<open>#F0F\<close>. Two things stand against it. The code tests the colour for truthiness
  (\<^verbatim>\<open>if (!color)\<close>, \<^verbatim>\<open>color ? color : '#F0F'\<close>), so a supplied empty string counts as
  absent: updating element 7 with colour \<^verbatim>\<open>''\<close> paints \<^verbatim>\<open>#6fa8dc7f\<close>, and masking
  it with colour \<^verbatim>\<open>''\<close> paints \<^verbatim>\<open>#F0F\<close>. And a call that is already up to date
  returns before the paint pass, the only place where the colour is written: after
  elements 7 and 8 were shown with the default colour, an update of the same elements that
  asks for \<^verbatim>\<open>red\<close> leaves every box \<^verbatim>\<open>#f6b26b7f\<close>, and after element 7 was shown
  without a tooltip, \<^verbatim>\<open>maskElements\<close> of element 7 leaves its box \<^verbatim>\<open>#6fa8dc7f\<close>
  instead of \<^verbatim>\<open>#F0F\<close>.
\<close>

theorem color_not_painted_counterexample:
  "optColor exampleEmptyColor = Some [] \<and>
   (\<exists>s'. updateHighlight exampleLayout [7] exampleEmptyColor exampleFresh = Inr s' \<and>
      highlightEntries s' \<noteq> [] \<and>
      list_all (\<lambda>entry. getStyle s' (highlightElement entry) StyleBackgroundColor =
                  Some (Str ''#6fa8dc7f'')) (highlightEntries s')) \<and>
   (\<exists>s'. maskElements exampleLayout [7] (Some []) exampleFresh = Inr s' \<and>
      highlightEntries s' \<noteq> [] \<and>
      list_all (\<lambda>entry. getStyle s' (highlightElement entry) StyleBackgroundColor =
                  Some (Str ''#F0F'')) (highlightEntries s')) \<and>
   optColor exampleRed = Some ''red'' \<and>
   (\<exists>s'. updateHighlight exampleLayout [7, 8] exampleRed exampleShown = Inr s' \<and>
      highlightEntries s' \<noteq> [] \<and>
      list_all (\<lambda>entry. getStyle s' (highlightElement entry) StyleBackgroundColor =
                  Some (Str ''#f6b26b7f'')) (highlightEntries s')) \<and>
   (\<exists>s1 s'. updateHighlight exampleLayout [7] \<lparr>optTooltipText = None, optColor = None\<rparr>
               exampleFresh = Inr s1 \<and>
      maskElements exampleLayout [7] None s1 = Inr s' \<and>
      highlightEntries s' \<noteq> [] \<and>
      list_all (\<lambda>entry. getStyle s' (highlightElement entry) StyleBackgroundColor =
                  Some (Str ''#6fa8dc7f'')) (highlightEntries s'))"
proof -
  let ?none = "\<lparr>optTooltipText = None, optColor = None\<rparr>"
  let ?mask = "\<lparr>optTooltipText = None, optColor = Some ''#F0F''\<rparr>"
  have stale: "\<not> upToDateSpec exampleLayout [7] t (highlightEntries exampleFresh)" for t
    by (simp add: upToDateSpec_def exampleFresh_entries)
  from innerUpdate_total obtain s1
    where s1: "innerUpdateHighlight exampleLayout [7] exampleEmptyColor exampleFresh = Inr s1"
    by blast
  from innerUpdate_total obtain s2
    where s2: "innerUpdateHighlight exampleLayout [7] ?mask exampleFresh = Inr s2"
    by blast
  from innerUpdate_total obtain s3
    where s3: "innerUpdateHighlight exampleLayout [7] ?none exampleFresh = Inr s3"
    by blast
  have c1: "resolveColor [7] exampleEmptyColor = ''#6fa8dc7f''"
    by (simp add: resolveColor_def exampleEmptyColor_def)
  have c2: "resolveColor [7] ?mask = ''#F0F''"
    by (simp add: resolveColor_def)
  have c3: "resolveColor [7] ?none = ''#6fa8dc7f''"
    by (simp add: resolveColor_def)
  have c4: "resolveColor [7, 8] exampleOptions = ''#f6b26b7f''"
    by (simp add: resolveColor_def exampleOptions_def)
  have n1: "highlightEntries s1 \<noteq> []" using update_targets [OF s1] by auto
  have n2: "highlightEntries s2 \<noteq> []" using update_targets [OF s2] by auto
  have n3: "highlightEntries s3 \<noteq> []" using update_targets [OF s3] by auto
  have p1: "list_all (\<lambda>entry. getStyle s1 (highlightElement entry) StyleBackgroundColor =
                  Some (Str ''#6fa8dc7f'')) (highlightEntries s1)"
    using rebuild_color [OF stale s1] c1 by (simp add: list_all_iff)
  have p2: "list_all (\<lambda>entry. getStyle s2 (highlightElement entry) StyleBackgroundColor =
                  Some (Str ''#F0F'')) (highlightEntries s2)"
    using rebuild_color [OF stale s2] c2 by (simp add: list_all_iff)
  have m: "maskElements exampleLayout [7] (Some []) exampleFresh = Inr s2"
    using s2 by (simp add: maskElements_def)
  have empty: "optColor exampleEmptyColor = Some []" by (simp add: exampleEmptyColor_def)
  have a: "\<exists>s'. updateHighlight exampleLayout [7] exampleEmptyColor exampleFresh = Inr s' \<and>
      highlightEntries s' \<noteq> [] \<and>
      list_all (\<lambda>entry. getStyle s' (highlightElement entry) StyleBackgroundColor =
                  Some (Str ''#6fa8dc7f'')) (highlightEntries s')"
    using s1 n1 p1 by (auto simp: updateHighlight_def)
  have b: "\<exists>s'. maskElements exampleLayout [7] (Some []) exampleFresh = Inr s' \<and>
      highlightEntries s' \<noteq> [] \<and>
      list_all (\<lambda>entry. getStyle s' (highlightElement entry) StyleBackgroundColor =
                  Some (Str ''#F0F'')) (highlightEntries s')"
    using m n2 p2 by auto
  have red: "optColor exampleRed = Some ''red''" by (simp add: exampleRed_def)
  have shown: "innerUpdateHighlight exampleLayout [7, 8] exampleOptions exampleFresh =
      Inr exampleShown"
    using exampleShown_eq by (simp add: updateHighlight_def)
  have stale2: "\<not> upToDateSpec exampleLayout [7, 8] (optTooltipText exampleOptions)
      (highlightEntries exampleFresh)"
    using exampleFresh_stale by (simp add: exampleOptions_def)
  have t: "optTooltipText exampleRed = optTooltipText exampleOptions"
    by (simp add: exampleRed_def exampleOptions_def)
  let ?s4 = "emit (map GetBoundingClientRect [7, 8]) exampleShown"
  have u4: "updateHighlight exampleLayout [7, 8] exampleRed exampleShown = Inr ?s4"
    using upToDate_second_call [OF shown t, of exampleLayout]
    by (simp add: updateHighlight_def)
  have n4: "highlightEntries ?s4 \<noteq> []" using exampleShown_targets by auto
  have p4: "list_all (\<lambda>entry. getStyle ?s4 (highlightElement entry) StyleBackgroundColor =
                  Some (Str ''#f6b26b7f'')) (highlightEntries ?s4)"
    using rebuild_color [OF stale2 shown] c4 by (simp add: list_all_iff)
  have c: "\<exists>s'. updateHighlight exampleLayout [7, 8] exampleRed exampleShown = Inr s' \<and>
      highlightEntries s' \<noteq> [] \<and>
      list_all (\<lambda>entry. getStyle s' (highlightElement entry) StyleBackgroundColor =
                  Some (Str ''#f6b26b7f'')) (highlightEntries s')"
    using u4 n4 p4 by blast
  let ?s5 = "emit (map GetBoundingClientRect [7]) s3"
  have t5: "optTooltipText ?mask = optTooltipText ?none" by simp
  have u5: "maskElements exampleLayout [7] None s3 = Inr ?s5"
    using upToDate_second_call [OF s3 t5, of exampleLayout]
    by (simp add: maskElements_def)
  have n5: "highlightEntries ?s5 \<noteq> []" using n3 by simp
  have p5: "list_all (\<lambda>entry. getStyle ?s5 (highlightElement entry) StyleBackgroundColor =
                  Some (Str ''#6fa8dc7f'')) (highlightEntries ?s5)"
    using rebuild_color [OF stale s3] c3 by (simp add: list_all_iff)
  have d: "\<exists>s1 s'. updateHighlight exampleLayout [7] ?none exampleFresh = Inr s1 \<and>
      maskElements exampleLayout [7] None s1 = Inr s' \<and>
      highlightEntries s' \<noteq> [] \<and>
      list_all (\<lambda>entry. getStyle s' (highlightElement entry) StyleBackgroundColor =
                  Some (Str ''#6fa8dc7f'')) (highlightEntries s')"
    using s3 u5 n5 p5 unfolding updateHighlight_def by blast
  from empty a b red c d show ?thesis by blast
qed

text \<open>
  Claim C5, amended. The colour of an update is \<^verbatim>\<open>options.color\<close> when that option is
  supplied and not empty; otherwise it is \<^verbatim>\<open>#f6b26b7f\<close> for more than one element and
  \<^verbatim>\<open>#6fa8dc7f\<close> for zero or one. Every background colour a call writes is that colour.
  A call that is not up to date (in the sense of C1) paints it on every visual box of the
  registry. A call that is up to date only reads the bounding boxes: it paints nothing, and
  every style, hence the colour of every visual box, stays as it was, whatever colour the
  call asks for. \<^verbatim>\<open>maskElements(elements, color)\<close> is the update with no tooltip text
  and with the supplied colour when it is not empty, with \<^verbatim>\<open>#F0F\<close> when it is unspecified
  or empty, whatever the element count; so it paints under the same condition.
\<close>

theorem painted_color:
  "(\<forall>c. optColor options = Some c \<and> c \<noteq> [] \<longrightarrow> resolveColor els options = c) \<and>
   (optColor options = None \<or> optColor options = Some [] \<longrightarrow>
      resolveColor els options = (if length els > 1 then ''#f6b26b7f'' else ''#6fa8dc7f'')) \<and>
   (\<exists>s' ops. updateHighlight L els options s = Inr s' \<and> trace s' = trace s @ ops \<and>
      list_all (paints_with (resolveColor els options)) ops \<and>
      (\<not> upToDateSpec L els (optTooltipText options) (highlightEntries s) \<longrightarrow>
         (\<forall>entry \<in> set (highlightEntries s').
            getStyle s' (highlightElement entry) StyleBackgroundColor =
              Some (Str (resolveColor els options)))) \<and>
      (upToDateSpec L els (optTooltipText options) (highlightEntries s) \<longrightarrow>
         ops = map GetBoundingClientRect els \<and> noMutation s ops s' \<and>
         (\<forall>n p. getStyle s' n p = getStyle s n p))) \<and>
   (\<forall>c. color = Some c \<and> c \<noteq> [] \<longrightarrow>
      maskElements L els color s =
        updateHighlight L els \<lparr>optTooltipText = None, optColor = Some c\<rparr> s \<and>
      resolveColor els \<lparr>optTooltipText = None, optColor = Some c\<rparr> = c) \<and>
   (color = None \<or> color = Some [] \<longrightarrow>
      maskElements L els color s =
        updateHighlight L els \<lparr>optTooltipText = None, optColor = Some ''#F0F''\<rparr> s \<and>
      resolveColor els \<lparr>optTooltipText = None, optColor = Some ''#F0F''\<rparr> = ''#F0F'')"
proof -
  let ?t = "optTooltipText options"
  from innerUpdate_total obtain s' where s': "innerUpdateHighlight L els options s = Inr s'"
    by blast
  from update_paints [OF s'] obtain ops where ops: "trace s' = trace s @ ops"
      "list_all (paints_with (resolveColor els options)) ops" by blast
  have col: "\<forall>entry \<in> set (highlightEntries s').
            getStyle s' (highlightElement entry) StyleBackgroundColor =
              Some (Str (resolveColor els options))"
    if "\<not> upToDateSpec L els ?t (highlightEntries s)"
    using rebuild_color [OF that s'] by blast
  have keep: "ops = map GetBoundingClientRect els \<and> noMutation s ops s' \<and>
         (\<forall>n p. getStyle s' n p = getStyle s n p)"
    if u: "upToDateSpec L els ?t (highlightEntries s)"
  proof -
    from s' innerUpdate_upToDate [OF u] check_reads_upToDate [OF u]
    have eq: "s' = emit (map GetBoundingClientRect els) s" by simp
    with ops(1) have o: "ops = map GetBoundingClientRect els" by (simp add: emit_def)
    have "noMutation s (map GetBoundingClientRect els) (emit (map GetBoundingClientRect els) s)"
      by (rule noMutation_emit) (simp add: list_all_iff)
    with eq o show ?thesis by simp
  qed
  have upd: "\<exists>s' ops. updateHighlight L els options s = Inr s' \<and> trace s' = trace s @ ops \<and>
      list_all (paints_with (resolveColor els options)) ops \<and>
      (\<not> upToDateSpec L els ?t (highlightEntries s) \<longrightarrow>
         (\<forall>entry \<in> set (highlightEntries s').
            getStyle s' (highlightElement entry) StyleBackgroundColor =
              Some (Str (resolveColor els options)))) \<and>
      (upToDateSpec L els ?t (highlightEntries s) \<longrightarrow>
         ops = map GetBoundingClientRect els \<and> noMutation s ops s' \<and>
         (\<forall>n p. getStyle s' n p = getStyle s n p))"
    unfolding updateHighlight_def using s' ops col keep by blast
  have r1: "\<forall>c. optColor options = Some c \<and> c \<noteq> [] \<longrightarrow> resolveColor els options = c"
    by (simp add: resolveColor_def)
  have r2: "optColor options = None \<or> optColor options = Some [] \<longrightarrow>
      resolveColor els options = (if length els > 1 then ''#f6b26b7f'' else ''#6fa8dc7f'')"
    by (auto simp: resolveColor_def)
  have m1: "\<forall>c. color = Some c \<and> c \<noteq> [] \<longrightarrow>
      maskElements L els color s =
        updateHighlight L els \<lparr>optTooltipText = None, optColor = Some c\<rparr> s \<and>
      resolveColor els \<lparr>optTooltipText = None, optColor = Some c\<rparr> = c"
    by (simp add: maskElements_def updateHighlight_def resolveColor_def)
  have m2: "color = None \<or> color = Some [] \<longrightarrow>
      maskElements L els color s =
        updateHighlight L els \<lparr>optTooltipText = None, optColor = Some ''#F0F''\<rparr> s \<and>
      resolveColor els \<lparr>optTooltipText = None, optColor = Some ''#F0F''\<rparr> = ''#F0F''"
    by (auto simp: maskElements_def updateHighlight_def resolveColor_def)
  from r1 r2 upd m1 m2 show ?thesis by blast
qed

theorem painted_color_witness:
  "resolveColor [7] \<lparr>optTooltipText = None, optColor = None\<rparr> = ''#6fa8dc7f'' \<and>
   resolveColor [7, 8] \<lparr>optTooltipText = None, optColor = None\<rparr> = ''#f6b26b7f'' \<and>
   resolveColor [7, 8] exampleRed = ''red'' \<and>
   maskElements exampleLayout [7] None exampleFresh =
     updateHighlight exampleLayout [7] \<lparr>optTooltipText = None, optColor = Some ''#F0F''\<rparr> exampleFresh \<and>
   maskElements exampleLayout [7] (Some ''red'') exampleFresh =
     updateHighlight exampleLayout [7] \<lparr>optTooltipText = None, optColor = Some ''red''\<rparr> exampleFresh \<and>
   \<not> upToDateSpec exampleLayout [7, 8] (optTooltipText exampleRed) (highlightEntries exampleFresh) \<and>
   (\<exists>s'. updateHighlight exampleLayout [7, 8] exampleRed exampleFresh = Inr s' \<and>
      highlightEntries s' \<noteq> [] \<and>
      list_all (\<lambda>entry. getStyle s' (highlightElement entry) StyleBackgroundColor =
                  Some (Str ''red'')) (highlightEntries s')) \<and>
   upToDateSpec exampleLayout [7, 8] (optTooltipText exampleRed) (highlightEntries exampleShown) \<and>
   (\<exists>s'. updateHighlight exampleLayout [7, 8] exampleRed exampleShown = Inr s' \<and>
      trace s' = trace exampleShown @ map GetBoundingClientRect [7, 8] \<and>
      (\<forall>n p. getStyle s' n p = getStyle exampleShown n p))"
proof -
  let ?none = "\<lparr>optTooltipText = None, optColor = None\<rparr>"
  have a: "optColor ?none = None \<or> optColor ?none = Some []" by simp
  have b: "optColor exampleRed = Some ''red'' \<and> ''red'' \<noteq> ([] :: string)"
    by (simp add: exampleRed_def)
  have c: "(None :: string option) = None \<or> (None :: string option) = Some []" by simp
  have d: "Some ''red'' = Some ''red'' \<and> ''red'' \<noteq> ([] :: string)" by simp
  have stale: "\<not> upToDateSpec exampleLayout [7, 8] (optTooltipText exampleRed)
      (highlightEntries exampleFresh)"
    by (simp add: upToDateSpec_def exampleFresh_entries)
  have shown: "upToDateSpec exampleLayout [7, 8] (optTooltipText exampleRed)
      (highlightEntries exampleShown)"
    using exampleShown_upToDate by (simp add: exampleRed_def)
  note T1 = painted_color [of ?none "[7]" exampleLayout exampleFresh None]
  note T2 = painted_color [of ?none "[7, 8]" exampleLayout exampleFresh "Some ''red''"]
  note T3 = painted_color [of exampleRed "[7, 8]" exampleLayout exampleFresh None]
  note T4 = painted_color [of exampleRed "[7, 8]" exampleLayout exampleShown None]
  from T1 a have r1: "resolveColor [7] ?none = ''#6fa8dc7f''" by simp
  from T2 a have r2: "resolveColor [7, 8] ?none = ''#f6b26b7f''" by simp
  from T3 b have r3: "resolveColor [7, 8] exampleRed = ''red''" by blast
  from T1 c have m1: "maskElements exampleLayout [7] None exampleFresh =
     updateHighlight exampleLayout [7] \<lparr>optTooltipText = None, optColor = Some ''#F0F''\<rparr> exampleFresh"
    by blast
  from painted_color [of ?none "[7]" exampleLayout exampleFresh "Some ''red''"] d
  have m2: "maskElements exampleLayout [7] (Some ''red'') exampleFresh =
     updateHighlight exampleLayout [7] \<lparr>optTooltipText = None, optColor = Some ''red''\<rparr> exampleFresh"
    by blast
  from T3 stale r3 obtain s' where s': "updateHighlight exampleLayout [7, 8] exampleRed exampleFresh = Inr s'"
      "\<forall>entry \<in> set (highlightEntries s').
            getStyle s' (highlightElement entry) StyleBackgroundColor = Some (Str ''red'')"
    by auto
  from update_targets [OF s'(1) [unfolded updateHighlight_def]]
  have "highlightEntries s' \<noteq> []" by auto
  with s' have p: "\<exists>s'. updateHighlight exampleLayout [7, 8] exampleRed exampleFresh = Inr s' \<and>
      highlightEntries s' \<noteq> [] \<and>
      list_all (\<lambda>entry. getStyle s' (highlightElement entry) StyleBackgroundColor =
                  Some (Str ''red'')) (highlightEntries s')"
    by (auto simp: list_all_iff)
  from T4 shown obtain s4 ops4
    where s4: "updateHighlight exampleLayout [7, 8] exampleRed exampleShown = Inr s4"
      "trace s4 = trace exampleShown @ ops4" "ops4 = map GetBoundingClientRect [7, 8]"
      "\<forall>n p. getStyle s4 n p = getStyle exampleShown n p"
    by (elim conjE exE) blast
  from s4 have k: "\<exists>s'. updateHighlight exampleLayout [7, 8] exampleRed exampleShown = Inr s' \<and>
      trace s' = trace exampleShown @ map GetBoundingClientRect [7, 8] \<and>
      (\<forall>n p. getStyle s' n p = getStyle exampleShown n p)"
    by blast
  from r1 r2 r3 m1 m2 stale p shown k show ?thesis by blast
qed

subsection \<open>Rendered tooltips\<close>

lemma renderedFrom_built:
  "renderedFrom (pre @ map textContent (build_nodes options n i els)) n i
     (build_entries options (length pre) els)"
proof (induction els arbitrary: pre i)
  case Nil
  show ?case by simp
next
  case (Cons el els)
  let ?pre' = "pre @ map textContent (built_nodes options n i)"
  have len: "length ?pre' = length pre + entryWidth options" by simp
  from Cons.IH [of ?pre' "Suc i"]
  have tl: "renderedFrom (pre @ map textContent (build_nodes options n i (el # els))) n (Suc i)
      (build_entries options (length pre + entryWidth options) els)"
    by (simp only: len build_nodes.simps map_append append_assoc)
  have hd: "rendered (pre @ map textContent (build_nodes options n i (el # els))) n i
      (built_entry options (length pre) el) t"
    if "optTooltipText options = Some t" "t \<noteq> []" for t
    using that by (simp add: rendered_def built_entry_def built_nodes_def nth_append)
  from hd tl show ?case
    by (cases "optTooltipText options") (simp_all add: built_entry_def)
qed

lemma rendered_cong:
  "tooltipElement e' = tooltipElement e \<Longrightarrow> rendered texts n j e' t = rendered texts n j e t"
  by (simp add: rendered_def)

lemma renderedFrom_cong:
  "map tooltipText ens' = map tooltipText ens \<Longrightarrow>
   map tooltipElement ens' = map tooltipElement ens \<Longrightarrow>
   renderedFrom texts n j ens \<Longrightarrow> renderedFrom texts n j ens'"
proof (induction ens arbitrary: ens' j)
  case Nil
  then show ?case by simp
next
  case (Cons e ens)
  from Cons.prems(1) obtain e' r where ens': "ens' = e' # r" by (cases ens') auto
  with Cons.prems have eq: "tooltipText e' = tooltipText e" "tooltipElement e' = tooltipElement e"
      "map tooltipText r = map tooltipText ens" "map tooltipElement r = map tooltipElement ens"
    by simp_all
  from Cons.prems(3) have tl: "renderedFrom texts n (Suc j) ens"
    and hd: "case tooltipText e of None \<Rightarrow> True
       | Some t \<Rightarrow> t \<noteq> [] \<longrightarrow> rendered texts n j e t"
    by simp_all
  from Cons.IH [OF eq(3,4) tl] have "renderedFrom texts n (Suc j) r" .
  moreover from hd have "case tooltipText e' of None \<Rightarrow> True
       | Some t \<Rightarrow> t \<noteq> [] \<longrightarrow> rendered texts n j e' t"
    by (simp only: eq(1) rendered_cong [OF eq(2)])
  ultimately show ?case by (simp only: ens' renderedFrom.simps)
qed

lemma renderedFrom_nth:
  "renderedFrom texts n j ens \<Longrightarrow> i < length ens \<Longrightarrow> tooltipText (ens ! i) = Some t \<Longrightarrow>
     t \<noteq> [] \<Longrightarrow> rendered texts n (j + i) (ens ! i) t"
proof (induction ens arbitrary: i j)
  case Nil
  then show ?case by simp
next
  case (Cons e ens)
  show ?case
  proof (cases i)
    case 0
    with Cons.prems show ?thesis by simp
  next
    case (Suc k)
    with Cons.prems Cons.IH [of "Suc j" k] show ?thesis by simp
  qed
qed

lemma tooltipsRendered_emit [simp]: "tooltipsRendered (emit ops s) = tooltipsRendered s"
  by (simp add: tooltipsRendered_def)

lemma tooltipsRendered_rebuilt:
  assumes "\<not> upToDateSpec L els (optTooltipText options) (highlightEntries s)"
    and "innerUpdateHighlight L els options s = Inr s'"
  shows "tooltipsRendered s'"
proof -
  note f = rebuild_facts [OF assms]
  let ?built = "build_entries options (length (nodes s)) els"
  have "renderedFrom (map textContent (nodes s) @
      map textContent (build_nodes options (length els) 0 els)) (length els) 0 ?built"
    using renderedFrom_built [of "map textContent (nodes s)" options "length els" 0 els]
    by simp
  then have "renderedFrom (map textContent (nodes s')) (length els) 0 (highlightEntries s')"
    unfolding f(4) f(1)
    by (rule renderedFrom_cong [rotated 2]) (simp_all add: measured_fields)
  moreover have "length (highlightEntries s') = length els"
    using arg_cong [OF update_targets [OF assms(2)], of length] by simp
  ultimately show ?thesis by (simp add: tooltipsRendered_def)
qed

lemma tooltipsRendered_update:
  assumes "tooltipsRendered s" and "innerUpdateHighlight L els options s = Inr s'"
  shows "tooltipsRendered s'"
proof (cases "upToDateSpec L els (optTooltipText options) (highlightEntries s)")
  case True
  with assms(2) have "s' = emit (check_reads L els (optTooltipText options) s) s"
    by (simp add: innerUpdate_upToDate)
  with assms(1) show ?thesis by simp
next
  case False
  from tooltipsRendered_rebuilt [OF False assms(2)] show ?thesis .
qed

lemma tooltipsRendered_mask:
  "tooltipsRendered s \<Longrightarrow> maskElements L els color s = Inr s' \<Longrightarrow> tooltipsRendered s'"
  unfolding maskElements_def by (rule tooltipsRendered_update)

lemma tooltipsRendered_install: "tooltipsRendered (install s) = tooltipsRendered s"
  by (simp add: tooltipsRendered_def install_def)

lemma tooltipsRendered_setLanguage: "tooltipsRendered (setLanguage lang s) = tooltipsRendered s"
  by (simp add: tooltipsRendered_def setLanguage_def)

lemma tooltipsRendered_clear: "tooltipsRendered (clearHighlight s)"
  by (simp add: tooltipsRendered_def clearHighlight_closed)

lemma tooltipsRendered_constructor: "tooltipsRendered (constructor u css)"
  by (simp add: tooltipsRendered_def constructor_simps)

lemma exampleFresh_rendered: "tooltipsRendered exampleFresh"
  by (simp add: exampleFresh_def tooltipsRendered_constructor)

section \<open>The multiplicity suffix\<close>

text \<open>
  Claim C4, as stated: whatever tooltip text \<open>t\<close> the options carry, with \<open>N > 1\<close>
  elements the \<open>i\<close>-th entry renders \<open>t\<close> followed by \<^verbatim>\<open> [i of N]\<close>. The code
  creates a tooltip only for a truthy text (\<^verbatim>\<open>if (options.tooltipText)\<close>): with the
  empty string as tooltip text and two elements, no entry has a tooltip element, so nothing
  renders \<^verbatim>\<open> [1 of 2]\<close>.
\<close>

theorem empty_tooltip_counterexample:
  "optTooltipText exampleEmptyTooltip = Some [] \<and>
   (\<exists>s'. updateHighlight exampleLayout [7, 8] exampleEmptyTooltip exampleFresh = Inr s' \<and>
      length (highlightEntries s') = 2 \<and>
      list_all (\<lambda>entry. tooltipElement entry = None) (highlightEntries s'))"
proof -
  let ?t = "optTooltipText exampleEmptyTooltip"
  have o: "?t = Some []" by (simp add: exampleEmptyTooltip_def)
  have stale: "\<not> upToDateSpec exampleLayout [7, 8] ?t (highlightEntries exampleFresh)"
    by (simp add: upToDateSpec_def exampleFresh_entries)
  from innerUpdate_total obtain s'
    where s': "innerUpdateHighlight exampleLayout [7, 8] exampleEmptyTooltip exampleFresh = Inr s'"
    by blast
  let ?built = "build_entries exampleEmptyTooltip (length (nodes exampleFresh)) [7, 8]"
  have "map tooltipElement (highlightEntries s') = map tooltipElement ?built"
    using rebuild_facts(1) [OF stale s'] by (simp add: measured_fields)
  moreover have "\<forall>entry \<in> set ?built. tooltipElement entry = None"
    using build_entries_fields [of _ exampleEmptyTooltip "length (nodes exampleFresh)" "[7, 8]"] o
    by auto
  ultimately have "\<forall>x \<in> set (map tooltipElement (highlightEntries s')). x = None"
    by simp
  then have n: "list_all (\<lambda>entry. tooltipElement entry = None) (highlightEntries s')"
    by (simp add: list_all_iff)
  have "length (highlightEntries s') = 2"
    using arg_cong [OF update_targets [OF s'], of length] by simp
  with s' n o show ?thesis by (auto simp: updateHighlight_def)
qed

text \<open>
  Claim C4, amended. For every update with a non-empty tooltip text \<open>t\<close> requested, on an
  overlay whose registry tooltips are rendered (which holds after construction and is kept
  by every update, mask and clear; see \<open>tooltipsRendered_constructor\<close>,
  \<open>tooltipsRendered_update\<close>, \<open>tooltipsRendered_mask\<close> and
  \<open>tooltipsRendered_clear\<close>): with \<open>N > 1\<close> elements
  the \<open>i\<close>-th (1-based) entry has a tooltip element whose text is exactly \<open>t\<close> followed
  by \<^verbatim>\<open> [i of N]\<close>, and with \<open>N \<le> 1\<close> its text is exactly \<open>t\<close>. Below, \<open>i\<close> counts
  from 0, so the number printed is \<open>i + 1\<close>.
\<close>

theorem tooltip_text_suffix:
  assumes "tooltipsRendered s" and "optTooltipText options = Some t" and "t \<noteq> []"
  shows "\<exists>s'. updateHighlight L els options s = Inr s' \<and>
     length (highlightEntries s') = length els \<and>
     (\<forall>i < length els. \<exists>tt.
        tooltipElement (highlightEntries s' ! i) = Some tt \<and> tt < length (nodes s') \<and>
        textContent (nodes s' ! tt) =
          t @ (if length els > 1
               then '' ['' @ decimal (i + 1) @ '' of '' @ decimal (length els) @ '']''
               else []))"
proof -
  from innerUpdate_total obtain s' where s': "innerUpdateHighlight L els options s = Inr s'"
    by blast
  from tooltipsRendered_update [OF assms(1) s']
  have r: "renderedFrom (map textContent (nodes s')) (length (highlightEntries s')) 0
      (highlightEntries s')"
    by (simp add: tooltipsRendered_def)
  have len: "length (highlightEntries s') = length els"
    using arg_cong [OF update_targets [OF s'], of length] by simp
  have "\<exists>tt. tooltipElement (highlightEntries s' ! i) = Some tt \<and> tt < length (nodes s') \<and>
        textContent (nodes s' ! tt) =
          t @ (if length els > 1
               then '' ['' @ decimal (i + 1) @ '' of '' @ decimal (length els) @ '']''
               else [])"
    if i: "i < length els" for i
  proof -
    from update_establishes [OF s'] i len
    have "tooltipText (highlightEntries s' ! i) = Some t"
      by (simp add: upToDateSpec_iff assms(2))
    from renderedFrom_nth [OF r _ this assms(3)] i len
    have "rendered (map textContent (nodes s')) (length els) i (highlightEntries s' ! i) t"
      by simp
    then obtain tt where tt: "tooltipElement (highlightEntries s' ! i) = Some tt"
        "tt < length (nodes s')"
        "map textContent (nodes s') ! tt = t @ tooltipSuffix (length els) i"
      by (cases "tooltipElement (highlightEntries s' ! i)") (auto simp: rendered_def)
    from tt(2,3) have "textContent (nodes s' ! tt) = t @ tooltipSuffix (length els) i"
      by simp
    with tt(1,2) show ?thesis by (simp add: tooltipSuffix_def)
  qed
  with s' len show ?thesis by (auto simp: updateHighlight_def)
qed

theorem tooltip_text_suffix_witness:
  "tooltipsRendered exampleFresh \<and> optTooltipText exampleOptions = Some ''foo'' \<and>
   (\<exists>s' tt. updateHighlight exampleLayout [7] exampleOptions exampleFresh = Inr s' \<and>
      tooltipElement (highlightEntries s' ! 0) = Some tt \<and>
      textContent (nodes s' ! tt) = ''foo'') \<and>
   (\<exists>s' tt. updateHighlight exampleLayout [7, 8, 9] exampleOptions exampleFresh = Inr s' \<and>
      tooltipElement (highlightEntries s' ! 1) = Some tt \<and>
      textContent (nodes s' ! tt) = ''foo [2 of 3]'')"
proof -
  have o: "optTooltipText exampleOptions = Some ''foo''" by (simp add: exampleOptions_def)
  have ne: "''foo'' \<noteq> ([] :: string)" by simp
  note T = tooltip_text_suffix [OF exampleFresh_rendered o ne]
  from T [of exampleLayout "[7]"] obtain s1 where s1:
      "updateHighlight exampleLayout [7] exampleOptions exampleFresh = Inr s1"
      "\<forall>i < length [7 :: element]. \<exists>tt.
        tooltipElement (highlightEntries s1 ! i) = Some tt \<and> tt < length (nodes s1) \<and>
        textContent (nodes s1 ! tt) =
          ''foo'' @ (if length [7 :: element] > 1
               then '' ['' @ decimal (i + 1) @ '' of '' @ decimal (length [7 :: element]) @ '']''
               else [])"
    by blast
  from s1(2) [rule_format, of 0] obtain t1 where t1:
      "tooltipElement (highlightEntries s1 ! 0) = Some t1" "textContent (nodes s1 ! t1) = ''foo''"
    by auto
  from T [of exampleLayout "[7, 8, 9]"] obtain s3 where s3:
      "updateHighlight exampleLayout [7, 8, 9] exampleOptions exampleFresh = Inr s3"
      "\<forall>i < length [7, 8, 9 :: element]. \<exists>tt.
        tooltipElement (highlightEntries s3 ! i) = Some tt \<and> tt < length (nodes s3) \<and>
        textContent (nodes s3 ! tt) =
          ''foo'' @ (if length [7, 8, 9 :: element] > 1
               then '' ['' @ decimal (i + 1) @ '' of '' @ decimal (length [7, 8, 9 :: element]) @ '']''
               else [])"
    by blast
  have d: "decimal (Suc (Suc 0)) = ''2''" "decimal (Suc (Suc (Suc 0))) = ''3''"
    by (simp_all add: decimal.simps)
  from s3(2) [rule_format, of 1] obtain t3 where t3:
      "tooltipElement (highlightEntries s3 ! 1) = Some t3"
      "textContent (nodes s3 ! t3) = ''foo [2 of 3]''"
    by (auto simp: d)
  from exampleFresh_rendered o s1(1) t1 s3(1) t3 show ?thesis by blast
qed

subsection \<open>The loop\<close>

lemma cancelPending_clears:
  "atMostOne (s, f) \<Longrightarrow> callbacks (cancelPending s f) = [] \<and>
     lastHandle (cancelPending s f) = lastHandle f"
proof (cases "callbacks f")
  case Nil
  then show ?thesis
    by (cases "rafRequest s") (simp_all add: cancelPending_def cancelAnimationFrame_def)
next
  case (Cons c cs)
  assume "atMostOne (s, f)"
  with Cons obtain h selector where "c = (h, selector)" "cs = []" "rafRequest s = Some h" "h \<noteq> 0"
    by (cases c; cases cs) (simp_all add: atMostOne_def)
  with Cons show ?thesis
    by (simp add: cancelPending_def cancelAnimationFrame_def)
qed

lemma runHighlightOnRaf_result:
  assumes "atMostOne w"
  shows "\<exists>s1. updateHighlight (layoutNow E) (querySelectorAll E selector)
                \<lparr>optTooltipText = Some (asLocator E (language (fst w)) (stringifySelector E selector)),
                 optColor = None\<rparr> (fst w) = Inr s1 \<and>
           runHighlightOnRaf E selector w =
             Inr (s1\<lparr>rafRequest := Some (Suc (lastHandle (snd w)))\<rparr>,
                  (cancelPending (fst w) (snd w))
                    \<lparr>callbacks := [(Suc (lastHandle (snd w)), selector)],
                     lastHandle := Suc (lastHandle (snd w))\<rparr>)"
proof -
  let ?options = "\<lparr>optTooltipText = Some (asLocator E (language (fst w)) (stringifySelector E selector)),
                 optColor = None\<rparr>"
  from innerUpdate_total obtain s1
    where s1: "innerUpdateHighlight (layoutNow E) (querySelectorAll E selector) ?options (fst w) = Inr s1"
    by blast
  from assms have "atMostOne (fst w, snd w)" by simp
  from cancelPending_clears [OF this] s1 show ?thesis
    by (simp add: runHighlightOnRaf_def updateHighlight_def requestAnimationFrame_def Let_def)
qed

lemma runHighlightOnRaf_one:
  assumes "atMostOne w"
  shows "\<exists>w'. runHighlightOnRaf E selector w = Inr w' \<and> atMostOne w' \<and>
           callbacks (snd w') = [(Suc (lastHandle (snd w)), selector)] \<and>
           rafRequest (fst w') = Some (Suc (lastHandle (snd w)))"
  using runHighlightOnRaf_result [OF assms, of E selector]
  by (auto simp: atMostOne_def)

lemma uninstall_none: "atMostOne w \<Longrightarrow> atMostOne (uninstall w) \<and> callbacks (snd (uninstall w)) = []"
proof -
  assume "atMostOne w"
  then have "atMostOne (fst w, snd w)" by simp
  from cancelPending_clears [OF this] show ?thesis
    by (simp add: uninstall_def atMostOne_def Let_def)
qed

lemma animationFrame_one:
  assumes "atMostOne w"
  shows "\<exists>w'. animationFrame E w = Inr w' \<and> atMostOne w' \<and>
           length (callbacks (snd w')) = length (callbacks (snd w)) \<and>
           map snd (callbacks (snd w')) = map snd (callbacks (snd w))"
proof (cases "callbacks (snd w)")
  case Nil
  with assms show ?thesis by (simp add: animationFrame_def)
next
  case (Cons c cs)
  with assms obtain h selector where c: "c = (h, selector)" "cs = []"
    by (cases c; cases cs) (simp_all add: atMostOne_def)
  have "atMostOne (fst w, cancelAnimationFrame h (snd w))"
    using Cons c by (simp add: atMostOne_def cancelAnimationFrame_def)
  from runHighlightOnRaf_one [OF this, of E selector] obtain w'
    where "runHighlightOnRaf E selector (fst w, cancelAnimationFrame h (snd w)) = Inr w'"
      "atMostOne w'" "callbacks (snd w') =
         [(Suc (lastHandle (snd (fst w, cancelAnimationFrame h (snd w)))), selector)]"
    by blast
  with Cons c show ?thesis
    by (simp add: animationFrame_def)
qed

lemma step_keeps: "atMostOne w \<Longrightarrow> \<exists>w'. step ev w = Inr w' \<and> atMostOne w'"
proof (cases ev)
  case (Start E selector)
  assume "atMostOne w"
  from runHighlightOnRaf_one [OF this, of E selector] Start show ?thesis by auto
next
  case (Frame E)
  assume "atMostOne w"
  from animationFrame_one [OF this, of E] Frame show ?thesis by auto
next
  case Uninstall
  assume "atMostOne w"
  from uninstall_none [OF this] Uninstall show ?thesis by simp
qed

lemma run_keeps: "atMostOne w \<Longrightarrow> \<exists>w'. run evs w = Inr w' \<and> atMostOne w'"
proof (induction evs arbitrary: w)
  case Nil
  then show ?case by simp
next
  case (Cons ev evs)
  from step_keeps [OF Cons.prems, of ev] obtain w1 where "step ev w = Inr w1" "atMostOne w1"
    by blast
  with Cons.IH [of w1] show ?case by simp
qed

lemma atMostOne_length: "atMostOne w \<Longrightarrow> length (callbacks (snd w)) \<le> 1"
  by (cases "callbacks (snd w)"; cases "tl (callbacks (snd w))")
     (auto simp: atMostOne_def split: list.splits prod.splits)

lemma exampleWorld_atMostOne: "atMostOne exampleWorld"
  by (simp add: exampleWorld_def atMostOne_def)

lemma animationFrame_tracks:
  assumes "callbacks (snd w) = [(h, selector)]"
  shows "animationFrame E w = runHighlightOnRaf E selector (fst w, cancelAnimationFrame h (snd w))"
proof -
  have "runCallbacks E [] w' = Inr w'" for w' :: "Highlight \<times> 'a frames" by simp
  then show ?thesis
    using assms
    by (cases "runHighlightOnRaf E selector (fst w, cancelAnimationFrame h (snd w))")
       (simp_all add: animationFrame_def)
qed

section \<open>One scheduled callback\<close>

text \<open>
  Claim C7. Start from an overlay with at most one scheduled frame callback whose handle it
  holds (so from a new overlay). Then after any sequence of \<^verbatim>\<open>runHighlightOnRaf\<close> calls,
  animation frames and \<^verbatim>\<open>uninstall\<close> calls there is still at most one scheduled
  callback; \<^verbatim>\<open>runHighlightOnRaf(selA)\<close> followed by \<^verbatim>\<open>runHighlightOnRaf(selB)\<close> leaves
  exactly one, for \<open>selB\<close>, and the overlay holds its handle; every iteration performs
  exactly one \<^verbatim>\<open>updateHighlight\<close> call, with the current matches of the selector and the
  tooltip text \<^verbatim>\<open>asLocator(language, stringifySelector(selector))\<close>, and then schedules
  itself; and an animation frame runs exactly the iteration of the scheduled selector.
\<close>

theorem raf_loop_single_callback:
  assumes "atMostOne w"
  shows "(\<exists>w'. run evs w = Inr w' \<and> atMostOne w' \<and> length (callbacks (snd w')) \<le> 1) \<and>
     (\<exists>w' h. run [Start EA selA, Start EB selB] w = Inr w' \<and>
        callbacks (snd w') = [(h, selB)] \<and> rafRequest (fst w') = Some h) \<and>
     (\<exists>s1 w' h. updateHighlight (layoutNow E) (querySelectorAll E selector)
             \<lparr>optTooltipText = Some (asLocator E (language (fst w)) (stringifySelector E selector)),
              optColor = None\<rparr> (fst w) = Inr s1 \<and>
        runHighlightOnRaf E selector w = Inr w' \<and> fst w' = s1\<lparr>rafRequest := Some h\<rparr> \<and>
        callbacks (snd w') = [(h, selector)]) \<and>
     (\<forall>h sel. callbacks (snd w) = [(h, sel)] \<longrightarrow>
        animationFrame E w = runHighlightOnRaf E sel (fst w, cancelAnimationFrame h (snd w)))"
proof -
  from run_keeps [OF assms, of evs] atMostOne_length
  have a: "\<exists>w'. run evs w = Inr w' \<and> atMostOne w' \<and> length (callbacks (snd w')) \<le> 1"
    by blast
  from runHighlightOnRaf_one [OF assms, of EA selA] obtain w1
    where w1: "runHighlightOnRaf EA selA w = Inr w1" "atMostOne w1" by blast
  from runHighlightOnRaf_one [OF w1(2), of EB selB] obtain w2
    where w2: "runHighlightOnRaf EB selB w1 = Inr w2"
      "callbacks (snd w2) = [(Suc (lastHandle (snd w1)), selB)]"
      "rafRequest (fst w2) = Some (Suc (lastHandle (snd w1)))" by blast
  from w1(1) w2 have b: "\<exists>w' h. run [Start EA selA, Start EB selB] w = Inr w' \<and>
        callbacks (snd w') = [(h, selB)] \<and> rafRequest (fst w') = Some h"
    by simp
  from runHighlightOnRaf_result [OF assms, of E selector]
  have c: "\<exists>s1 w' h. updateHighlight (layoutNow E) (querySelectorAll E selector)
             \<lparr>optTooltipText = Some (asLocator E (language (fst w)) (stringifySelector E selector)),
              optColor = None\<rparr> (fst w) = Inr s1 \<and>
        runHighlightOnRaf E selector w = Inr w' \<and> fst w' = s1\<lparr>rafRequest := Some h\<rparr> \<and>
        callbacks (snd w') = [(h, selector)]"
    by auto
  have d: "\<forall>h sel. callbacks (snd w) = [(h, sel)] \<longrightarrow>
        animationFrame E w = runHighlightOnRaf E sel (fst w, cancelAnimationFrame h (snd w))"
    by (intro allI impI) (rule animationFrame_tracks)
  show ?thesis
    apply (intro conjI)
       apply (rule a)
      apply (rule b)
     apply (rule c)
    apply (rule d)
    done
qed

theorem raf_loop_single_callback_witness:
  "atMostOne exampleWorld \<and>
   (\<exists>w'. run [Start exampleEnv ''a'', Frame exampleEnv, Start exampleEnv ''b'', Frame exampleEnv,
              Uninstall, Frame exampleEnv, Start exampleEnv ''c''] exampleWorld = Inr w' \<and>
      length (callbacks (snd w')) \<le> 1) \<and>
   (\<exists>w' h. run [Start exampleEnv ''a'', Start exampleEnv ''b''] exampleWorld = Inr w' \<and>
      callbacks (snd w') = [(h, ''b'')] \<and> rafRequest (fst w') = Some h)"
proof -
  from raf_loop_single_callback [OF exampleWorld_atMostOne,
      of "[Start exampleEnv ''a'', Frame exampleEnv, Start exampleEnv ''b'', Frame exampleEnv,
              Uninstall, Frame exampleEnv, Start exampleEnv ''c'']" exampleEnv "''a''" exampleEnv "''b''"]
    exampleWorld_atMostOne
  show ?thesis by blast
qed

end
